(* ===== verification/Go_Prelude.thy ===== *)
theory Go_Prelude
  imports Main "HOL-Library.Word"
begin

unbundle bit_operations_syntax

text \<open>
  Shared vocabulary of the development: the machine integers of Go, its error values with
  \<open>errors.Is\<close>, panics, the fixed-size byte buffers that \<open>Read\<close> fills, big-endian encoding from
  \<open>encoding/binary\<close>, string conversions, and the generic list lemmas the components share.
  Nothing here translates a file of the repository; it is the part of the language and of its
  standard library that the sources use.
\<close>

section \<open>Types\<close>

type_synonym u8 = "8 word"
type_synonym u16 = "16 word"
type_synonym u32 = "32 word"
type_synonym bytes = "u8 list"

text \<open>A \<open>uuid.UUID\<close> is an array of 16 bytes: the sources only copy it through \<open>id[:]\<close>.\<close>

type_synonym uuid = bytes

definition uuid_Nil :: uuid where
  "uuid_Nil = replicate 16 0"

named_theorems conn_simps
named_theorems go_split

section \<open>Errors, results and panics\<close>

text \<open>
  \<open>Sentinel\<close> is a package-level error variable, \<open>Errorf\<close> a leaf made by \<open>fmt.Errorf\<close> from a format
  and its integer arguments, \<open>Wrap\<close> is \<open>fmt.Errorf("msg: %w", err)\<close> and \<open>Joined\<close> is the same around
  \<open>errors.Join\<close>.
\<close>

datatype err =
    EOF
  | ErrUnexpectedEOF
  | ErrClosed
  | IOErr nat
  | Sentinel string
  | Errorf string "int list"
  | Wrap string err
  | Joined string "err list"

text \<open>\<open>errors.Is(err, target)\<close> for a sentinel target: the error itself or one it wraps.\<close>

fun errors_is :: "err \<Rightarrow> err \<Rightarrow> bool" where
  "errors_is (Wrap m e) t = (Wrap m e = t \<or> errors_is e t)"
| "errors_is (Joined m es) t = (Joined m es = t \<or> list_ex (\<lambda>e. errors_is e t) es)"
| "errors_is e t = (e = t)"

type_synonym 'a res = "err + 'a"

text \<open>
  \<open>github.com/google/uuid\<close> is not part of the repository: \<open>uuid.FromBytes\<close> is a parameter
  \<open>from_bytes\<close> of the definitions that call it. Its documentation says that it copies a slice of
  16 bytes and returns an error on any other length; the sources only pass it slices of 16.
\<close>

definition uuid_FromBytes_ok :: "(bytes \<Rightarrow> uuid res) \<Rightarrow> bool" where
  "uuid_FromBytes_ok from_bytes \<longleftrightarrow> (\<forall>bs. length bs = 16 \<longrightarrow> from_bytes bs = Inr bs)"

text \<open>A function with that behaviour, for concrete runs.\<close>

definition from_bytes16 :: "bytes \<Rightarrow> uuid res" where
  "from_bytes16 bs =
     (if length bs = 16 then Inr bs else Inl (Errorf ''invalid UUID (got %d bytes)'' [int (length bs)]))"

lemma from_bytes16_ok [simp]: "uuid_FromBytes_ok from_bytes16"
  by (simp add: uuid_FromBytes_ok_def from_bytes16_def)

lemma uuid_FromBytes_okD [simp]:
  "uuid_FromBytes_ok from_bytes \<Longrightarrow> length bs = 16 \<Longrightarrow> from_bytes bs = Inr bs"
  by (simp add: uuid_FromBytes_ok_def)

datatype 'a outcome = Return 'a | Panic string

lemmas [go_split] = sum.splits prod.splits option.splits if_splits outcome.splits

text \<open>For runs of which the result has been computed.\<close>

lemma fst_eq_pair: "fst p = a \<Longrightarrow> p = (a, snd p)"
  by (cases p) simp

section \<open>Buffers\<close>

text \<open>
  \<open>buf := make([]byte, n); conn.Read(buf)\<close>: the bytes that arrived, and the zeros the buffer was
  made with where nothing arrived.
\<close>

definition fill_buf :: "nat \<Rightarrow> bytes \<Rightarrow> bytes" where
  "fill_buf n got = take n got @ replicate (n - length got) 0"

lemma length_fill_buf [simp]: "length (fill_buf n got) = n"
  by (simp add: fill_buf_def)

lemma fill_buf_take [simp]: "fill_buf n (take n got) = fill_buf n got"
  by (simp add: fill_buf_def)

lemma fill_buf_long [simp]: "n \<le> length got \<Longrightarrow> fill_buf n got = take n got"
  by (simp add: fill_buf_def)

lemma fill_buf_short: "length got \<le> n \<Longrightarrow> fill_buf n got = got @ replicate (n - length got) 0"
  by (simp add: fill_buf_def)

section \<open>Big-endian integers\<close>

definition PutUint16 :: "u16 \<Rightarrow> bytes" where
  "PutUint16 v = [ucast (drop_bit 8 v), ucast v]"

definition Uint16 :: "bytes \<Rightarrow> u16" where
  "Uint16 b = ucast (b ! 1) OR push_bit 8 (ucast (b ! 0))"

definition PutUint32 :: "u32 \<Rightarrow> bytes" where
  "PutUint32 v = [ucast (drop_bit 24 v), ucast (drop_bit 16 v), ucast (drop_bit 8 v), ucast v]"

definition Uint32 :: "bytes \<Rightarrow> u32" where
  "Uint32 b = ucast (b ! 3) OR push_bit 8 (ucast (b ! 2)) OR push_bit 16 (ucast (b ! 1))
     OR push_bit 24 (ucast (b ! 0))"

lemma length_PutUint16 [simp]: "length (PutUint16 v) = 2"
  by (simp add: PutUint16_def)

lemma length_PutUint32 [simp]: "length (PutUint32 v) = 4"
  by (simp add: PutUint32_def)

lemma Uint16_PutUint16 [simp]: "Uint16 (PutUint16 v) = v"
  by (rule bit_word_eqI) (auto simp: Uint16_def PutUint16_def bit_simps)

lemma Uint32_PutUint32 [simp]: "Uint32 (PutUint32 v) = v"
proof (rule bit_word_eqI)
  fix n
  assume "n < LENGTH(32)"
  then show "bit (Uint32 (PutUint32 v)) n \<longleftrightarrow> bit v n"
    by (cases "24 \<le> n"; cases "16 \<le> n") (auto simp: Uint32_def PutUint32_def bit_simps)
qed

lemma unat_u8_le: "unat (n :: u8) \<le> 255"
proof -
  have "unat n < 2 ^ 8"
    using unsigned_less [of n] by simp
  then show ?thesis
    by simp
qed

lemma unat_u8_of_nat [simp]: "k \<le> 255 \<Longrightarrow> unat (word_of_nat k :: u8) = k"
  by (simp add: unat_of_nat)

lemma unat_u16_of_nat [simp]: "k \<le> 65535 \<Longrightarrow> unat (word_of_nat k :: u16) = k"
  by (simp add: unat_of_nat)

section \<open>Strings\<close>

text \<open>Go strings are byte sequences: \<open>[]byte(s)\<close> and \<open>string(b)\<close> are inverse to each other.\<close>

definition bytes_of_string :: "string \<Rightarrow> bytes" where
  "bytes_of_string s = map (\<lambda>c. word_of_nat (of_char c)) s"

definition string_of_bytes :: "bytes \<Rightarrow> string" where
  "string_of_bytes b = map (\<lambda>w. char_of (unat w)) b"

lemma length_bytes_of_string [simp]: "length (bytes_of_string s) = length s"
  by (simp add: bytes_of_string_def)

lemma unat_char_byte [simp]: "unat (word_of_nat (of_char c) :: u8) = of_char c"
  by (simp add: unat_of_nat)

lemma string_of_bytes_of_string [simp]: "string_of_bytes (bytes_of_string s) = s"
  by (simp add: string_of_bytes_def bytes_of_string_def comp_def)

section \<open>Lists\<close>

text \<open>The Go idiom \<open>xs = append(xs[:i], xs[i+1:]...)\<close>.\<close>

definition remove_at :: "nat \<Rightarrow> 'a list \<Rightarrow> 'a list" where
  "remove_at i xs = take i xs @ drop (Suc i) xs"

lemma remove_at_simps [simp]:
  "remove_at i [] = []"
  "remove_at 0 (x # xs) = xs"
  "remove_at (Suc i) (x # xs) = x # remove_at i xs"
  by (simp_all add: remove_at_def)

lemma length_remove_at [simp]: "i < length xs \<Longrightarrow> length (remove_at i xs) = length xs - 1"
  by (simp add: remove_at_def)

lemma set_remove_at_subset: "set (remove_at i xs) \<subseteq> set xs"
  using set_take_subset [of i xs] set_drop_subset [of "Suc i" xs] by (auto simp: remove_at_def)

lemma map_remove_at: "map f (remove_at i xs) = remove_at i (map f xs)"
  by (simp add: remove_at_def take_map drop_map)

lemma distinct_remove_at: "distinct xs \<Longrightarrow> distinct (remove_at i xs)"
proof (induction xs arbitrary: i)
  case (Cons x xs)
  then show ?case
    using set_remove_at_subset by (cases i) fastforce+
qed simp

lemma set_remove_at_distinct:
  "distinct xs \<Longrightarrow> i < length xs \<Longrightarrow> set (remove_at i xs) = set xs - {xs ! i}"
proof (induction xs arbitrary: i)
  case (Cons x xs)
  then show ?case by (cases i) auto
qed simp

text \<open>The index at which \<open>for i, x := range xs { if p(x) { ... return } }\<close> stops.\<close>

fun find_conn :: "('r \<Rightarrow> bool) \<Rightarrow> 'r list \<Rightarrow> nat option" where
  "find_conn P [] = None"
| "find_conn P (r # rs) = (if P r then Some 0 else map_option Suc (find_conn P rs))"

lemma find_conn_Some:
  "find_conn P rs = Some i \<Longrightarrow> i < length rs \<and> P (rs ! i) \<and> (\<forall>j < i. \<not> P (rs ! j))"
proof (induction rs arbitrary: i)
  case (Cons r rs)
  then show ?case
    by (auto simp: nth_Cons less_Suc_eq_0_disj split: if_splits nat.splits)
qed simp

lemma find_conn_None: "find_conn P rs = None \<longleftrightarrow> (\<forall>r \<in> set rs. \<not> P r)"
  by (induction rs) auto

end
