(* ===== verification/Go_Conn.thy ===== *)
theory Go_Conn
  imports Go_Prelude
begin

text \<open>
  The connection a handler talks to (\<open>net.Conn\<close>, \<open>io.ReadWriteCloser\<close>) and the two ways the sources
  read from it: one \<open>Read\<close>, which may return fewer bytes than the buffer holds, and
  \<open>io.ReadFull\<close>, which loops until the buffer is full.

  A connection is seen from one end. \<open>c_rx\<close> holds the bytes the peer sends, cut into the segments
  in which they arrive: one \<open>Read\<close> never returns more than what is left of the first segment.
  \<open>c_end\<close> is what \<open>Read\<close> reports once they are used up (\<open>EOF\<close> when the peer closed). \<open>c_tx\<close> is
  what has been written, \<open>c_wleft\<close> how many more \<open>Write\<close>s succeed (\<open>None\<close>: all of them). Theorems
  that quantify over all connections therefore cover every segmentation and every point at which the
  transport, or another goroutine that closes it, makes an operation fail.
\<close>

record conn =
  c_rx :: "bytes list"
  c_end :: err
  c_tx :: bytes
  c_wleft :: "nat option"
  c_closed :: bool

definition mk_conn :: "bytes list \<Rightarrow> conn" where
  "mk_conn segs = \<lparr>c_rx = segs, c_end = EOF, c_tx = [], c_wleft = None, c_closed = False\<rparr>"

text \<open>The bytes that are still to be read, whatever their segmentation.\<close>

definition avail :: "conn \<Rightarrow> bytes" where
  "avail c = concat (c_rx c)"

section \<open>Operations\<close>

definition conn_Read :: "nat \<Rightarrow> conn \<Rightarrow> bytes res \<times> conn" where
  "conn_Read n c =
     (if c_closed c then (Inl ErrClosed, c)
      else if n = 0 then (Inr [], c)
      else case c_rx c of
        [] \<Rightarrow> (Inl (c_end c), c)
      | seg # segs \<Rightarrow>
          (Inr (take n seg), c\<lparr>c_rx := (if length seg \<le> n then segs else drop n seg # segs)\<rparr>))"

definition conn_Write :: "bytes \<Rightarrow> conn \<Rightarrow> unit res \<times> conn" where
  "conn_Write bs c =
     (if c_closed c then (Inl ErrClosed, c)
      else case c_wleft c of
        None \<Rightarrow> (Inr (), c\<lparr>c_tx := c_tx c @ bs\<rparr>)
      | Some 0 \<Rightarrow> (Inl (IOErr 0), c)
      | Some (Suc k) \<Rightarrow> (Inr (), c\<lparr>c_tx := c_tx c @ bs, c_wleft := Some k\<rparr>))"

definition conn_Close :: "conn \<Rightarrow> unit res \<times> conn" where
  "conn_Close c = (if c_closed c then (Inl ErrClosed, c) else (Inr (), c\<lparr>c_closed := True\<rparr>))"

text \<open>What is left to read shrinks with every \<open>Read\<close> that returns into a non-empty buffer.\<close>

definition rx_size :: "conn \<Rightarrow> nat" where
  "rx_size c = sum_list (map (\<lambda>seg. Suc (length seg)) (c_rx c))"

lemma conn_Read_rx_size:
  "conn_Read n c = (Inr got, c') \<Longrightarrow> 0 < n \<Longrightarrow> rx_size c' < rx_size c"
  by (auto simp: conn_Read_def rx_size_def split: if_splits list.splits)

text \<open>
  The loop of \<open>io.ReadAtLeast\<close>, with the bytes read so far: an end of file in the middle is
  \<open>io.ErrUnexpectedEOF\<close>, one before the first byte stays \<open>io.EOF\<close>.
\<close>

function read_loop :: "nat \<Rightarrow> bytes \<Rightarrow> conn \<Rightarrow> bytes res \<times> conn" where
  "read_loop n acc c =
     (if n \<le> length acc then (Inr acc, c)
      else case conn_Read (n - length acc) c of
        (Inl e, c') \<Rightarrow> (Inl (if acc \<noteq> [] \<and> e = EOF then ErrUnexpectedEOF else e), c')
      | (Inr got, c') \<Rightarrow> read_loop n (acc @ got) c')"
  by pat_completeness auto
termination
  by (relation "measure (\<lambda>(n, acc, c). rx_size c)") (auto dest!: conn_Read_rx_size [OF sym])

declare read_loop.simps [simp del]

definition io_ReadFull :: "nat \<Rightarrow> conn \<Rightarrow> bytes res \<times> conn" where
  "io_ReadFull n c = read_loop n [] c"

section \<open>Frames\<close>

text \<open>Reading changes nothing but what is left to read; writing changes nothing of it.\<close>

lemma conn_Read_frame:
  "conn_Read n c = (r, c') \<Longrightarrow>
     c_tx c' = c_tx c \<and> c_wleft c' = c_wleft c \<and> c_closed c' = c_closed c \<and> c_end c' = c_end c"
  by (auto simp: conn_Read_def split: if_splits list.splits)

lemma read_loop_frame:
  "read_loop n acc c = (r, c') \<Longrightarrow>
     c_tx c' = c_tx c \<and> c_wleft c' = c_wleft c \<and> c_closed c' = c_closed c \<and> c_end c' = c_end c"
proof (induction n acc c rule: read_loop.induct)
  case (1 n acc c)
  obtain r1 c1 where rd: "conn_Read (n - length acc) c = (r1, c1)"
    by fastforce
  from "1.prems" show ?case
    using conn_Read_frame [OF rd] "1.IH" [OF _ rd [symmetric]] rd
    by (cases r1) (auto simp: read_loop.simps [of n acc c] split: if_splits)
qed

lemma io_ReadFull_frame:
  "io_ReadFull n c = (r, c') \<Longrightarrow>
     c_tx c' = c_tx c \<and> c_wleft c' = c_wleft c \<and> c_closed c' = c_closed c \<and> c_end c' = c_end c"
  unfolding io_ReadFull_def by (rule read_loop_frame)

lemma conn_Write_frame:
  "conn_Write bs c = (r, c') \<Longrightarrow>
     c_rx c' = c_rx c \<and> c_closed c' = c_closed c \<and> c_end c' = c_end c"
  by (auto simp: conn_Write_def split: if_splits option.splits nat.splits)

lemma conn_Write_avail [simp]: "conn_Write bs c = (r, c') \<Longrightarrow> avail c' = avail c"
  by (simp add: avail_def conn_Write_frame)

lemma conn_Write_tx:
  "conn_Write bs c = (Inr u, c') \<Longrightarrow> c_tx c' = c_tx c @ bs"
  by (auto simp: conn_Write_def split: if_splits option.splits nat.splits)

lemma conn_Close_closed [simp]: "c_closed (snd (conn_Close c))"
  by (simp add: conn_Close_def)

section \<open>ReadFull does not see segments\<close>

text \<open>The segments that remain after \<open>n\<close> bytes have been taken off by full reads.\<close>

fun drop_segs :: "nat \<Rightarrow> bytes list \<Rightarrow> bytes list" where
  "drop_segs n [] = []"
| "drop_segs n (seg # segs) =
     (if n = 0 then seg # segs
      else if length seg \<le> n then drop_segs (n - length seg) segs
      else drop n seg # segs)"

lemma drop_segs_0 [simp]: "drop_segs 0 segs = segs"
  by (cases segs) simp_all

lemma concat_drop_segs [simp]: "concat (drop_segs n segs) = drop n (concat segs)"
  by (induction n segs rule: drop_segs.induct) auto

lemma drop_segs_drop_segs [simp]: "drop_segs a (drop_segs b segs) = drop_segs (b + a) segs"
proof (induction b segs rule: drop_segs.induct)
  case (2 n seg segs)
  then show ?case by (cases "a = 0") (auto simp: algebra_simps)
qed simp

lemma c_rx_same [simp]: "c_rx c = segs \<Longrightarrow> c\<lparr>c_rx := segs\<rparr> = c"
  by (cases c) simp

lemma read_loop_enough:
  assumes "\<not> c_closed c" and "n \<le> length acc + length (avail c)" and "length acc \<le> n"
  shows "read_loop n acc c =
    (Inr (acc @ take (n - length acc) (avail c)),
     c\<lparr>c_rx := drop_segs (n - length acc) (c_rx c)\<rparr>)"
  using assms
proof (induction "c_rx c" arbitrary: acc c)
  case Nil
  then have "n = length acc" by (simp add: avail_def)
  with Nil show ?case
    by (simp add: read_loop.simps [of "length acc" acc c] avail_def eq_commute [of "[]"])
next
  case (Cons seg segs)
  show ?case
  proof (cases "n \<le> length acc")
    case True
    with Cons show ?thesis
      by (simp add: read_loop.simps [of n acc c])
  next
    case False
    let ?m = "n - length acc"
    show ?thesis
    proof (cases "length seg \<le> ?m")
      case True
      let ?c = "c\<lparr>c_rx := segs\<rparr>"
      have "read_loop n acc c = read_loop n (acc @ seg) ?c"
        using Cons.prems Cons.hyps(2) [symmetric] False True
        by (simp add: read_loop.simps [of n acc c] conn_Read_def)
      also have "\<dots> = (Inr ((acc @ seg) @ take (n - length (acc @ seg)) (avail ?c)),
          ?c\<lparr>c_rx := drop_segs (n - length (acc @ seg)) (c_rx ?c)\<rparr>)"
        using Cons.prems Cons.hyps(2) [symmetric] False True
        by (intro Cons.hyps(1)) (auto simp: avail_def)
      finally show ?thesis
        using Cons.hyps(2) [symmetric] False True by (simp add: avail_def)
    next
      case long: False
      have "read_loop n acc c = read_loop n (acc @ take ?m seg) (c\<lparr>c_rx := drop ?m seg # segs\<rparr>)"
        using Cons.prems Cons.hyps(2) [symmetric] False long
        by (simp add: read_loop.simps [of n acc c] conn_Read_def)
      then show ?thesis
        using Cons.hyps(2) [symmetric] Cons.prems False long
        by (simp add: read_loop.simps [of n "acc @ take ?m seg"] avail_def)
    qed
  qed
qed

lemma io_ReadFull_enough [conn_simps]:
  "\<not> c_closed c \<Longrightarrow> n \<le> length (avail c) \<Longrightarrow>
     io_ReadFull n c = (Inr (take n (avail c)), c\<lparr>c_rx := drop_segs n (c_rx c)\<rparr>)"
  by (simp add: io_ReadFull_def read_loop_enough)

lemma read_loop_short:
  assumes "\<not> c_closed c" and "length acc + length (avail c) < n"
  shows "\<exists>c'. read_loop n acc c =
    (Inl (if (acc \<noteq> [] \<or> avail c \<noteq> []) \<and> c_end c = EOF then ErrUnexpectedEOF else c_end c), c')"
  using assms
proof (induction "c_rx c" arbitrary: acc c)
  case Nil
  then show ?case
    by (auto simp: read_loop.simps [of n acc c] conn_Read_def avail_def)
next
  case (Cons seg segs)
  let ?c = "c\<lparr>c_rx := segs\<rparr>"
  have "read_loop n acc c = read_loop n (acc @ seg) ?c"
    using Cons.prems Cons.hyps(2) [symmetric]
    by (auto simp: read_loop.simps [of n acc c] conn_Read_def avail_def)
  moreover have "\<exists>c'. read_loop n (acc @ seg) ?c =
    (Inl (if (acc @ seg \<noteq> [] \<or> avail ?c \<noteq> []) \<and> c_end ?c = EOF then ErrUnexpectedEOF
          else c_end ?c), c')"
    using Cons.prems Cons.hyps(2) [symmetric] by (intro Cons.hyps(1)) (auto simp: avail_def)
  ultimately show ?case
    using Cons.hyps(2) [symmetric] by (auto simp: avail_def)
qed

lemma io_ReadFull_closed [conn_simps]:
  "c_closed c \<Longrightarrow> 0 < n \<Longrightarrow> io_ReadFull n c = (Inl ErrClosed, c)"
  by (simp add: io_ReadFull_def read_loop.simps [of n "[]" c] conn_Read_def)

text \<open>The two cases together: \<open>io.ReadFull\<close> succeeds exactly when enough bytes will arrive.\<close>

lemma io_ReadFull_cases:
  assumes "0 < n"
  shows "(\<exists>bs c'. io_ReadFull n c = (Inr bs, c')) \<longleftrightarrow> \<not> c_closed c \<and> n \<le> length (avail c)"
proof (cases "\<not> c_closed c \<and> length (avail c) < n")
  case True
  then show ?thesis
    using read_loop_short [of c "[]" n] by (auto simp: io_ReadFull_def)
next
  case False
  with assms show ?thesis
    by (cases "c_closed c") (auto simp: conn_simps)
qed

lemma io_ReadFull_InrD:
  assumes "io_ReadFull n c = (Inr bs, c')" and "0 < n"
  shows "\<not> c_closed c" "n \<le> length (avail c)" "bs = take n (avail c)"
    "c' = c\<lparr>c_rx := drop_segs n (c_rx c)\<rparr>" "length bs = n"
proof -
  show ok: "\<not> c_closed c" "n \<le> length (avail c)"
    using io_ReadFull_cases [of n c] assms by auto
  then show "bs = take n (avail c)" "c' = c\<lparr>c_rx := drop_segs n (c_rx c)\<rparr>" "length bs = n"
    using assms(1) by (auto simp: conn_simps)
qed

lemma rx_size_drop_segs:
  "\<not> c_closed c \<Longrightarrow> n \<le> length (avail c) \<Longrightarrow> 0 < n \<Longrightarrow>
     rx_size (c\<lparr>c_rx := drop_segs n (c_rx c)\<rparr>) < rx_size c"
proof -
  have le: "sum_list (map (\<lambda>seg. Suc (length seg)) (drop_segs m segs))
      \<le> sum_list (map (\<lambda>seg. Suc (length seg)) segs)" for m segs
    by (induction m segs rule: drop_segs.induct) auto
  assume "0 < n" and "n \<le> length (avail c)"
  then obtain seg segs where "c_rx c = seg # segs"
    by (cases "c_rx c") (auto simp: avail_def)
  with \<open>0 < n\<close> show ?thesis
    using le [of "n - length seg" segs] by (auto simp: rx_size_def)
qed

lemma io_ReadFull_rx_size:
  "io_ReadFull n c = (Inr bs, c') \<Longrightarrow> 0 < n \<Longrightarrow> rx_size c' < rx_size c"
  using io_ReadFull_InrD rx_size_drop_segs by metis

lemma conn_Read_rx_size_le:
  "conn_Read n c = (r, c') \<Longrightarrow> rx_size c' \<le> rx_size c"
  by (auto simp: conn_Read_def rx_size_def split: if_splits list.splits)

lemma conn_Write_rx_size [simp]: "conn_Write bs c = (r, c') \<Longrightarrow> rx_size c' = rx_size c"
  by (simp add: rx_size_def conn_Write_frame)

section \<open>Connections in good order\<close>

text \<open>Nothing makes an operation of the connection fail: the hypothesis of the success paths.\<close>

definition conn_live :: "conn \<Rightarrow> bool" where
  "conn_live c \<longleftrightarrow> \<not> c_closed c \<and> c_wleft c = None"

lemma conn_liveD [dest]: "conn_live c \<Longrightarrow> \<not> c_closed c"
  by (simp add: conn_live_def)

lemma conn_live_update [simp]:
  "conn_live (c\<lparr>c_rx := segs\<rparr>) = conn_live c"
  "conn_live (c\<lparr>c_tx := bs\<rparr>) = conn_live c"
  by (simp_all add: conn_live_def)

lemma avail_update [simp]:
  "avail (c\<lparr>c_rx := segs\<rparr>) = concat segs"
  "avail (c\<lparr>c_tx := bs\<rparr>) = avail c"
  by (simp_all add: avail_def)

lemma conn_Write_live [conn_simps]:
  "conn_live c \<Longrightarrow> conn_Write bs c = (Inr (), c\<lparr>c_tx := c_tx c @ bs\<rparr>)"
  by (simp add: conn_live_def conn_Write_def)

lemma io_ReadFull_live [conn_simps]:
  "conn_live c \<Longrightarrow> n \<le> length (avail c) \<Longrightarrow>
     io_ReadFull n c = (Inr (take n (avail c)), c\<lparr>c_rx := drop_segs n (c_rx c)\<rparr>)"
  by (simp add: conn_live_def conn_simps)

lemma conn_Read_live [conn_simps]:
  "conn_live c \<Longrightarrow> 0 < n \<Longrightarrow> c_rx c = seg # segs \<Longrightarrow> conn_Read n c =
     (Inr (take n seg), c\<lparr>c_rx := (if length seg \<le> n then segs else drop n seg # segs)\<rparr>)"
  by (auto simp: conn_live_def conn_Read_def)

lemma mk_conn_simps [simp]:
  "conn_live (mk_conn segs)" "c_rx (mk_conn segs) = segs" "c_tx (mk_conn segs) = []"
  "avail (mk_conn segs) = concat segs" "c_closed (mk_conn segs) = False"
  by (simp_all add: mk_conn_def conn_live_def avail_def)

end
