(* ===== verification/Proto_Wire.thy ===== *)
theory Proto_Wire
  imports Go_Conn
begin

text \<open>
  The wire constants of \<open>proto/static.go\<close> and the two functions every exchange of the protocol is
  made of, \<open>sendRequest\<close> and \<open>readMsg\<close> of \<open>proto/conn.go\<close>. A message is a version byte and one more
  byte; what follows it depends on the message.
\<close>

section \<open>Constants\<close>

definition versionV1 :: u8 where "versionV1 = 1"
definition versionV2 :: u8 where "versionV2 = 2"

definition noAuth :: u8 where "noAuth = 0"
definition userPassAuth :: u8 where "userPassAuth = 2"
definition noAcceptableAuthMethod :: u8 where "noAcceptableAuthMethod = 255"

definition cmdRegister :: u8 where "cmdRegister = 1"
definition cmdConnect :: u8 where "cmdConnect = 2"
definition cmdBind :: u8 where "cmdBind = 3"
definition cmdPing :: u8 where "cmdPing = 4"
definition cmdCustomEvent :: u8 where "cmdCustomEvent = 5"
definition cmdMuxInit :: u8 where "cmdMuxInit = 10"
definition cmdMuxReady :: u8 where "cmdMuxReady = 11"

definition resSuccess :: u8 where "resSuccess = 0"
definition resFailure :: u8 where "resFailure = 1"

text \<open>The exported accessors the \<open>revdial\<close> package uses on V2 streams.\<close>

definition VersionV1 :: u8 where "VersionV1 = versionV1"
definition VersionV2 :: u8 where "VersionV2 = versionV2"
definition CmdBind :: u8 where "CmdBind = cmdBind"
definition ResSuccess :: u8 where "ResSuccess = resSuccess"

lemmas wire_consts =
  versionV1_def versionV2_def noAuth_def userPassAuth_def noAcceptableAuthMethod_def
  cmdRegister_def cmdConnect_def cmdBind_def cmdPing_def cmdCustomEvent_def cmdMuxInit_def
  cmdMuxReady_def resSuccess_def resFailure_def VersionV1_def VersionV2_def CmdBind_def
  ResSuccess_def

section \<open>Messages\<close>

definition readMsg :: "conn \<Rightarrow> u8 res \<times> conn" where
  "readMsg c =
     (case io_ReadFull 2 c of
        (Inl e, c) \<Rightarrow> (Inl (Wrap ''failed to read response'' e), c)
      | (Inr buf, c) \<Rightarrow>
          if buf ! 0 \<noteq> versionV1
          then (Inl (Errorf ''unexpected version: %d'' [uint (buf ! 0)]), c)
          else (Inr (buf ! 1), c))"

definition sendRequest :: "bytes \<Rightarrow> conn \<Rightarrow> u8 res \<times> conn" where
  "sendRequest req c =
     (case conn_Write (versionV1 # req) c of
        (Inl e, c) \<Rightarrow> (Inl (Wrap ''failed to write request'' e), c)
      | (Inr _, c) \<Rightarrow> readMsg c)"

section \<open>Behaviour\<close>

lemma readMsg_frame:
  "readMsg c = (r, c') \<Longrightarrow>
     c_tx c' = c_tx c \<and> c_wleft c' = c_wleft c \<and> c_closed c' = c_closed c \<and> c_end c' = c_end c"
  by (auto simp: readMsg_def split: prod.splits sum.splits if_splits dest!: io_ReadFull_frame)

text \<open>The one successful case and the wrong-version case, on any segmentation of the stream.\<close>

lemma readMsg_msg [conn_simps]:
  assumes "\<not> c_closed c" and "avail c = versionV1 # m # rest"
  shows "readMsg c = (Inr m, c\<lparr>c_rx := drop_segs 2 (c_rx c)\<rparr>)"
  using assms by (simp add: readMsg_def conn_simps numeral_2_eq_2)

lemma readMsg_version:
  assumes "\<not> c_closed c" and "avail c = v # m # rest" and "v \<noteq> versionV1"
  shows "readMsg c =
    (Inl (Errorf ''unexpected version: %d'' [uint v]), c\<lparr>c_rx := drop_segs 2 (c_rx c)\<rparr>)"
  using assms by (simp add: readMsg_def conn_simps numeral_2_eq_2)

lemma readMsg_InrD:
  assumes "readMsg c = (Inr m, c')"
  obtains rest where "\<not> c_closed c" "avail c = versionV1 # m # rest"
    "c' = c\<lparr>c_rx := drop_segs 2 (c_rx c)\<rparr>" "avail c' = rest"
proof -
  from assms obtain buf where
    full: "io_ReadFull 2 c = (Inr buf, c')" and buf: "buf ! 0 = versionV1" "buf ! 1 = m"
    by (auto simp: readMsg_def split: prod.splits sum.splits if_splits)
  note D = io_ReadFull_InrD [OF full, simplified]
  from D(2) obtain a b rest where av: "avail c = a # b # rest"
    by (cases "avail c"; cases "tl (avail c)") auto
  with D(3) buf have "avail c = versionV1 # m # rest"
    by (simp add: numeral_2_eq_2)
  moreover have "avail c' = rest"
    using D(4) av by (simp add: avail_def)
  ultimately show thesis
    using that D by blast
qed

lemma readMsg_rx_size: "readMsg c = (Inr m, c') \<Longrightarrow> rx_size c' < rx_size c"
  by (auto simp: readMsg_def split: prod.splits sum.splits if_splits dest: io_ReadFull_rx_size)

lemma readMsg_short:
  assumes "\<not> c_closed c" and "length (avail c) < 2"
  shows "\<exists>c'. readMsg c = (Inl (Wrap ''failed to read response''
    (if avail c \<noteq> [] \<and> c_end c = EOF then ErrUnexpectedEOF else c_end c)), c')"
  using read_loop_short [of c "[]" 2] assms by (auto simp: readMsg_def io_ReadFull_def)

lemma readMsg_closed: "c_closed c \<Longrightarrow>
    readMsg c = (Inl (Wrap ''failed to read response'' ErrClosed), c)"
  by (simp add: readMsg_def conn_simps)

lemma sendRequest_live [conn_simps]:
  assumes "conn_live c" and "avail c = versionV1 # m # rest"
  shows "sendRequest req c =
    (Inr m, c\<lparr>c_tx := c_tx c @ versionV1 # req, c_rx := drop_segs 2 (c_rx c)\<rparr>)"
proof -
  let ?c = "c\<lparr>c_tx := c_tx c @ versionV1 # req\<rparr>"
  have "readMsg ?c = (Inr m, ?c\<lparr>c_rx := drop_segs 2 (c_rx ?c)\<rparr>)"
    using assms by (intro readMsg_msg) auto
  with assms show ?thesis
    by (simp add: sendRequest_def conn_Write_live)
qed

lemma sendRequest_InrD:
  assumes "sendRequest req c = (Inr m, c')"
  obtains rest where "\<not> c_closed c" "avail c = versionV1 # m # rest" "avail c' = rest"
    "c_tx c' = c_tx c @ versionV1 # req"
proof -
  from assms obtain c1 where w: "conn_Write (versionV1 # req) c = (Inr (), c1)"
    and r: "readMsg c1 = (Inr m, c')"
    by (auto simp: sendRequest_def split: prod.splits sum.splits)
  from r obtain rest where "\<not> c_closed c1" "avail c1 = versionV1 # m # rest" "avail c' = rest"
    by (rule readMsg_InrD)
  then show thesis
    using that conn_Write_frame [OF w] conn_Write_avail [OF w] conn_Write_tx [OF w]
      readMsg_frame [OF r] by metis
qed

lemma sendRequest_rx_size: "sendRequest req c = (Inr m, c') \<Longrightarrow> rx_size c' < rx_size c"
  by (auto simp: sendRequest_def split: prod.splits sum.splits dest!: readMsg_rx_size)

text \<open>Whatever happens, a request that got an answer has been written in full, and one that has
  not been written at all leaves no trace.\<close>

lemma sendRequest_tx:
  "sendRequest req c = (r, c') \<Longrightarrow> c_tx c' = c_tx c \<or> c_tx c' = c_tx c @ versionV1 # req"
  by (auto simp: sendRequest_def conn_Write_def
      split: prod.splits sum.splits if_splits option.splits nat.splits dest!: readMsg_frame)

lemma sendRequest_frame:
  "sendRequest req c = (r, c') \<Longrightarrow> c_closed c' = c_closed c \<and> c_end c' = c_end c"
  by (auto simp: sendRequest_def split: prod.splits sum.splits
      dest!: readMsg_frame conn_Write_frame)

end
