(* ===== verification/Proto_Commands.thy ===== *)
theory Proto_Commands
  imports Go_Prelude
begin

text \<open>
  \<open>proto/commands.go\<close>: the commands a client hands to its user, their types and payloads, and the
  check that keeps the names of custom events apart from the names the protocol reserves.

  A payload of type \<open>any\<close> belongs to the caller. Where the code marshals one, the model takes the
  result of \<open>json.Marshal\<close> on it (\<open>bytes res\<close>); where it unmarshals into one, the decoder of the
  destination's type is a parameter.
\<close>

type_synonym CommandType = string

definition ConnectCommandType :: CommandType where "ConnectCommandType = ''connect''"
definition MuxInitCommandType :: CommandType where "MuxInitCommandType = ''mux_init''"
definition MuxReadyCommandType :: CommandType where "MuxReadyCommandType = ''mux_ready''"

record connect_command =
  cc_ID :: uuid

record custom_event =
  ce_Name :: CommandType
  ce_Data :: bytes

datatype command = ConnectCommand connect_command | CustomEventCommand custom_event

record mux_params =
  MaxStreams :: u32
  StreamWindowSize :: u32
  ConnectionWindowSize :: u32

text \<open>\<open>MuxInitCommand\<close> and \<open>MuxReadyCommand\<close> have the same three fields.\<close>

type_synonym MuxInitCommand = mux_params
type_synonym MuxReadyCommand = mux_params

section \<open>Operations\<close>

fun command_Type :: "command \<Rightarrow> CommandType" where
  "command_Type (ConnectCommand c) = ConnectCommandType"
| "command_Type (CustomEventCommand c) = ce_Name c"

text \<open>The argument says whether the destination is a \<open>*uuid.UUID\<close>.\<close>

definition ConnectCommand_ParsePayload :: "connect_command \<Rightarrow> bool \<Rightarrow> uuid res" where
  "ConnectCommand_ParsePayload c is_uuid_ptr =
     (if is_uuid_ptr then Inr (cc_ID c)
      else Inl (Errorf ''failed to parse connect command: expected *uuid.UUID, got %T'' []))"

definition CustomEventCommand_ParsePayload :: "(bytes \<Rightarrow> 'v res) \<Rightarrow> custom_event \<Rightarrow> 'v res" where
  "CustomEventCommand_ParsePayload json_Unmarshal c =
     (case json_Unmarshal (ce_Data c) of
        Inl e \<Rightarrow> Inl (Wrap ''failed to unmarshal custom event data'' e)
      | Inr v \<Rightarrow> Inr v)"

text \<open>The interface call \<open>cmd.ParsePayload(&id)\<close> with a \<open>*uuid.UUID\<close>.\<close>

fun ParsePayload_uuid :: "(bytes \<Rightarrow> uuid res) \<Rightarrow> command \<Rightarrow> uuid res" where
  "ParsePayload_uuid json_Unmarshal (ConnectCommand c) = ConnectCommand_ParsePayload c True"
| "ParsePayload_uuid json_Unmarshal (CustomEventCommand c) =
     CustomEventCommand_ParsePayload json_Unmarshal c"

definition NewCommandType :: "string \<Rightarrow> CommandType res" where
  "NewCommandType name =
     (if name = '''' then Inl (Errorf ''event name cannot be empty'' [])
      else if name \<in> {ConnectCommandType, MuxInitCommandType, MuxReadyCommandType}
      then Inl (Errorf ''event name cannot contain reserved command names'' [])
      else Inr name)"

definition NewCustomEventCommand :: "string \<Rightarrow> bytes res \<Rightarrow> custom_event res" where
  "NewCustomEventCommand name data =
     (case NewCommandType name of
        Inl e \<Rightarrow> Inl (Wrap ''failed to create custom event command'' e)
      | Inr typeName \<Rightarrow>
          (case data of
             Inl e \<Rightarrow> Inl (Wrap ''failed to marshal custom event data'' e)
           | Inr dataBytes \<Rightarrow> Inr \<lparr>ce_Name = typeName, ce_Data = dataBytes\<rparr>))"

section \<open>Reserved names\<close>

definition reserved_names :: "string set" where
  "reserved_names = {'''', ''connect'', ''mux_init'', ''mux_ready''}"

lemma NewCommandType_Inr_iff: "NewCommandType name = Inr t \<longleftrightarrow> t = name \<and> name \<notin> reserved_names"
  by (auto simp: NewCommandType_def reserved_names_def ConnectCommandType_def
      MuxInitCommandType_def MuxReadyCommandType_def)

lemma NewCustomEventCommand_Inr_iff:
  "NewCustomEventCommand name data = Inr e \<longleftrightarrow>
     name \<notin> reserved_names \<and> (\<exists>d. data = Inr d \<and> e = \<lparr>ce_Name = name, ce_Data = d\<rparr>)"
  by (auto simp: NewCustomEventCommand_def NewCommandType_Inr_iff split: sum.splits)
     (auto simp: NewCommandType_def reserved_names_def ConnectCommandType_def
      MuxInitCommandType_def MuxReadyCommandType_def split: if_splits)

text \<open>An event built by the constructor is never mistaken for a connect command.\<close>

lemma custom_event_not_connect:
  "NewCustomEventCommand name data = Inr e \<Longrightarrow>
     command_Type (CustomEventCommand e) \<noteq> ConnectCommandType"
  by (auto simp: NewCustomEventCommand_Inr_iff reserved_names_def ConnectCommandType_def)

end
