(* ===== verification/Proto_Server.thy ===== *)
theory Proto_Server
  imports Proto_Wire Proto_Commands
begin

text \<open>
  \<open>proto/server.go\<close>: the dialer's end of one V1 connection. \<open>Server_Process\<close> runs the handshake
  (authentication, then register or bind); a registered server sends commands to its client. Each
  method holds the server's mutex for its whole body, so a method is one step: a function from the
  server to its result and the server afterwards. The connection is a field of the server.
\<close>

section \<open>State\<close>

datatype server_state =
  StateConnected | StateProcessing | StateRegistered | StateBound | StateDisconnected

fun state_code :: "server_state \<Rightarrow> int" where
  "state_code StateConnected = 0"
| "state_code StateProcessing = 1"
| "state_code StateRegistered = 2"
| "state_code StateBound = 3"
| "state_code StateDisconnected = 4"

lemma state_code_inj: "state_code a = state_code b \<Longrightarrow> a = b"
  by (cases a; cases b) simp_all

text \<open>The states are ordered by their numbers, as \<open>type State int32\<close> orders them.\<close>

instantiation server_state :: linorder
begin

definition less_eq_server_state :: "server_state \<Rightarrow> server_state \<Rightarrow> bool" where
  "less_eq_server_state a b \<longleftrightarrow> state_code a \<le> state_code b"

definition less_server_state :: "server_state \<Rightarrow> server_state \<Rightarrow> bool" where
  "less_server_state a b \<longleftrightarrow> state_code a < state_code b"

instance
  by standard (auto simp: less_eq_server_state_def less_server_state_def state_code_inj)

end

record server =
  s_conn :: conn
  s_userPassAuth :: "(string \<Rightarrow> string \<Rightarrow> bool) option"
  s_state :: server_state
  s_id :: uuid
  s_noAuth :: bool

type_synonym server_option = "server \<Rightarrow> server"

definition ErrUnsupportedAuthMethod :: err where
  "ErrUnsupportedAuthMethod = Sentinel ''unsupported auth method''"

definition WithUserPassAuth :: "(string \<Rightarrow> string \<Rightarrow> bool) option \<Rightarrow> server_option" where
  "WithUserPassAuth auth s = s\<lparr>s_userPassAuth := auth\<rparr>"

definition WithNoAuth :: server_option where
  "WithNoAuth s = s\<lparr>s_noAuth := True\<rparr>"

definition NewServer :: "conn \<Rightarrow> server_option list \<Rightarrow> server" where
  "NewServer c opts =
     (let s = fold (\<lambda>opt s. opt s) opts
        \<lparr>s_conn = c, s_userPassAuth = None, s_state = StateConnected, s_id = uuid_Nil,
         s_noAuth = False\<rparr>
      in if s_userPassAuth s = None then s\<lparr>s_noAuth := True\<rparr> else s)"

text \<open>An operation on the connection, run inside the server.\<close>

definition on_conn :: "(conn \<Rightarrow> 'a \<times> conn) \<Rightarrow> server \<Rightarrow> 'a \<times> server" where
  "on_conn f s = (case f (s_conn s) of (r, c) \<Rightarrow> (r, s\<lparr>s_conn := c\<rparr>))"

definition server_close_conn :: "server \<Rightarrow> server" where
  "server_close_conn s = snd (on_conn conn_Close s)"

definition unexpected_state :: "server \<Rightarrow> err" where
  "unexpected_state s = Errorf ''unexpected state: %d'' [state_code (s_state s)]"

section \<open>The handshake\<close>

definition Server_handleUserPassAuth ::
    "(string \<Rightarrow> string \<Rightarrow> bool) \<Rightarrow> server \<Rightarrow> unit res \<times> server" where
  "Server_handleUserPassAuth auth s =
     (case on_conn (sendRequest [userPassAuth]) s of
        (Inl e, s) \<Rightarrow> (Inl (Wrap ''failed to send user pass auth request'' e), s)
      | (Inr userLen, s) \<Rightarrow>
     (if unat userLen = 0 then (Inl (Errorf ''failed to read username length'' []), s) else
     (case on_conn (conn_Read (unat userLen)) s of
        (Inl e, s) \<Rightarrow> (Inl (Wrap ''failed to read username'' e), s)
      | (Inr got, s) \<Rightarrow>
     (let username = fill_buf (unat userLen) got in
     (case on_conn (conn_Read 1) s of
        (Inl e, s) \<Rightarrow> (Inl (Wrap ''failed to read username length'' e), s)
      | (Inr got, s) \<Rightarrow>
     (let passLen = unat (fill_buf 1 got ! 0) in
     (if passLen = 0 then (Inl (Errorf ''failed to read password length'' []), s) else
     (case on_conn (conn_Read passLen) s of
        (Inl e, s) \<Rightarrow> (Inl (Wrap ''failed to read password'' e), s)
      | (Inr got, s) \<Rightarrow>
     (let password = fill_buf passLen got in
      if auth (string_of_bytes username) (string_of_bytes password)
      then (case on_conn (conn_Write [versionV1, resSuccess]) s of
              (Inl e, s) \<Rightarrow> (Inl (Wrap ''failed to write auth response'' e), s)
            | (Inr _, s) \<Rightarrow> (Inr (), s))
      else (case on_conn (conn_Write [versionV1, resFailure]) s of
              (Inl e, s) \<Rightarrow> (Inl (Wrap ''failed to write auth response'' e), s)
            | (Inr _, s) \<Rightarrow> (Inl (Errorf ''authentication failed'' []), s)))))))))))"

definition Server_handleAuth :: "u8 \<Rightarrow> server \<Rightarrow> unit res \<times> server" where
  "Server_handleAuth method s =
     (if method = noAuth then
        (if \<not> s_noAuth s then (Inl ErrUnsupportedAuthMethod, s)
         else case on_conn (conn_Write [versionV1, noAuth]) s of
             (Inl e, s) \<Rightarrow> (Inl (Wrap ''failed to write auth method response'' e), s)
           | (Inr _, s) \<Rightarrow> (Inr (), s))
      else if method = userPassAuth then
        (case s_userPassAuth s of
           None \<Rightarrow> (Inl ErrUnsupportedAuthMethod, s)
         | Some auth \<Rightarrow> Server_handleUserPassAuth auth s)
      else (Inl ErrUnsupportedAuthMethod, s))"

text \<open>The loop over the offered methods; \<open>None\<close>: every method was skipped as unsupported.\<close>

fun Server_tryMethods :: "u8 list \<Rightarrow> server \<Rightarrow> unit res option \<times> server" where
  "Server_tryMethods [] s = (None, s)"
| "Server_tryMethods (m # ms) s =
     (case Server_handleAuth m s of
        (Inl e, s) \<Rightarrow>
          if errors_is e ErrUnsupportedAuthMethod then Server_tryMethods ms s
          else (Some (Inl (Wrap ''failed to handle auth method'' e)), s)
      | (Inr _, s) \<Rightarrow> (Some (Inr ()), s))"

definition Server_handleInit :: "server \<Rightarrow> unit res \<times> server" where
  "Server_handleInit s =
     (case on_conn readMsg s of
        (Inl e, s) \<Rightarrow> (Inl (Wrap ''failed to read auth methods'' e), s)
      | (Inr msg, s) \<Rightarrow>
     (case on_conn (io_ReadFull (unat msg)) s of
        (Inl e, s) \<Rightarrow> (Inl (Wrap ''failed to read auth methods'' e), s)
      | (Inr methods, s) \<Rightarrow>
     (case Server_tryMethods methods s of
        (Some r, s) \<Rightarrow> (r, s)
      | (None, s) \<Rightarrow>
     (case on_conn (conn_Write [versionV1, noAcceptableAuthMethod]) s of
        (Inl e, s) \<Rightarrow> (Inl (Wrap ''failed to write auth method response'' e), s)
      | (Inr _, s) \<Rightarrow> (Inl (Errorf ''no acceptable auth method'' []), s)))))"

definition Server_handleRegister :: "(bytes \<Rightarrow> uuid res) \<Rightarrow> server \<Rightarrow> unit res \<times> server" where
  "Server_handleRegister from_bytes s =
     (case on_conn (conn_Read 16) s of
        (Inl e, s) \<Rightarrow> (Inl (Wrap ''failed to read register request'' e), s)
      | (Inr got, s) \<Rightarrow>
     (case from_bytes (fill_buf 16 got) of
        Inl e \<Rightarrow> (Inl (Wrap ''failed to parse UUID'' e), s)
      | Inr uid \<Rightarrow>
     (case on_conn (conn_Write [versionV1, resSuccess]) (s\<lparr>s_id := uid\<rparr>) of
        (Inl e, s) \<Rightarrow> (Inl (Wrap ''failed to write register response'' e), s)
      | (Inr _, s) \<Rightarrow>
          if s_state s \<noteq> StateProcessing then (Inl (unexpected_state s), s)
          else (Inr (), s\<lparr>s_state := StateRegistered\<rparr>))))"

definition Server_handleBind :: "(bytes \<Rightarrow> uuid res) \<Rightarrow> server \<Rightarrow> unit res \<times> server" where
  "Server_handleBind from_bytes s =
     (case on_conn (conn_Read 16) s of
        (Inl e, s) \<Rightarrow> (Inl (Wrap ''failed to read bind request'' e), s)
      | (Inr got, s) \<Rightarrow>
     (case from_bytes (fill_buf 16 got) of
        Inl e \<Rightarrow> (Inl (Wrap ''failed to parse UUID'' e), s)
      | Inr uid \<Rightarrow>
     (case on_conn (conn_Write [versionV1, resSuccess]) (s\<lparr>s_id := uid\<rparr>) of
        (Inl e, s) \<Rightarrow> (Inl (Wrap ''failed to write bind response'' e), s)
      | (Inr _, s) \<Rightarrow>
          if s_state s \<noteq> StateProcessing then (Inl (unexpected_state s), s)
          else (Inr (), s\<lparr>s_state := StateBound\<rparr>))))"

definition Server_handleCommand :: "(bytes \<Rightarrow> uuid res) \<Rightarrow> server \<Rightarrow> unit res \<times> server" where
  "Server_handleCommand from_bytes s =
     (case on_conn readMsg s of
        (Inl e, s) \<Rightarrow> (Inl (Wrap ''failed to read command'' e), s)
      | (Inr msg, s) \<Rightarrow>
          if msg = cmdRegister then Server_handleRegister from_bytes s
          else if msg = cmdBind then Server_handleBind from_bytes s
          else (Inl (Errorf ''unsupported command: %d'' [uint msg]), s))"

definition Server_Process :: "(bytes \<Rightarrow> uuid res) \<Rightarrow> server \<Rightarrow> unit res \<times> server" where
  "Server_Process from_bytes s =
     (if s_state s \<noteq> StateConnected then (Inl (unexpected_state s), s)
      else case Server_handleInit (s\<lparr>s_state := StateProcessing\<rparr>) of
        (Inl e, s) \<Rightarrow> (Inl (Wrap ''failed to handle init'' e), server_close_conn s)
      | (Inr _, s) \<Rightarrow>
     (case Server_handleCommand from_bytes s of
        (Inl e, s) \<Rightarrow> (Inl (Wrap ''failed to handle command'' e), server_close_conn s)
      | (Inr _, s) \<Rightarrow> (Inr (), s)))"

section \<open>Commands of a registered server\<close>

definition Server_SendConnectCommand :: "uuid \<Rightarrow> server \<Rightarrow> unit res \<times> server" where
  "Server_SendConnectCommand uid s =
     (if s_state s \<noteq> StateRegistered then (Inl (unexpected_state s), s)
      else case on_conn (sendRequest (cmdConnect # uid)) s of
        (Inl e, s) \<Rightarrow> (Inl (Wrap ''failed to send connect command'' e), s)
      | (Inr resp, s) \<Rightarrow>
          if resp \<noteq> resSuccess then (Inl (Errorf ''failed to connect: %d'' [uint resp]), s)
          else (Inr (), s))"

definition Server_SendPingCommand :: "server \<Rightarrow> unit res \<times> server" where
  "Server_SendPingCommand s =
     (if s_state s \<noteq> StateRegistered then (Inl (unexpected_state s), s)
      else case on_conn (sendRequest [cmdPing]) s of
        (Inl e, s) \<Rightarrow> (Inl (Wrap ''failed to send ping command'' e), s)
      | (Inr resp, s) \<Rightarrow>
          if resp \<noteq> resSuccess then (Inl (Errorf ''failed to ping: %d'' [uint resp]), s)
          else (Inr (), s))"

text \<open>\<open>maxDataLen := int(^uint16(0))\<close>.\<close>

definition maxDataLen :: nat where
  "maxDataLen = unat (NOT 0 :: u16)"

definition Server_SendCustomEvent ::
    "(custom_event \<Rightarrow> bytes res) \<Rightarrow> string \<Rightarrow> bytes res \<Rightarrow> server \<Rightarrow> unit res \<times> server" where
  "Server_SendCustomEvent json_Marshal eventName data s =
     (if s_state s \<noteq> StateRegistered then (Inl (unexpected_state s), s)
      else case NewCustomEventCommand eventName data of
        Inl e \<Rightarrow> (Inl (Wrap ''failed to create custom event command'' e), s)
      | Inr event \<Rightarrow>
     (case json_Marshal event of
        Inl e \<Rightarrow> (Inl (Wrap ''failed to marshal custom event'' e), s)
      | Inr d \<Rightarrow>
     (if maxDataLen < length d
      then (Inl (Errorf ''custom event data exceeds maximum length of %d bytes''
              [int maxDataLen]), s)
      else case on_conn (sendRequest (cmdCustomEvent # PutUint16 (word_of_nat (length d)) @ d)) s of
        (Inl e, s) \<Rightarrow> (Inl (Wrap ''failed to send custom event'' e), s)
      | (Inr resp, s) \<Rightarrow>
          if resp \<noteq> resSuccess then (Inl (Errorf ''failed to emit custom event: %d'' [uint resp]), s)
          else (Inr (), s))))"

definition Server_Close :: "server \<Rightarrow> unit res \<times> server" where
  "Server_Close s = on_conn conn_Close (s\<lparr>s_state := StateDisconnected\<rparr>)"

definition Server_State :: "server \<Rightarrow> server_state" where
  "Server_State s = s_state s"

definition Server_ID :: "server \<Rightarrow> uuid" where
  "Server_ID s = s_id s"

section \<open>What the handlers leave alone\<close>

lemma on_connD:
  "on_conn f s = (r, s') \<Longrightarrow> f (s_conn s) = (r, s_conn s') \<and> s' = s\<lparr>s_conn := s_conn s'\<rparr>"
  by (auto simp: on_conn_def split: prod.splits)

lemma on_conn_eq [conn_simps]:
  "f (s_conn s) = (r, c) \<Longrightarrow> on_conn f s = (r, s\<lparr>s_conn := c\<rparr>)"
  by (simp add: on_conn_def)

lemma s_conn_same [simp]: "s\<lparr>s_conn := s_conn s\<rparr> = s"
  by (cases s) simp

text \<open>Two servers that differ in their connection only.\<close>

definition only_conn :: "server \<Rightarrow> server \<Rightarrow> bool" where
  "only_conn s s' \<longleftrightarrow> s_state s' = s_state s \<and> s_id s' = s_id s \<and> s_noAuth s' = s_noAuth s \<and>
     s_userPassAuth s' = s_userPassAuth s"

lemma on_conn_only_conn: "on_conn f s = (r, s') \<Longrightarrow> only_conn s s'"
  by (auto simp: on_conn_def only_conn_def split: prod.splits)

lemma server_close_conn_simps [simp]:
  "only_conn s (server_close_conn s)" "c_closed (s_conn (server_close_conn s))"
  "s_state (server_close_conn s) = s_state s" "s_id (server_close_conn s) = s_id s"
  by (auto simp: server_close_conn_def on_conn_def only_conn_def conn_Close_def split: prod.splits)

lemma handleUserPassAuth_only_conn:
  "Server_handleUserPassAuth auth s = (r, s') \<Longrightarrow> only_conn s s'"
  unfolding Server_handleUserPassAuth_def Let_def
  by (auto split: prod.splits sum.splits if_splits
      dest!: on_conn_only_conn simp: only_conn_def)

lemma handleAuth_only_conn: "Server_handleAuth m s = (r, s') \<Longrightarrow> only_conn s s'"
  unfolding Server_handleAuth_def
  by (auto split: prod.splits sum.splits if_splits option.splits
      dest!: on_conn_only_conn handleUserPassAuth_only_conn simp: only_conn_def)

lemma tryMethods_only_conn: "Server_tryMethods ms s = (r, s') \<Longrightarrow> only_conn s s'"
proof (induction ms arbitrary: s)
  case (Cons m ms)
  then show ?case
    by (auto split: prod.splits sum.splits if_splits dest!: handleAuth_only_conn
        simp: only_conn_def)
qed (simp add: only_conn_def)

lemma handleInit_only_conn: "Server_handleInit s = (r, s') \<Longrightarrow> only_conn s s'"
  unfolding Server_handleInit_def
  by (auto split: prod.splits sum.splits if_splits option.splits
      dest!: on_conn_only_conn tryMethods_only_conn simp: only_conn_def)

section \<open>Authentication\<close>

lemma handleUserPassAuth_Inr:
  assumes "Server_handleUserPassAuth auth s = (Inr u, s')"
  shows "\<exists>user pass. auth user pass \<and> user \<noteq> [] \<and> pass \<noteq> [] \<and> length user \<le> 255 \<and> length pass \<le> 255"
proof -
  have len: "0 < unat (n :: u8) \<Longrightarrow>
      string_of_bytes (fill_buf (unat n) b) \<noteq> [] \<and>
      length (string_of_bytes (fill_buf (unat n) b)) \<le> 255" for n b
    using unat_u8_le [of n] by (auto simp: string_of_bytes_def simp flip: length_0_conv)
  from assms show ?thesis
    unfolding Server_handleUserPassAuth_def Let_def
    by (auto split: prod.splits sum.splits if_splits intro!: exI dest: len)
qed

lemma tryMethods_Inr:
  "Server_tryMethods ms s = (Some (Inr u), s') \<Longrightarrow>
     \<exists>m \<in> set ms. \<exists>s1. only_conn s s1 \<and> Server_handleAuth m s1 = (Inr (), s')"
proof (induction ms arbitrary: s)
  case (Cons m ms)
  obtain r s1 where h: "Server_handleAuth m s = (r, s1)" by fastforce
  show ?case
  proof (cases r)
    case (Inl e)
    with Cons.prems h have "Server_tryMethods ms s1 = (Some (Inr u), s')"
      by (auto split: if_splits)
    from Cons.IH [OF this] show ?thesis
      using handleAuth_only_conn [OF h] by (fastforce simp: only_conn_def)
  next
    case (Inr v)
    with Cons.prems h show ?thesis
      by (intro bexI [of _ m] exI [of _ s]) (auto simp: only_conn_def)
  qed
qed simp

lemma handleAuth_Inr:
  assumes "Server_handleAuth m s = (Inr u, s')" and "\<not> s_noAuth s"
  shows "\<exists>auth user pass. s_userPassAuth s = Some auth \<and> auth user pass \<and> user \<noteq> [] \<and> pass \<noteq> []"
  using assms handleUserPassAuth_Inr
  by (fastforce simp: Server_handleAuth_def split: if_splits option.splits prod.splits sum.splits)

lemma handleInit_Inr:
  assumes "Server_handleInit s = (Inr u, s')"
  obtains m s1 where "only_conn s s1" "Server_handleAuth m s1 = (Inr (), s')"
proof -
  from assms obtain ms s0 where "only_conn s s0" "Server_tryMethods ms s0 = (Some (Inr u), s')"
    unfolding Server_handleInit_def
    by (auto split: prod.splits sum.splits option.splits dest!: on_conn_only_conn
        simp: only_conn_def)
  with tryMethods_Inr [of ms s0 u s'] that show thesis
    by (fastforce simp: only_conn_def)
qed

section \<open>The outcome of the command\<close>

lemma handleRegister_result:
  assumes "Server_handleRegister fb s = (r, s')" and "s_state s = StateProcessing"
  shows "(r = Inr () \<and> s_state s' = StateRegistered) \<or> ((\<exists>e. r = Inl e) \<and> s_state s' = StateProcessing)"
  using assms unfolding Server_handleRegister_def
  by (auto split: prod.splits sum.splits if_splits dest!: on_conn_only_conn simp: only_conn_def)

lemma handleBind_result:
  assumes "Server_handleBind fb s = (r, s')" and "s_state s = StateProcessing"
  shows "(r = Inr () \<and> s_state s' = StateBound) \<or> ((\<exists>e. r = Inl e) \<and> s_state s' = StateProcessing)"
  using assms unfolding Server_handleBind_def
  by (auto split: prod.splits sum.splits if_splits dest!: on_conn_only_conn simp: only_conn_def)

lemma handleCommand_result:
  assumes "Server_handleCommand fb s = (r, s')" and "s_state s = StateProcessing"
  shows "(r = Inr () \<and> s_state s' \<in> {StateRegistered, StateBound}) \<or>
     ((\<exists>e. r = Inl e) \<and> s_state s' = StateProcessing)"
  using assms unfolding Server_handleCommand_def
  by (auto split: prod.splits sum.splits if_splits dest!: on_conn_only_conn
      simp: only_conn_def dest: handleRegister_result handleBind_result)

lemma Process_outcome:
  "(s_state s \<noteq> StateConnected \<and> Server_Process fb s = (Inl (unexpected_state s), s)) \<or>
   (s_state s = StateConnected \<and>
     (\<exists>s'. Server_Process fb s = (Inr (), s') \<and> s_state s' \<in> {StateRegistered, StateBound})) \<or>
   (s_state s = StateConnected \<and>
     (\<exists>e s'. Server_Process fb s = (Inl e, s') \<and> s_state s' = StateProcessing \<and>
        c_closed (s_conn s')))"
proof (cases "s_state s = StateConnected")
  case True
  obtain r1 s1 where init: "Server_handleInit (s\<lparr>s_state := StateProcessing\<rparr>) = (r1, s1)"
    by fastforce
  then have st1: "s_state s1 = StateProcessing"
    using handleInit_only_conn by (fastforce simp: only_conn_def)
  obtain r2 s2 where cmd: "Server_handleCommand fb s1 = (r2, s2)" by fastforce
  show ?thesis
    using True init st1 cmd handleCommand_result [OF cmd st1]
    by (cases r1; cases r2) (auto simp: Server_Process_def)
qed (simp add: Server_Process_def)

text \<open>C15 \<open>Server_Process_outcome\<close>. The handshake has exactly three outcomes. On a server that is not fresh it
  fails and changes nothing. On a fresh one it either succeeds, and the server is registered or
  bound, or it fails, and then the connection is closed and the server is left in
  \<open>StateProcessing\<close>, from which no command can be sent: a failed handshake never leaves a
  registered or bound server behind.\<close>

theorem Server_Process_outcome:
  "(s_state s \<noteq> StateConnected \<and> Server_Process fb s = (Inl (unexpected_state s), s)) \<or>
   (s_state s = StateConnected \<and>
     (\<exists>s'. Server_Process fb s = (Inr (), s') \<and> s_state s' \<in> {StateRegistered, StateBound})) \<or>
   (s_state s = StateConnected \<and>
     (\<exists>e s'. Server_Process fb s = (Inl e, s') \<and> s_state s' = StateProcessing \<and>
        c_closed (s_conn s')))"
  by (rule Process_outcome)

lemma Process_InrD:
  assumes "Server_Process fb s = (Inr u, s')"
  obtains s1 where "s_state s = StateConnected"
    "Server_handleInit (s\<lparr>s_state := StateProcessing\<rparr>) = (Inr (), s1)"
    "Server_handleCommand fb s1 = (Inr (), s')"
  using assms by (auto simp: Server_Process_def split: if_splits prod.splits sum.splits)


text \<open>The example server and client of the witnesses: one user, one password.\<close>

definition example_auth :: "string \<Rightarrow> string \<Rightarrow> bool" where
  "example_auth user pass \<longleftrightarrow> user = ''u'' \<and> pass = ''p''"

definition example_auth_server :: server where
  "example_auth_server =
     NewServer (mk_conn [[1, 1, 2], [1, 1, 117, 1, 112], [1, 1] @ replicate 16 7])
       [WithUserPassAuth (Some example_auth)]"

lemmas server_defs =
  NewServer_def WithUserPassAuth_def WithNoAuth_def on_conn_def server_close_conn_def
  Server_handleUserPassAuth_def Server_handleAuth_def Server_handleInit_def
  Server_handleRegister_def Server_handleBind_def Server_handleCommand_def Server_Process_def
  ErrUnsupportedAuthMethod_def


section \<open>The anonymous handshake, byte by byte\<close>

lemma on_conn_readMsg [conn_simps]:
  "conn_live (s_conn s) \<Longrightarrow> avail (s_conn s) = versionV1 # m # rest \<Longrightarrow>
     on_conn readMsg s = (Inr m, s\<lparr>s_conn := (s_conn s)\<lparr>c_rx := drop_segs 2 (c_rx (s_conn s))\<rparr>\<rparr>)"
  by (rule on_conn_eq, rule readMsg_msg) auto

lemma tryMethods_noauth:
  assumes "s_userPassAuth s = None" "s_noAuth s" "conn_live (s_conn s)" "noAuth \<in> set ms"
  shows "Server_tryMethods ms s =
    (Some (Inr ()), s\<lparr>s_conn := (s_conn s)\<lparr>c_tx := c_tx (s_conn s) @ [versionV1, noAuth]\<rparr>\<rparr>)"
  using assms(4)
proof (induction ms)
  case (Cons m ms)
  show ?case
  proof (cases "m = noAuth")
    case True
    with assms show ?thesis
      by (simp add: Server_handleAuth_def conn_simps)
  next
    case False
    with assms have "Server_handleAuth m s = (Inl ErrUnsupportedAuthMethod, s)"
      by (simp add: Server_handleAuth_def)
    with Cons False show ?thesis
      by (simp add: ErrUnsupportedAuthMethod_def)
  qed
qed simp

lemma handleInit_noauth:
  assumes "s_userPassAuth s = None" "s_noAuth s" "conn_live (s_conn s)" "noAuth \<in> set ms"
    and "avail (s_conn s) = versionV1 # n # ms @ rest" and "length ms = unat n"
  shows "Server_handleInit s =
    (Inr (), s\<lparr>s_conn := (s_conn s)\<lparr>c_rx := drop_segs (2 + unat n) (c_rx (s_conn s)),
       c_tx := c_tx (s_conn s) @ [versionV1, noAuth]\<rparr>\<rparr>)"
proof -
  let ?c = "(s_conn s)\<lparr>c_rx := drop_segs 2 (c_rx (s_conn s))\<rparr>"
  have av: "avail ?c = ms @ rest"
    using assms(5) by (simp add: avail_def numeral_2_eq_2)
  then have "io_ReadFull (unat n) ?c = (Inr ms, ?c\<lparr>c_rx := drop_segs (unat n) (c_rx ?c)\<rparr>)"
    using assms(3,6) by (subst io_ReadFull_live) auto
  then show ?thesis
    using assms by (simp add: Server_handleInit_def conn_simps tryMethods_noauth)
qed

lemma handleRegister_live:
  assumes "uuid_FromBytes_ok fb" "conn_live (s_conn s)" "c_rx (s_conn s) = seg # segs"
    and "s_state s = StateProcessing"
  shows "Server_handleRegister fb s =
    (Inr (), s\<lparr>s_state := StateRegistered, s_id := fill_buf 16 seg,
       s_conn := (s_conn s)\<lparr>c_rx := (if length seg \<le> 16 then segs else drop 16 seg # segs),
         c_tx := c_tx (s_conn s) @ [versionV1, resSuccess]\<rparr>\<rparr>)"
  using assms by (simp add: Server_handleRegister_def on_conn_def conn_simps)

lemma handleBind_live:
  assumes "uuid_FromBytes_ok fb" "conn_live (s_conn s)" "c_rx (s_conn s) = seg # segs"
    and "s_state s = StateProcessing"
  shows "Server_handleBind fb s =
    (Inr (), s\<lparr>s_state := StateBound, s_id := fill_buf 16 seg,
       s_conn := (s_conn s)\<lparr>c_rx := (if length seg \<le> 16 then segs else drop 16 seg # segs),
         c_tx := c_tx (s_conn s) @ [versionV1, resSuccess]\<rparr>\<rparr>)"
  using assms by (simp add: Server_handleBind_def on_conn_def conn_simps)

lemma Process_noauth:
  assumes "uuid_FromBytes_ok fb"
    and "s_state s = StateConnected" "s_userPassAuth s = None" "s_noAuth s" "conn_live (s_conn s)"
    and "avail (s_conn s) = versionV1 # n # ms @ versionV1 # cmd # rest"
    and "length ms = unat n" "noAuth \<in> set ms" "cmd = cmdRegister \<or> cmd = cmdBind"
    and "drop_segs (4 + unat n) (c_rx (s_conn s)) = seg # segs"
  shows "Server_Process fb s =
    (Inr (), s\<lparr>s_state := (if cmd = cmdRegister then StateRegistered else StateBound),
       s_id := fill_buf 16 seg,
       s_conn := (s_conn s)\<lparr>c_rx := (if length seg \<le> 16 then segs else drop 16 seg # segs),
         c_tx := c_tx (s_conn s) @ [versionV1, noAuth, versionV1, resSuccess]\<rparr>\<rparr>)"
proof -
  let ?c = "(s_conn s)\<lparr>c_rx := drop_segs (2 + unat n) (c_rx (s_conn s)),
       c_tx := c_tx (s_conn s) @ [versionV1, noAuth]\<rparr>"
  let ?s = "s\<lparr>s_state := StateProcessing, s_conn := ?c\<rparr>"
  have init: "Server_handleInit (s\<lparr>s_state := StateProcessing\<rparr>) = (Inr (), ?s)"
    using assms by (subst handleInit_noauth [where ms = ms and rest = "versionV1 # cmd # rest"]) auto
  have av: "avail ?c = versionV1 # cmd # rest"
    using assms(6,7) by (simp add: avail_def)
  let ?c' = "?c\<lparr>c_rx := seg # segs\<rparr>"
  have "drop_segs (Suc (Suc (Suc (Suc (unat n))))) (c_rx (s_conn s)) = seg # segs"
    using assms(10) by (simp add: eval_nat_numeral)
  then have "on_conn readMsg ?s = (Inr cmd, ?s\<lparr>s_conn := ?c'\<rparr>)"
    using av assms(5) by (simp add: conn_simps)
  then have "Server_handleCommand fb ?s =
     (if cmd = cmdRegister then Server_handleRegister fb (?s\<lparr>s_conn := ?c'\<rparr>)
      else Server_handleBind fb (?s\<lparr>s_conn := ?c'\<rparr>))"
    using assms(9) by (auto simp: Server_handleCommand_def)
  also have "\<dots> = (Inr (), s\<lparr>s_state := (if cmd = cmdRegister then StateRegistered else StateBound),
       s_id := fill_buf 16 seg,
       s_conn := (s_conn s)\<lparr>c_rx := (if length seg \<le> 16 then segs else drop 16 seg # segs),
         c_tx := c_tx (s_conn s) @ [versionV1, noAuth, versionV1, resSuccess]\<rparr>\<rparr>)"
    using assms(1,5)
      handleRegister_live [of fb "?s\<lparr>s_conn := ?c'\<rparr>" seg segs]
      handleBind_live [of fb "?s\<lparr>s_conn := ?c'\<rparr>" seg segs]
    by simp
  finally show ?thesis
    using assms(2) init by (simp add: Server_Process_def)
qed

text \<open>The whole anonymous handshake as an equation. The greeting, the offered
  methods and the command header may arrive in any segmentation; the server answers both requests and
  ends registered or bound. The identifier is what one \<open>Read\<close> delivered, padded with the zeros
  of the buffer: the client's 16 bytes exactly when they arrive in one piece.\<close>

theorem Server_Process_noauth:
  assumes "uuid_FromBytes_ok fb"
    and "s_state s = StateConnected" "s_userPassAuth s = None" "s_noAuth s" "conn_live (s_conn s)"
    and "avail (s_conn s) = versionV1 # n # ms @ versionV1 # cmd # rest"
    and "length ms = unat n" "noAuth \<in> set ms" "cmd = cmdRegister \<or> cmd = cmdBind"
    and "drop_segs (4 + unat n) (c_rx (s_conn s)) = seg # segs"
  shows "Server_Process fb s =
    (Inr (), s\<lparr>s_state := (if cmd = cmdRegister then StateRegistered else StateBound),
       s_id := fill_buf 16 seg,
       s_conn := (s_conn s)\<lparr>c_rx := (if length seg \<le> 16 then segs else drop 16 seg # segs),
         c_tx := c_tx (s_conn s) @ [versionV1, noAuth, versionV1, resSuccess]\<rparr>\<rparr>)"
  using assms by (rule Process_noauth)

definition example_noauth_server :: server where
  "example_noauth_server =
     NewServer (mk_conn [[1], [2, 2, 0, 1], [3, 1, 2, 3, 4, 5, 6, 7, 8, 9, 10, 11, 12, 13, 14, 15, 16]]) []"

theorem Server_Process_noauth_witness:
  "s_id (snd (Server_Process from_bytes16 example_noauth_server)) =
     [1, 2, 3, 4, 5, 6, 7, 8, 9, 10, 11, 12, 13, 14, 15, 16] \<and>
   s_state (snd (Server_Process from_bytes16 example_noauth_server)) = StateBound"
  unfolding example_noauth_server_def
  by (subst Server_Process_noauth [where n = 2 and ms = "[2, 0]" and cmd = cmdBind
        and rest = "[1, 2, 3, 4, 5, 6, 7, 8, 9, 10, 11, 12, 13, 14, 15, 16]"
        and seg = "[1, 2, 3, 4, 5, 6, 7, 8, 9, 10, 11, 12, 13, 14, 15, 16]" and segs = "[]"];
      simp add: NewServer_def wire_consts)+

text \<open>C37 \<open>Server_Process_short_read\<close>. The identifier is read with a single \<open>Read\<close>: when the transport
  delivers the 16 bytes in two pieces, the server registers without an error under the first piece
  followed by zeros, and the second piece is taken for the next message.\<close>

theorem Server_Process_short_read:
  assumes "uuid_FromBytes_ok fb" and "length uid = 16" and "0 < k" and "k < 16"
  shows "\<exists>s'. Server_Process fb
      (NewServer (mk_conn [[1, 1, 0], [1, 1], take k uid, drop k uid]) []) = (Inr (), s') \<and>
    s_state s' = StateRegistered \<and> s_id s' = take k uid @ replicate (16 - k) 0 \<and>
    c_rx (s_conn s') = [drop k uid]"
proof -
  let ?s = "NewServer (mk_conn [[1, 1, 0], [1, 1], take k uid, drop k uid]) []"
  have "Server_Process fb ?s = (Inr (), ?s\<lparr>s_state := StateRegistered,
       s_id := fill_buf 16 (take k uid),
       s_conn := (s_conn ?s)\<lparr>c_rx := [drop k uid], c_tx := [1, 0, 1, 0]\<rparr>\<rparr>)"
    using assms
    by (subst Process_noauth [where n = 1 and ms = "[0]" and cmd = cmdRegister
        and rest = uid and seg = "take k uid" and segs = "[drop k uid]"])
       (simp_all add: NewServer_def wire_consts)
  then show ?thesis
    using assms by (simp add: fill_buf_short)
qed

theorem Server_Process_short_read_witness:
  "\<exists>s'. Server_Process from_bytes16
      (NewServer (mk_conn [[1, 1, 0], [1, 1], replicate 4 9, replicate 12 9]) []) = (Inr (), s') \<and>
    s_id s' = replicate 4 9 @ replicate 12 0"
  using Server_Process_short_read [of from_bytes16 "replicate 16 9" 4] by auto

section \<open>Commands on the wire\<close>

text \<open>What the three commands share: the guard, one request, and success only on \<open>resSuccess\<close>.\<close>

lemma on_conn_sendRequest_Inr:
  assumes "on_conn (sendRequest req) s = (Inr m, s')"
  shows "c_tx (s_conn s') = c_tx (s_conn s) @ versionV1 # req \<and>
    (\<exists>rest. avail (s_conn s) = versionV1 # m # rest \<and> avail (s_conn s') = rest)"
proof -
  from on_connD [OF assms] have "sendRequest req (s_conn s) = (Inr m, s_conn s')"
    by simp
  then obtain rest where "avail (s_conn s) = versionV1 # m # rest" "avail (s_conn s') = rest"
    "c_tx (s_conn s') = c_tx (s_conn s) @ versionV1 # req"
    by (rule sendRequest_InrD)
  then show ?thesis by blast
qed

lemma on_conn_sendRequest_live [conn_simps]:
  "conn_live (s_conn s) \<Longrightarrow> avail (s_conn s) = versionV1 # m # rest \<Longrightarrow>
     on_conn (sendRequest req) s = (Inr m, s\<lparr>s_conn := (s_conn s)\<lparr>
       c_tx := c_tx (s_conn s) @ versionV1 # req, c_rx := drop_segs 2 (c_rx (s_conn s))\<rparr>\<rparr>)"
  by (simp add: conn_simps)

text \<open>When \<open>SendConnectCommand\<close> returns without an error, the server was
  registered, it has put exactly the version, the connect command and the request's identifier on the
  wire, it has consumed the client's two-byte success answer and nothing else of the server changed.\<close>

theorem Server_SendConnectCommand_sent:
  assumes "Server_SendConnectCommand uid s = (Inr (), s')"
  shows "s_state s = StateRegistered \<and> only_conn s s' \<and>
    c_tx (s_conn s') = c_tx (s_conn s) @ [versionV1, cmdConnect] @ uid \<and>
    avail (s_conn s) = [versionV1, resSuccess] @ avail (s_conn s')"
proof -
  from assms have st: "s_state s = StateRegistered"
    and rq: "on_conn (sendRequest (cmdConnect # uid)) s = (Inr resSuccess, s')"
    by (auto simp: Server_SendConnectCommand_def split: if_splits prod.splits sum.splits)
  show ?thesis
    using st on_conn_only_conn [OF rq] on_conn_sendRequest_Inr [OF rq] by auto
qed

theorem Server_SendConnectCommand_sent_witness:
  "let s = (NewServer (mk_conn [[1, 0]]) [])\<lparr>s_state := StateRegistered\<rparr>;
       s' = snd (Server_SendConnectCommand [7] s)
   in Server_SendConnectCommand [7] s = (Inr (), s') \<and> c_tx (s_conn s') = [1, 2, 7]"
proof -
  let ?s = "(NewServer (mk_conn [[1, 0]]) [])\<lparr>s_state := StateRegistered\<rparr>"
  have run: "Server_SendConnectCommand [7] ?s = (Inr (), snd (Server_SendConnectCommand [7] ?s))"
    by (simp add: Server_SendConnectCommand_def NewServer_def conn_simps wire_consts)
  show ?thesis
    using Server_SendConnectCommand_sent [OF run] run by (simp add: NewServer_def wire_consts Let_def)
qed

lemma maxDataLen_eq [simp]: "maxDataLen = 65535"
  by (simp add: maxDataLen_def unsigned_minus_1_eq_mask mask_eq_exp_minus_1)

lemma send_guards:
  assumes "s_state s \<noteq> StateRegistered"
  shows "Server_SendConnectCommand uid s = (Inl (unexpected_state s), s)"
    and "Server_SendPingCommand s = (Inl (unexpected_state s), s)"
    and "Server_SendCustomEvent jm name data s = (Inl (unexpected_state s), s)"
  using assms
  by (simp_all add: Server_SendConnectCommand_def Server_SendPingCommand_def
      Server_SendCustomEvent_def)

lemma send_only_conn:
  "Server_SendConnectCommand uid s = (r, s') \<Longrightarrow> only_conn s s'"
  "Server_SendPingCommand s = (r, s') \<Longrightarrow> only_conn s s'"
  "Server_SendCustomEvent jm name data s = (r, s') \<Longrightarrow> only_conn s s'"
  by (auto simp: Server_SendConnectCommand_def Server_SendPingCommand_def
      Server_SendCustomEvent_def split: if_splits prod.splits sum.splits
      dest!: on_conn_only_conn) (simp_all add: only_conn_def)

text \<open>A custom event is sent as the version, the command, a two-byte length
  and the marshalled event. The length field always says how many bytes follow, because an event of
  more than 65535 bytes is refused, as are reserved names and marshalling errors, before anything
  is written: then the server, and with it the wire, is unchanged.\<close>

theorem Server_SendCustomEvent_frame:
  assumes "s_state s = StateRegistered"
  shows
    "(\<exists>event d. NewCustomEventCommand name data = Inr event \<and> json_Marshal event = Inr d \<and>
        unat (Uint16 (PutUint16 (word_of_nat (length d)))) = length d \<and>
        fst (Server_SendCustomEvent json_Marshal name data s) =
          (case on_conn (sendRequest (cmdCustomEvent # PutUint16 (word_of_nat (length d)) @ d)) s of
             (Inl e, _) \<Rightarrow> Inl (Wrap ''failed to send custom event'' e)
           | (Inr resp, _) \<Rightarrow> if resp = resSuccess then Inr ()
               else Inl (Errorf ''failed to emit custom event: %d'' [uint resp])) \<and>
        snd (Server_SendCustomEvent json_Marshal name data s) =
          snd (on_conn (sendRequest (cmdCustomEvent # PutUint16 (word_of_nat (length d)) @ d)) s)) \<or>
     ((\<exists>e. NewCustomEventCommand name data = Inl e) \<or>
      (\<exists>event. NewCustomEventCommand name data = Inr event \<and>
         ((\<exists>e. json_Marshal event = Inl e) \<or> (\<exists>d. json_Marshal event = Inr d \<and> 65535 < length d)))) \<and>
     (\<exists>e. Server_SendCustomEvent json_Marshal name data s = (Inl e, s))"
  using assms
  by (auto simp: Server_SendCustomEvent_def split: sum.splits prod.splits)

theorem Server_SendCustomEvent_frame_witness:
  "let s = (NewServer (mk_conn [[1, 0]]) [])\<lparr>s_state := StateRegistered\<rparr>
   in s_state s = StateRegistered \<and>
      (\<exists>e. Server_SendCustomEvent (\<lambda>_. Inr []) ''connect'' (Inr []) s = (Inl e, s))"
proof -
  let ?s = "(NewServer (mk_conn [[1, 0]]) [])\<lparr>s_state := StateRegistered\<rparr>"
  have "NewCustomEventCommand ''connect'' (Inr []) \<noteq> Inr ev" for ev
    by (simp add: NewCustomEventCommand_Inr_iff reserved_names_def)
  then show ?thesis
    using Server_SendCustomEvent_frame [of ?s "''connect''" "Inr []" "\<lambda>_. Inr []"] by simp
qed

section \<open>The life of a server\<close>

text \<open>Any sequence of method calls, with any arguments.\<close>

inductive server_step :: "(bytes \<Rightarrow> uuid res) \<Rightarrow> (custom_event \<Rightarrow> bytes res) \<Rightarrow> server \<Rightarrow> server \<Rightarrow> bool"
  for fb jm where
  process: "Server_Process fb s = (r, s') \<Longrightarrow> server_step fb jm s s'"
| connect: "Server_SendConnectCommand uid s = (r, s') \<Longrightarrow> server_step fb jm s s'"
| ping: "Server_SendPingCommand s = (r, s') \<Longrightarrow> server_step fb jm s s'"
| event: "Server_SendCustomEvent jm name data s = (r, s') \<Longrightarrow> server_step fb jm s s'"
| close: "Server_Close s = (r, s') \<Longrightarrow> server_step fb jm s s'"

lemma server_state_le [simp]:
  "a \<le> StateDisconnected" "StateConnected \<le> a" "StateProcessing \<le> StateRegistered"
  "StateProcessing \<le> StateBound" "\<not> StateRegistered \<le> StateConnected"
  by (cases a; simp add: less_eq_server_state_def)+

lemma server_step_inv:
  assumes "server_step fb jm s t"
  shows "s_state s \<le> s_state t \<and> (StateRegistered \<le> s_state s \<longrightarrow> s_id t = s_id s) \<and>
    (s_state s = StateDisconnected \<longrightarrow> c_tx (s_conn t) = c_tx (s_conn s))"
  using assms
proof cases
  case (process r)
  with Process_outcome [of s fb] show ?thesis by auto
next
  case close
  then show ?thesis by (auto simp: Server_Close_def on_conn_def conn_Close_def split: if_splits)
qed (auto dest: send_only_conn simp: only_conn_def send_guards)

text \<open>C27 \<open>Server_lifecycle\<close>. Along any sequence of calls the state only moves forward in the order of its
  numbers, the identifier never changes once the server is registered or bound, and a disconnected
  server never writes again.\<close>

theorem Server_lifecycle:
  assumes "(server_step fb jm)\<^sup>*\<^sup>* s t"
  shows "s_state s \<le> s_state t \<and> (StateRegistered \<le> s_state s \<longrightarrow> s_id t = s_id s) \<and>
    (s_state s = StateDisconnected \<longrightarrow> c_tx (s_conn t) = c_tx (s_conn s))"
  using assms
proof (induction rule: rtranclp_induct)
  case (step t u)
  from server_step_inv [OF step.hyps(2)] step.IH show ?case
    by (auto intro: order_trans dest: order_antisym)
qed simp

theorem Server_lifecycle_witness:
  "let s = snd (Server_Process from_bytes16 example_noauth_server); t = snd (Server_Close s)
   in s_state s = StateBound \<and> s_state t = StateDisconnected \<and> s_id t = s_id s"
proof -
  let ?s = "snd (Server_Process from_bytes16 example_noauth_server)"
  have st: "s_state ?s = StateBound"
    by code_simp
  have "(server_step from_bytes16 (\<lambda>_. Inr []))\<^sup>*\<^sup>* ?s (snd (Server_Close ?s))"
    by (rule r_into_rtranclp) (rule server_step.close, rule prod.collapse [symmetric])
  from Server_lifecycle [OF this] st show ?thesis
    by (simp add: Let_def less_eq_server_state_def Server_Close_def on_conn_def split: prod.splits)
qed

end
