(* ===== verification/Proto_Client.thy ===== *)
theory Proto_Client
  imports Proto_Wire Proto_Commands
begin

text \<open>
  \<open>proto/client.go\<close>: the listener's end of one V1 connection. \<open>Register\<close> and \<open>Bind\<close> run the client's
  half of the handshake; after \<open>Register\<close> a goroutine reads commands from the server
  (\<open>Client_serve\<close>) and hands them to the user over a channel.

  \<open>cl_cmds\<close> is the sequence of all commands sent on that channel and \<open>cl_cmds_closed\<close> whether it has
  been closed. A context is represented by the outcomes of the selects that watch it:
  \<open>True\<close> at the head of \<open>cl_sched\<close> means that the next \<open>select\<close> takes the branch of \<open>ctx.Done()\<close>, and
  from then on every one does; an empty list means that the context stays alive.
  \<open>cl_cancel\<close> says that the field \<open>cancel\<close> is set, \<open>cl_cancelled\<close> that it has been called. Calling it
  wakes the goroutine that closes the connection, and the model closes it at once.
\<close>

section \<open>State\<close>

datatype client_state =
  client_connected | client_processing | client_registered | client_bound | client_disconnected

fun client_state_code :: "client_state \<Rightarrow> int" where
  "client_state_code client_connected = 0"
| "client_state_code client_processing = 1"
| "client_state_code client_registered = 2"
| "client_state_code client_bound = 3"
| "client_state_code client_disconnected = 4"

record client =
  cl_conn :: conn
  cl_cancel :: bool
  cl_cancelled :: bool
  cl_sched :: "bool list"
  cl_cmds :: "command list"
  cl_cmds_closed :: bool
  cl_token :: bytes
  cl_authMode :: u8
  cl_state :: client_state
  cl_disableV2 :: bool

type_synonym client_option = "client \<Rightarrow> client outcome"

fun apply_client_opts :: "client_option list \<Rightarrow> client \<Rightarrow> client outcome" where
  "apply_client_opts [] c = Return c"
| "apply_client_opts (opt # opts) c =
     (case opt c of Panic m \<Rightarrow> Panic m | Return c \<Rightarrow> apply_client_opts opts c)"

definition NewClient :: "conn \<Rightarrow> client_option list \<Rightarrow> client outcome" where
  "NewClient conn opts = apply_client_opts opts
     \<lparr>cl_conn = conn, cl_cancel = False, cl_cancelled = False, cl_sched = [], cl_cmds = [],
      cl_cmds_closed = False, cl_token = [], cl_authMode = noAuth, cl_state = client_connected,
      cl_disableV2 = False\<rparr>"

definition user_pass_token :: "string \<Rightarrow> string \<Rightarrow> bytes" where
  "user_pass_token username password =
     [word_of_nat (length username)] @ bytes_of_string username @
     [word_of_nat (length password)] @ bytes_of_string password"

definition WithUserPass :: "string \<Rightarrow> string \<Rightarrow> client_option res" where
  "WithUserPass username password =
     (if 255 < length username \<or> 255 < length password
      then Inl (Errorf ''username or password is too long'' [])
      else Inr (\<lambda>c. if cl_authMode c \<noteq> noAuth then Panic ''auth mode already set''
        else Return (c\<lparr>cl_authMode := userPassAuth, cl_token := user_pass_token username password\<rparr>)))"

definition WithDisableV2Fallback :: client_option where
  "WithDisableV2Fallback c = Return (c\<lparr>cl_disableV2 := True\<rparr>)"

definition cl_io :: "(conn \<Rightarrow> 'a \<times> conn) \<Rightarrow> client \<Rightarrow> 'a \<times> client" where
  "cl_io f c = (case f (cl_conn c) of (r, cn) \<Rightarrow> (r, c\<lparr>cl_conn := cn\<rparr>))"

definition client_cancel :: "client \<Rightarrow> client" where
  "client_cancel c = c\<lparr>cl_cancelled := True, cl_conn := snd (conn_Close (cl_conn c))\<rparr>"

definition ctx_done :: "client \<Rightarrow> bool \<times> client" where
  "ctx_done c =
     (case cl_sched c of
        [] \<Rightarrow> (False, c)
      | True # _ \<Rightarrow> (True, c)
      | False # sched \<Rightarrow> (False, c\<lparr>cl_sched := sched\<rparr>))"

section \<open>The handshake\<close>

definition Client_handleAuth :: "u8 \<Rightarrow> client \<Rightarrow> unit res \<times> client" where
  "Client_handleAuth method c =
     (if method = noAuth then
        (if cl_authMode c \<noteq> noAuth
         then (Inl (Errorf ''server replied with different auth method'' []), c)
         else (Inr (), c))
      else if method = userPassAuth then
        (if cl_authMode c \<noteq> userPassAuth
         then (Inl (Errorf ''server replied with different auth method'' []), c)
         else case cl_io (sendRequest (cl_token c)) c of
             (Inl e, c) \<Rightarrow> (Inl (Wrap ''failed to send auth token'' e), c)
           | (Inr resp, c) \<Rightarrow>
               if resp \<noteq> resSuccess then (Inl (Errorf ''failed to authenticate %d'' [uint resp]), c)
               else (Inr (), c))
      else if method = noAcceptableAuthMethod
      then (Inl (Errorf ''no acceptable auth method'' []), c)
      else (Inl (Errorf ''unsupported auth method: %d'' [uint method]), c))"

definition Client_establish :: "client \<Rightarrow> unit res \<times> client" where
  "Client_establish c =
     (let methods = [cl_authMode c] in
      case cl_io (sendRequest (word_of_nat (length methods) # methods)) c of
        (Inl e, c) \<Rightarrow> (Inl (Wrap ''failed to establish connection'' e), c)
      | (Inr resp, c) \<Rightarrow> Client_handleAuth resp c)"

definition Client_handleRegister :: "uuid \<Rightarrow> client \<Rightarrow> unit res \<times> client" where
  "Client_handleRegister uid c =
     (case cl_io (sendRequest (cmdRegister # uid)) c of
        (Inl e, c) \<Rightarrow> (Inl (Wrap ''failed to register'' e), c)
      | (Inr resp, c) \<Rightarrow>
          if resp = resSuccess then (Inr (), c)
          else if resp = resFailure then (Inl (Errorf ''failed to register'' []), c)
          else (Inl (Errorf ''unexpected result: %d'' [uint resp]), c))"

definition Client_handleBind :: "uuid \<Rightarrow> client \<Rightarrow> unit res \<times> client" where
  "Client_handleBind uid c =
     (case cl_io (sendRequest (cmdBind # uid)) c of
        (Inl e, c) \<Rightarrow> (Inl (Wrap ''failed to bind'' e), c)
      | (Inr resp, c) \<Rightarrow>
          if resp \<noteq> resSuccess then (Inl (Errorf ''failed to bind'' []), c) else (Inr (), c))"

definition client_unexpected_state :: "client \<Rightarrow> err" where
  "client_unexpected_state c = Errorf ''unexpected state: %d'' [client_state_code (cl_state c)]"

text \<open>\<open>Register\<close> up to its return; the goroutine it then starts is \<open>Client_serve\<close>.\<close>

definition Client_Register :: "bool list \<Rightarrow> uuid \<Rightarrow> client \<Rightarrow> unit res \<times> client" where
  "Client_Register ctx uid c =
     (if cl_state c \<noteq> client_connected then (Inl (client_unexpected_state c), c)
      else
        let c = c\<lparr>cl_state := client_processing, cl_cancel := True, cl_sched := ctx\<rparr> in
        case Client_establish c of
          (Inl e, c) \<Rightarrow> (Inl (Wrap ''failed to init client'' e), client_cancel c)
        | (Inr _, c) \<Rightarrow>
        (case Client_handleRegister uid c of
          (Inl e, c) \<Rightarrow> (Inl (Wrap ''failed to handle register'' e), client_cancel c)
        | (Inr _, c) \<Rightarrow> (Inr (), c\<lparr>cl_state := client_registered\<rparr>)))"

definition Client_Bind :: "bool list \<Rightarrow> uuid \<Rightarrow> client \<Rightarrow> unit res \<times> client" where
  "Client_Bind ctx uid c =
     (if cl_state c \<noteq> client_connected then (Inl (client_unexpected_state c), c)
      else
        let c = c\<lparr>cl_state := client_processing, cl_cancel := True, cl_sched := ctx\<rparr> in
        case Client_establish c of
          (Inl e, c) \<Rightarrow> (Inl (Wrap ''failed to init client'' e), c)
        | (Inr _, c) \<Rightarrow>
        (case Client_handleBind uid c of
          (Inl e, c) \<Rightarrow> (Inl (Wrap ''failed to handle bind'' e), c)
        | (Inr _, c) \<Rightarrow> (Inr (), c\<lparr>cl_state := client_bound\<rparr>)))"

text \<open>
  \<open>cancel()\<close> wakes the goroutine that closes the connection while \<open>Close\<close> itself closes it:
  \<open>watcher_first\<close> says which of the two comes first, and with it whose \<open>Close\<close> reports that the
  connection is closed already.
\<close>

definition Client_Close :: "bool \<Rightarrow> client \<Rightarrow> unit res \<times> client" where
  "Client_Close watcher_first c =
     (if cl_state c = client_disconnected then (Inr (), c)
      else if \<not> cl_cancel c then (Inr (), c)
      else
        let c = c\<lparr>cl_cancelled := True, cl_state := client_disconnected\<rparr>;
            c = (if watcher_first then snd (cl_io conn_Close c) else c)
        in cl_io conn_Close c)"

section \<open>Commands from the server\<close>

text \<open>The tail shared by the two commands that reach the user: the select, then the answer.\<close>

definition Client_deliver :: "string \<Rightarrow> command \<Rightarrow> client \<Rightarrow> unit res \<times> client" where
  "Client_deliver msg cmd c =
     (case ctx_done c of
        (True, c) \<Rightarrow> (Inr (), c)
      | (False, c) \<Rightarrow>
     (case cl_io (conn_Write [versionV1, resSuccess]) (c\<lparr>cl_cmds := cl_cmds c @ [cmd]\<rparr>) of
        (Inl e, c) \<Rightarrow> (Inl (Wrap msg e), c)
      | (Inr _, c) \<Rightarrow> (Inr (), c)))"

definition Client_handleConnect :: "(bytes \<Rightarrow> uuid res) \<Rightarrow> client \<Rightarrow> unit res \<times> client" where
  "Client_handleConnect from_bytes c =
     (case cl_io (conn_Read 16) c of
        (Inl e, c) \<Rightarrow> (Inl (Wrap ''failed to read connect request'' e), c)
      | (Inr got, c) \<Rightarrow>
     (case from_bytes (fill_buf 16 got) of
        Inl e \<Rightarrow> (Inl (Wrap ''failed to parse UUID'' e), c)
      | Inr uid \<Rightarrow> Client_deliver ''failed to write connect response'' (ConnectCommand \<lparr>cc_ID = uid\<rparr>) c))"

definition Client_handlePing :: "client \<Rightarrow> unit res \<times> client" where
  "Client_handlePing c =
     (case cl_io (conn_Write [versionV1, resSuccess]) c of
        (Inl e, c) \<Rightarrow> (Inl (Wrap ''failed to write ping response'' e), c)
      | (Inr _, c) \<Rightarrow> (Inr (), c))"

definition Client_handleCustomEvent ::
    "(bytes \<Rightarrow> custom_event res) \<Rightarrow> client \<Rightarrow> unit res \<times> client" where
  "Client_handleCustomEvent json_Unmarshal c =
     (case cl_io (io_ReadFull 2) c of
        (Inl e, c) \<Rightarrow> (Inl (Wrap ''failed to read custom event length'' e), c)
      | (Inr lenBuf, c) \<Rightarrow>
     (case cl_io (io_ReadFull (unat (Uint16 lenBuf))) c of
        (Inl e, c) \<Rightarrow> (Inl (Wrap ''failed to read custom event'' e), c)
      | (Inr data, c) \<Rightarrow>
     (case json_Unmarshal data of
        Inl e \<Rightarrow> (Inl (Wrap ''failed to read custom event'' e), c)
      | Inr cmd \<Rightarrow> Client_deliver ''failed to write custom event response'' (CustomEventCommand cmd) c)))"

definition Client_handleCommand ::
    "(bytes \<Rightarrow> uuid res) \<Rightarrow> (bytes \<Rightarrow> custom_event res) \<Rightarrow> client \<Rightarrow> unit res \<times> client" where
  "Client_handleCommand from_bytes json_Unmarshal c =
     (case cl_io readMsg c of
        (Inl e, c) \<Rightarrow> (Inl (Wrap ''failed to read command'' e), c)
      | (Inr msg, c) \<Rightarrow>
          if msg = cmdConnect then Client_handleConnect from_bytes c
          else if msg = cmdPing then Client_handlePing c
          else if msg = cmdCustomEvent then Client_handleCustomEvent json_Unmarshal c
          else (Inl (Errorf ''unsupported command: %d'' [uint msg]), c))"

section \<open>The command loop ends\<close>

lemma cl_io_conn: "cl_io f c = (r, c') \<Longrightarrow> f (cl_conn c) = (r, cl_conn c')"
  by (auto simp: cl_io_def split: prod.splits)

lemma cl_io_eq [conn_simps]: "f (cl_conn c) = (r, cn) \<Longrightarrow> cl_io f c = (r, c\<lparr>cl_conn := cn\<rparr>)"
  by (simp add: cl_io_def)

lemma ctx_done_conn: "ctx_done c = (b, c') \<Longrightarrow> cl_conn c' = cl_conn c"
  by (auto simp: ctx_done_def split: list.splits bool.splits)

lemma deliver_rx_size: "Client_deliver msg cmd c = (r, c') \<Longrightarrow> rx_size (cl_conn c') = rx_size (cl_conn c)"
  by (auto simp: Client_deliver_def split: prod.splits bool.splits sum.splits
      dest!: cl_io_conn ctx_done_conn)

lemma handleConnect_rx_size:
  "Client_handleConnect fb c = (r, c') \<Longrightarrow> rx_size (cl_conn c') \<le> rx_size (cl_conn c)"
  by (auto simp: Client_handleConnect_def split: prod.splits sum.splits
      dest!: cl_io_conn conn_Read_rx_size_le deliver_rx_size)

lemma handlePing_rx_size:
  "Client_handlePing c = (r, c') \<Longrightarrow> rx_size (cl_conn c') = rx_size (cl_conn c)"
  by (auto simp: Client_handlePing_def split: prod.splits sum.splits dest!: cl_io_conn)

lemma io_ReadFull_rx_size_le:
  "io_ReadFull n c = (Inr bs, c') \<Longrightarrow> rx_size c' \<le> rx_size c"
  by (cases "n = 0")
     (auto simp: io_ReadFull_def read_loop.simps [of 0 "[]" c] dest: io_ReadFull_rx_size
       [unfolded io_ReadFull_def])

lemma handleCustomEvent_rx_size:
  "Client_handleCustomEvent ju c = (Inr u, c') \<Longrightarrow> rx_size (cl_conn c') \<le> rx_size (cl_conn c)"
  by (auto simp: Client_handleCustomEvent_def split: prod.splits sum.splits
      dest!: cl_io_conn io_ReadFull_rx_size_le deliver_rx_size)

lemma handleCommand_rx_size:
  "Client_handleCommand fb ju c = (Inr u, c') \<Longrightarrow> rx_size (cl_conn c') < rx_size (cl_conn c)"
  by (auto simp: Client_handleCommand_def split: prod.splits sum.splits if_splits
      dest!: cl_io_conn readMsg_rx_size handleConnect_rx_size handlePing_rx_size
        handleCustomEvent_rx_size)

text \<open>
  The goroutine of \<open>Register\<close>: it serves commands until the context is done (no error) or a
  command fails. Every command that succeeds has consumed input, so on any finite input it ends.
\<close>

function Client_serve_loop ::
    "(bytes \<Rightarrow> uuid res) \<Rightarrow> (bytes \<Rightarrow> custom_event res) \<Rightarrow> client \<Rightarrow> err option \<times> client" where
  "Client_serve_loop fb ju c =
     (case ctx_done c of
        (True, c) \<Rightarrow> (None, c)
      | (False, c) \<Rightarrow>
     (case Client_handleCommand fb ju c of
        (Inl e, c) \<Rightarrow> (Some e, c)
      | (Inr _, c) \<Rightarrow> Client_serve_loop fb ju c))"
  by pat_completeness auto
termination
  by (relation "measure (\<lambda>(fb, ju, c). rx_size (cl_conn c))")
     (auto dest!: handleCommand_rx_size [OF sym] ctx_done_conn [OF sym])

declare Client_serve_loop.simps [simp del]

text \<open>With the deferred calls: the channel is closed, then the context cancelled.\<close>

definition Client_serve ::
    "(bytes \<Rightarrow> uuid res) \<Rightarrow> (bytes \<Rightarrow> custom_event res) \<Rightarrow> client \<Rightarrow> client" where
  "Client_serve fb ju c = client_cancel ((snd (Client_serve_loop fb ju c))\<lparr>cl_cmds_closed := True\<rparr>)"

section \<open>Serving commands\<close>

text \<open>The requests a registered server sends: \<open>FEvent\<close> carries the marshalled event.\<close>

datatype frame = FConnect uuid | FPing | FEvent bytes

fun encode_frame :: "frame \<Rightarrow> bytes" where
  "encode_frame (FConnect uid) = [versionV1, cmdConnect] @ uid"
| "encode_frame FPing = [versionV1, cmdPing]"
| "encode_frame (FEvent d) = [versionV1, cmdCustomEvent] @ PutUint16 (word_of_nat (length d)) @ d"

fun frame_ok :: "(bytes \<Rightarrow> custom_event res) \<Rightarrow> frame \<Rightarrow> bool" where
  "frame_ok ju (FConnect uid) = (length uid = 16)"
| "frame_ok ju FPing = True"
| "frame_ok ju (FEvent d) = (length d \<le> 65535 \<and> (\<exists>ev. ju d = Inr ev))"

fun frame_cmds :: "(bytes \<Rightarrow> custom_event res) \<Rightarrow> frame \<Rightarrow> command list" where
  "frame_cmds ju (FConnect uid) = [ConnectCommand \<lparr>cc_ID = uid\<rparr>]"
| "frame_cmds ju FPing = []"
| "frame_cmds ju (FEvent d) = (case ju d of Inr ev \<Rightarrow> [CustomEventCommand ev] | Inl _ \<Rightarrow> [])"

lemma cl_io_live [conn_simps]:
  "conn_live (cl_conn c) \<Longrightarrow> cl_io (conn_Write bs) c =
     (Inr (), c\<lparr>cl_conn := (cl_conn c)\<lparr>c_tx := c_tx (cl_conn c) @ bs\<rparr>\<rparr>)"
  "conn_live (cl_conn c) \<Longrightarrow> avail (cl_conn c) = versionV1 # m # rest \<Longrightarrow> cl_io readMsg c =
     (Inr m, c\<lparr>cl_conn := (cl_conn c)\<lparr>c_rx := drop_segs 2 (c_rx (cl_conn c))\<rparr>\<rparr>)"
  "conn_live (cl_conn c) \<Longrightarrow> n \<le> length (avail (cl_conn c)) \<Longrightarrow> cl_io (io_ReadFull n) c =
     (Inr (take n (avail (cl_conn c))), c\<lparr>cl_conn := (cl_conn c)\<lparr>c_rx := drop_segs n (c_rx (cl_conn c))\<rparr>\<rparr>)"
  "conn_live (cl_conn c) \<Longrightarrow> avail (cl_conn c) = versionV1 # m # rest \<Longrightarrow> cl_io (sendRequest req) c =
     (Inr m, c\<lparr>cl_conn := (cl_conn c)\<lparr>
       c_tx := c_tx (cl_conn c) @ versionV1 # req, c_rx := drop_segs 2 (c_rx (cl_conn c))\<rparr>\<rparr>)"
  by (simp_all add: conn_simps conn_liveD)

text \<open>One request that arrives in one piece: the command, if any, is delivered, and answered.\<close>

lemma handleCommand_frame:
  assumes "uuid_FromBytes_ok fb" "frame_ok ju f" "conn_live (cl_conn c)"
    and "c_rx (cl_conn c) = encode_frame f # segs" "cl_sched c = []"
  shows "Client_handleCommand fb ju c =
    (Inr (), c\<lparr>cl_cmds := cl_cmds c @ frame_cmds ju f,
       cl_conn := (cl_conn c)\<lparr>c_rx := segs, c_tx := c_tx (cl_conn c) @ [versionV1, resSuccess]\<rparr>\<rparr>)"
proof (cases f)
  case (FConnect uid)
  moreover from this assms(2) obtain a b where "uid = a # b"
    by (cases uid) auto
  ultimately show ?thesis
    using assms
    by (simp add: Client_handleCommand_def Client_handleConnect_def conn_simps avail_def
        Client_deliver_def ctx_done_def wire_consts)
next
  case FPing
  with assms show ?thesis
    by (simp add: Client_handleCommand_def Client_handlePing_def conn_simps avail_def wire_consts)
next
  case (FEvent d)
  let ?n = "word_of_nat (length d) :: u16"
  from FEvent assms(2) obtain ev where ev: "ju d = Inr ev" and len: "unat ?n = length d"
    by auto
  let ?c = "c\<lparr>cl_conn := (cl_conn c)\<lparr>c_rx := (PutUint16 ?n @ d) # segs\<rparr>\<rparr>"
  have msg: "cl_io readMsg c = (Inr cmdCustomEvent, ?c)"
    using FEvent assms(3,4) by (simp add: conn_simps avail_def PutUint16_def)
  let ?c1 = "c\<lparr>cl_conn := (cl_conn c)\<lparr>c_rx := drop_segs 2 ((PutUint16 ?n @ d) # segs)\<rparr>\<rparr>"
  have l: "cl_io (io_ReadFull 2) ?c = (Inr (PutUint16 ?n), ?c1)"
    using assms(3) by (simp add: conn_simps)
  have d: "cl_io (io_ReadFull (length d)) ?c1 =
      (Inr d, c\<lparr>cl_conn := (cl_conn c)\<lparr>c_rx := segs\<rparr>\<rparr>)"
    using assms(3) by (cases "d = []") (simp_all add: conn_simps)
  show ?thesis
    using FEvent assms(3,5) ev len msg l d
    by (simp add: Client_handleCommand_def Client_handleCustomEvent_def Client_deliver_def
        ctx_done_def conn_simps wire_consts)
qed

lemma handleCommand_end:
  "conn_live (cl_conn c) \<Longrightarrow> c_rx (cl_conn c) = [] \<Longrightarrow>
     Client_handleCommand fb ju c =
       (Inl (Wrap ''failed to read command'' (Wrap ''failed to read response'' (c_end (cl_conn c)))), c)"
  by (simp add: Client_handleCommand_def readMsg_def io_ReadFull_def read_loop.simps [of 2 "[]"]
      conn_Read_def conn_live_def cl_io_def)

lemma serve_loop_frames:
  assumes "uuid_FromBytes_ok fb" "list_all (frame_ok ju) fs" "conn_live (cl_conn c)"
    and "c_rx (cl_conn c) = map encode_frame fs" "cl_sched c = []"
  shows "Client_serve_loop fb ju c =
    (Some (Wrap ''failed to read command'' (Wrap ''failed to read response'' (c_end (cl_conn c)))),
     c\<lparr>cl_cmds := cl_cmds c @ concat (map (frame_cmds ju) fs),
       cl_conn := (cl_conn c)\<lparr>c_rx := [],
         c_tx := c_tx (cl_conn c) @ concat (map (\<lambda>_. [versionV1, resSuccess]) fs)\<rparr>\<rparr>)"
  using assms(2-5)
proof (induction fs arbitrary: c)
  case Nil
  then show ?case
    by (simp add: Client_serve_loop.simps [of fb ju c] ctx_done_def handleCommand_end)
next
  case (Cons f fs)
  let ?c = "c\<lparr>cl_cmds := cl_cmds c @ frame_cmds ju f, cl_conn := (cl_conn c)\<lparr>
     c_rx := map encode_frame fs, c_tx := c_tx (cl_conn c) @ [versionV1, resSuccess]\<rparr>\<rparr>"
  have "Client_handleCommand fb ju c = (Inr (), ?c)"
    using assms(1) Cons.prems by (intro handleCommand_frame) auto
  then have "Client_serve_loop fb ju c = Client_serve_loop fb ju ?c"
    using Cons.prems(4) by (simp add: Client_serve_loop.simps [of fb ju c] ctx_done_def)
  also have "\<dots> = (Some (Wrap ''failed to read command''
        (Wrap ''failed to read response'' (c_end (cl_conn ?c)))),
     ?c\<lparr>cl_cmds := cl_cmds ?c @ concat (map (frame_cmds ju) fs),
       cl_conn := (cl_conn ?c)\<lparr>c_rx := [],
         c_tx := c_tx (cl_conn ?c) @ concat (map (\<lambda>_. [versionV1, resSuccess]) fs)\<rparr>\<rparr>)"
    using Cons.prems by (intro Cons.IH) auto
  finally show ?case by simp
qed

text \<open>C14 \<open>Client_serve_in_order\<close>. A client whose context stays alive serves any sequence of well-formed requests,
  each arriving in one piece: the user receives one command per connect request and event, in the
  order they were sent and with their payloads, the server receives one success answer per request,
  and when the server closes the connection the channel is closed and the connection with it.\<close>

theorem Client_serve_in_order:
  assumes "uuid_FromBytes_ok fb" "list_all (frame_ok ju) fs" "conn_live (cl_conn c)"
    and "c_rx (cl_conn c) = map encode_frame fs" "cl_sched c = []"
  shows "cl_cmds (Client_serve fb ju c) = cl_cmds c @ concat (map (frame_cmds ju) fs) \<and>
    c_tx (cl_conn (Client_serve fb ju c)) =
      c_tx (cl_conn c) @ concat (map (\<lambda>_. [versionV1, resSuccess]) fs) \<and>
    cl_cmds_closed (Client_serve fb ju c) \<and> cl_cancelled (Client_serve fb ju c) \<and>
    c_closed (cl_conn (Client_serve fb ju c))"
  using assms by (simp add: Client_serve_def serve_loop_frames client_cancel_def conn_Close_def)

definition example_client :: "bytes list \<Rightarrow> client" where
  "example_client segs =
     \<lparr>cl_conn = mk_conn segs, cl_cancel = False, cl_cancelled = False, cl_sched = [], cl_cmds = [],
      cl_cmds_closed = False, cl_token = [], cl_authMode = 0, cl_state = client_connected,
      cl_disableV2 = False\<rparr>"

theorem Client_serve_in_order_witness:
  "cl_cmds (Client_serve from_bytes16 (\<lambda>d. Inr \<lparr>ce_Name = ''n'', ce_Data = d\<rparr>)
      (example_client [[1, 2] @ replicate 16 3, [1, 4], [1, 5, 0, 2, 8, 9]])) =
     [ConnectCommand \<lparr>cc_ID = replicate 16 3\<rparr>,
      CustomEventCommand \<lparr>ce_Name = ''n'', ce_Data = [8, 9]\<rparr>]"
proof -
  let ?fs = "[FConnect (replicate 16 3), FPing, FEvent [8, 9]]"
  let ?c = "example_client (map encode_frame ?fs)"
  have "cl_cmds (Client_serve from_bytes16 (\<lambda>d. Inr \<lparr>ce_Name = ''n'', ce_Data = d\<rparr>) ?c) =
     [ConnectCommand \<lparr>cc_ID = replicate 16 3\<rparr>,
      CustomEventCommand \<lparr>ce_Name = ''n'', ce_Data = [8, 9]\<rparr>]"
    by (subst Client_serve_in_order [where fs = ?fs, THEN conjunct1]) (simp_all add: example_client_def)
  moreover have "map encode_frame ?fs = [[1, 2] @ replicate 16 3, [1, 4], [1, 5, 0, 2, 8, 9]]"
    by (simp add: wire_consts PutUint16_def drop_bit_eq_div)
  ultimately show ?thesis by (simp only:)
qed

section \<open>The handshake\<close>

lemma cl_io_frame:
  "cl_io f c = (r, c') \<Longrightarrow> c' = c\<lparr>cl_conn := cl_conn c'\<rparr>"
  by (auto simp: cl_io_def split: prod.splits)

lemma cl_io_sendRequest_Inr:
  assumes "cl_io (sendRequest req) c = (Inr m, c')"
  shows "c_tx (cl_conn c') = c_tx (cl_conn c) @ versionV1 # req \<and>
    avail (cl_conn c) = versionV1 # m # avail (cl_conn c') \<and> c' = c\<lparr>cl_conn := cl_conn c'\<rparr>"
proof -
  obtain rest where "avail (cl_conn c) = versionV1 # m # rest" "avail (cl_conn c') = rest"
    "c_tx (cl_conn c') = c_tx (cl_conn c) @ versionV1 # req"
    using cl_io_conn [OF assms] by (rule sendRequest_InrD)
  then show ?thesis
    using cl_io_frame [OF assms] by blast
qed

text \<open>What a client writes to authenticate, and what it must be answered.\<close>

definition client_hello :: "client \<Rightarrow> bytes" where
  "client_hello c = [versionV1, 1, cl_authMode c] @
     (if cl_authMode c = userPassAuth then versionV1 # cl_token c else [])"

definition server_hello :: "client \<Rightarrow> bytes" where
  "server_hello c = [versionV1, cl_authMode c] @
     (if cl_authMode c = userPassAuth then [versionV1, resSuccess] else [])"

lemma establish_Inr:
  assumes "Client_establish c = (Inr u, c')"
  shows "c_tx (cl_conn c') = c_tx (cl_conn c) @ client_hello c \<and>
    avail (cl_conn c) = server_hello c @ avail (cl_conn c')"
proof -
  from assms obtain m c1 where rq: "cl_io (sendRequest [1, cl_authMode c]) c = (Inr m, c1)"
    and au: "Client_handleAuth m c1 = (Inr u, c')"
    by (auto simp: Client_establish_def split: prod.splits sum.splits)
  note S = cl_io_sendRequest_Inr [OF rq]
  from S obtain cn where "c1 = c\<lparr>cl_conn := cn\<rparr>" by blast
  then have fields: "cl_authMode c1 = cl_authMode c" "cl_token c1 = cl_token c"
    by simp_all
  show ?thesis
  proof (cases "m = userPassAuth")
    case True
    with au fields have "cl_authMode c = userPassAuth"
      and "cl_io (sendRequest (cl_token c)) c1 = (Inr resSuccess, c')"
      by (auto simp: Client_handleAuth_def wire_consts split: if_splits prod.splits sum.splits)
    with S True cl_io_sendRequest_Inr show ?thesis
      by (fastforce simp: client_hello_def server_hello_def)
  next
    case False
    with au fields have "m = noAuth" "cl_authMode c = noAuth" "c' = c1"
      by (auto simp: Client_handleAuth_def split: if_splits)
    with S show ?thesis
      by (simp add: client_hello_def server_hello_def wire_consts)
  qed
qed

text \<open>C25 \<open>Client_establish_no_downgrade\<close>. A client configured with credentials cannot be talked out of
  using them, and hands them only to a server that asked: if the client's authentication succeeds, the
  server chose \<open>userPassAuth\<close> and then accepted; and in no case is anything written after the
  greeting unless the server's reply was \<open>userPassAuth\<close>.\<close>

theorem Client_establish_no_downgrade:
  assumes "Client_establish c = (r, c')" and "cl_authMode c = userPassAuth"
  shows "(r = Inr () \<longrightarrow>
      avail (cl_conn c) = [versionV1, userPassAuth, versionV1, resSuccess] @ avail (cl_conn c') \<and>
      c_tx (cl_conn c') = c_tx (cl_conn c) @ [versionV1, 1, userPassAuth] @ versionV1 # cl_token c) \<and>
    (c_tx (cl_conn c') \<in> {c_tx (cl_conn c), c_tx (cl_conn c) @ [versionV1, 1, userPassAuth]} \<or>
      (\<exists>rest. avail (cl_conn c) = [versionV1, userPassAuth] @ rest))"
proof (intro conjI impI)
  assume "r = Inr ()"
  with assms establish_Inr [of c "()" c'] show
    "avail (cl_conn c) = [versionV1, userPassAuth, versionV1, resSuccess] @ avail (cl_conn c')"
    "c_tx (cl_conn c') = c_tx (cl_conn c) @ [versionV1, 1, userPassAuth] @ versionV1 # cl_token c"
    by (simp_all add: client_hello_def server_hello_def)
next
  obtain r1 c1 where rq: "cl_io (sendRequest [1, userPassAuth]) c = (r1, c1)" by fastforce
  note T = sendRequest_tx [OF cl_io_conn [OF rq]]
  have "c' = c1 \<or> (\<exists>m. r1 = Inr m \<and> m = userPassAuth)"
    using assms rq
    by (cases r1) (auto simp: Client_establish_def Client_handleAuth_def split: if_splits)
  with T cl_io_sendRequest_Inr [of "[1, userPassAuth]" c userPassAuth c1] rq show
    "c_tx (cl_conn c') \<in> {c_tx (cl_conn c), c_tx (cl_conn c) @ [versionV1, 1, userPassAuth]} \<or>
      (\<exists>rest. avail (cl_conn c) = [versionV1, userPassAuth] @ rest)"
    by auto
qed

theorem Client_establish_no_downgrade_witness:
  "\<exists>c'. Client_establish ((example_client [[1, 2], [1, 0]])\<lparr>cl_authMode := userPassAuth, cl_token := [9]\<rparr>)
      = (Inr (), c') \<and> c_tx (cl_conn c') = [1, 1, 2, 1, 9]"
proof -
  let ?c = "(example_client [[1, 2], [1, 0]])\<lparr>cl_authMode := userPassAuth, cl_token := [9]\<rparr>"
  have "fst (Client_establish ?c) = Inr ()"
    by code_simp
  then obtain c' where run: "Client_establish ?c = (Inr (), c')"
    by (metis prod.collapse)
  from Client_establish_no_downgrade [OF run] show ?thesis
    using run by (simp add: example_client_def wire_consts)
qed

section \<open>Register, Bind and Close\<close>

lemma handleAuth_frame:
  "Client_handleAuth m c = (r, c') \<Longrightarrow> c' = c\<lparr>cl_conn := cl_conn c'\<rparr>"
  by (auto simp: Client_handleAuth_def split: if_splits prod.splits sum.splits dest!: cl_io_frame)

lemma establish_frame:
  "Client_establish c = (r, c') \<Longrightarrow> c' = c\<lparr>cl_conn := cl_conn c'\<rparr>"
  unfolding Client_establish_def Let_def
  by (auto split: prod.splits sum.splits dest!: cl_io_frame handleAuth_frame)
     (metis client.surjective client.update_convs(1))+

lemma handleRegister_frame:
  "Client_handleRegister uid c = (r, c') \<Longrightarrow> c' = c\<lparr>cl_conn := cl_conn c'\<rparr>"
  by (auto simp: Client_handleRegister_def split: if_splits prod.splits sum.splits dest!: cl_io_frame)

lemma handleBind_frame:
  "Client_handleBind uid c = (r, c') \<Longrightarrow> c' = c\<lparr>cl_conn := cl_conn c'\<rparr>"
  by (auto simp: Client_handleBind_def split: if_splits prod.splits sum.splits dest!: cl_io_frame)

lemma frame_state: "c' = c\<lparr>cl_conn := cn\<rparr> \<Longrightarrow> cl_state c' = cl_state c \<and> cl_cancel c' = cl_cancel c \<and>
    cl_cmds c' = cl_cmds c \<and> cl_sched c' = cl_sched c"
  by simp

lemma handleRegister_Inr:
  assumes "Client_handleRegister uid c = (Inr u, c')"
  shows "c_tx (cl_conn c') = c_tx (cl_conn c) @ [versionV1, cmdRegister] @ uid \<and>
    avail (cl_conn c) = [versionV1, resSuccess] @ avail (cl_conn c')"
  using assms
  by (auto simp: Client_handleRegister_def split: if_splits prod.splits sum.splits
      dest!: cl_io_sendRequest_Inr)

text \<open>C26 \<open>Client_Register_outcome\<close>. \<open>Register\<close> succeeds only on a fresh client, and then the client is
  registered and the exchange was exactly the protocol's: the greeting with the client's one method,
  the credentials if it has any, and the register command with its identifier; each answered as
  required. When it fails on a fresh client, the context is cancelled, the connection closed, and
  the client stays in \<open>processing\<close>, from which neither \<open>Register\<close> nor \<open>Bind\<close> can be called again. On any
  other client nothing changes.\<close>

theorem Client_Register_outcome:
  "(cl_state c \<noteq> client_connected \<and>
      Client_Register ctx uid c = (Inl (client_unexpected_state c), c)) \<or>
   (cl_state c = client_connected \<and>
     (\<exists>c'. Client_Register ctx uid c = (Inr (), c') \<and> cl_state c' = client_registered \<and>
        c_tx (cl_conn c') = c_tx (cl_conn c) @ client_hello c @ [versionV1, cmdRegister] @ uid \<and>
        avail (cl_conn c) = server_hello c @ [versionV1, resSuccess] @ avail (cl_conn c'))) \<or>
   (cl_state c = client_connected \<and>
     (\<exists>e c'. Client_Register ctx uid c = (Inl e, c') \<and> cl_state c' = client_processing \<and>
        cl_cancelled c' \<and> c_closed (cl_conn c')))"
proof (cases "cl_state c = client_connected")
  case True
  let ?c = "c\<lparr>cl_state := client_processing, cl_cancel := True, cl_sched := ctx\<rparr>"
  have hello: "client_hello ?c = client_hello c" "server_hello ?c = server_hello c"
    by (simp_all add: client_hello_def server_hello_def)
  obtain r1 c1 where est: "Client_establish ?c = (r1, c1)" by fastforce
  obtain r2 c2 where reg: "Client_handleRegister uid c1 = (r2, c2)" by fastforce
  have st: "cl_state c1 = client_processing" "cl_state c2 = client_processing"
    using frame_state [OF establish_frame [OF est]] frame_state [OF handleRegister_frame [OF reg]]
    by simp_all
  show ?thesis
    using True est reg st hello handleRegister_Inr [of uid c1 _ c2] establish_Inr [of ?c _ c1]
    by (cases r1; cases r2) (auto simp: Client_Register_def Let_def client_cancel_def)
qed (simp add: Client_Register_def)

text \<open>Once \<open>Register\<close> or \<open>Bind\<close> has been called, \<open>Close\<close> cancels the context, closes
  the connection and disconnects the client, whichever goroutine closes the connection first; the only
  difference the race makes is whether a first \<open>Close\<close> reports the connection as closed already.
  Closing again changes nothing and reports no error.\<close>

theorem Client_Close_idempotent:
  assumes "cl_cancel c" and "cl_state c \<noteq> client_disconnected"
  shows "let c' = snd (Client_Close b c) in
    cl_state c' = client_disconnected \<and> cl_cancelled c' \<and> c_closed (cl_conn c') \<and>
    fst (Client_Close b c) = (if b \<or> c_closed (cl_conn c) then Inl ErrClosed else Inr ()) \<and>
    Client_Close b2 c' = (Inr (), c')"
  using assms by (simp add: Client_Close_def cl_io_def conn_Close_def Let_def)

theorem Client_Close_idempotent_witness:
  "let c = snd (Client_Register [] (replicate 16 5) (example_client [[1, 0], [1, 0]]))
   in cl_cancel c \<and> cl_state c = client_registered \<and>
      Client_Close True (snd (Client_Close False c)) = (Inr (), snd (Client_Close False c))"
proof -
  let ?c = "snd (Client_Register [] (replicate 16 5) (example_client [[1, 0], [1, 0]]))"
  have st: "cl_state ?c = client_registered" by code_simp
  have cn: "cl_cancel ?c" by code_simp
  have nd: "cl_state ?c \<noteq> client_disconnected"
    using st by simp
  show ?thesis
    using Client_Close_idempotent [OF cn nd, of False True] st cn by (simp add: Let_def)
qed

text \<open>A client on which neither \<open>Register\<close> nor \<open>Bind\<close> was called is not closed by
  \<open>Close\<close>: it returns no error, and the connection stays open and the client usable.\<close>

theorem Client_Close_unused:
  assumes "\<not> c_closed conn" and "NewClient conn [] = Return c"
  shows "Client_Close b c = (Inr (), c) \<and> \<not> c_closed (cl_conn (snd (Client_Close b c))) \<and>
    cl_state (snd (Client_Close b c)) = client_connected"
  using assms by (auto simp: NewClient_def Client_Close_def)

theorem Client_Close_unused_witness:
  "\<exists>c. NewClient (mk_conn []) [] = Return c \<and> \<not> c_closed (cl_conn (snd (Client_Close False c)))"
  using Client_Close_unused [of "mk_conn []" _ False] by (auto simp: NewClient_def)

end
