(* ===== verification/Proto_Session.thy ===== *)
theory Proto_Session
  imports Proto_Server Proto_Client
begin

text \<open>
  The two ends of a V1 connection put together. A session is described by what each end finds to
  read: the bytes the client writes are the bytes the server reads, and the other way round. The
  theorems run both models on matching input and show that the outputs match it.
\<close>

section \<open>Credentials\<close>

lemma byte_len_pos: "0 < k \<Longrightarrow> k \<le> 255 \<Longrightarrow> (word_of_nat k :: u8) \<noteq> 0"
  by (metis unat_u8_of_nat not_gr_zero unsigned_0)

lemma handleUserPassAuth_token:
  assumes "conn_live (s_conn s)"
    and "c_rx (s_conn s) = (versionV1 # user_pass_token user pass) # segs"
    and "0 < length user" "length user \<le> 255" "0 < length pass" "length pass \<le> 255"
  shows "Server_handleUserPassAuth auth s =
    (if auth user pass then Inr () else Inl (Errorf ''authentication failed'' []),
     s\<lparr>s_conn := (s_conn s)\<lparr>c_rx := segs, c_tx := c_tx (s_conn s) @ [versionV1, userPassAuth, versionV1,
        if auth user pass then resSuccess else resFailure]\<rparr>\<rparr>)"
proof -
  let ?u = "bytes_of_string user" and ?p = "bytes_of_string pass"
  let ?un = "word_of_nat (length user) :: u8" and ?pn = "word_of_nat (length pass) :: u8"
  let ?t = "c_tx (s_conn s) @ [versionV1, userPassAuth]"
  have nonempty: "?u \<noteq> []" "?p \<noteq> []"
    using assms(3,5) by (auto simp: bytes_of_string_def)
  have 1: "on_conn (sendRequest [userPassAuth]) s =
      (Inr ?un, s\<lparr>s_conn := (s_conn s)\<lparr>c_tx := ?t, c_rx := (?u @ [?pn] @ ?p) # segs\<rparr>\<rparr>)"
    using assms(1,2) nonempty by (simp add: conn_simps avail_def user_pass_token_def)
  show ?thesis
    using assms nonempty unfolding Server_handleUserPassAuth_def 1
    by (simp add: on_conn_def conn_simps Let_def)
qed

text \<open>C24 \<open>user_pass_token_roundtrip\<close>. The token \<open>WithUserPass\<close> builds is read back by the server as the same
  user name and password, for all lengths from 1 to 255: the server asks for the token, calls its
  authentication function on exactly that pair, and its answer and its result follow the function's.\<close>

theorem user_pass_token_roundtrip:
  assumes "conn_live (s_conn s)"
    and "c_rx (s_conn s) = (versionV1 # user_pass_token user pass) # segs"
    and "0 < length user" "length user \<le> 255" "0 < length pass" "length pass \<le> 255"
  shows "Server_handleUserPassAuth auth s =
    (if auth user pass then Inr () else Inl (Errorf ''authentication failed'' []),
     s\<lparr>s_conn := (s_conn s)\<lparr>c_rx := segs, c_tx := c_tx (s_conn s) @ [versionV1, userPassAuth, versionV1,
        if auth user pass then resSuccess else resFailure]\<rparr>\<rparr>)"
  using assms by (rule handleUserPassAuth_token)

theorem user_pass_token_roundtrip_witness:
  "fst (Server_handleUserPassAuth example_auth
     (NewServer (mk_conn [[1, 1, 117, 1, 112]]) [WithUserPassAuth (Some example_auth)])) = Inr ()"
proof -
  let ?s = "NewServer (mk_conn [[1, 1, 117, 1, 112]]) [WithUserPassAuth (Some example_auth)]"
  have tok: "versionV1 # user_pass_token ''u'' ''p'' = [1, 1, 117, 1, 112]"
    by (simp add: user_pass_token_def bytes_of_string_def wire_consts)
  have "fst (Server_handleUserPassAuth example_auth ?s) =
      (if example_auth ''u'' ''p'' then Inr () else Inl (Errorf ''authentication failed'' []))"
    by (subst user_pass_token_roundtrip [where user = "''u''" and pass = "''p''" and segs = "[]"])
       (simp_all add: tok NewServer_def WithUserPassAuth_def)
  then show ?thesis by (simp add: example_auth_def)
qed

text \<open>\<open>WithUserPass\<close> accepts an empty user name, but no server accepts the token
  it makes: whatever its authentication function says, the server fails without calling it.\<close>

theorem empty_username_rejected:
  assumes "length pass \<le> 255" "conn_live (s_conn s)"
    and "c_rx (s_conn s) = (versionV1 # user_pass_token '''' pass) # segs"
  shows "(\<exists>opt. WithUserPass '''' pass = Inr opt) \<and>
    fst (Server_handleUserPassAuth auth s) = Inl (Errorf ''failed to read username length'' [])"
  using assms
  by (simp add: WithUserPass_def Server_handleUserPassAuth_def conn_simps avail_def
      user_pass_token_def bytes_of_string_def)

theorem empty_username_rejected_witness:
  "fst (Server_handleUserPassAuth (\<lambda>_ _. True)
     (NewServer (mk_conn [[1, 0, 1, 112]]) [WithUserPassAuth (Some (\<lambda>_ _. True))]))
   = Inl (Errorf ''failed to read username length'' [])"
proof -
  let ?s = "NewServer (mk_conn [[1, 0, 1, 112]]) [WithUserPassAuth (Some (\<lambda>_ _. True))]"
  have "c_rx (s_conn ?s) = [versionV1 # user_pass_token '''' ''p'']"
    by (simp add: user_pass_token_def bytes_of_string_def wire_consts NewServer_def
        WithUserPassAuth_def)
  then show ?thesis
    using empty_username_rejected [of "''p''" ?s "[]" "\<lambda>_ _. True"]
    by (simp add: NewServer_def WithUserPassAuth_def)
qed

section \<open>The greeting\<close>

text \<open>
  What client and server say until the client is accepted, without credentials or with a user name
  and a password: the requests of the client and the answers of the server.
\<close>

fun greeting :: "(string \<times> string) option \<Rightarrow> bytes list" where
  "greeting None = [[versionV1, 1, noAuth]]"
| "greeting (Some (user, pass)) = [[versionV1, 1, userPassAuth], versionV1 # user_pass_token user pass]"

fun reception :: "(string \<times> string) option \<Rightarrow> bytes list" where
  "reception None = [[versionV1, noAuth]]"
| "reception (Some _) = [[versionV1, userPassAuth], [versionV1, resSuccess]]"

text \<open>The options of a server and of a client that get on: neither asks for credentials, or the server accepts the client's.\<close>

fun agreed :: "(string \<times> string) option \<Rightarrow> server_option list \<Rightarrow> client_option list \<Rightarrow> bool" where
  "agreed None sopts copts \<longleftrightarrow> sopts = [] \<and> copts = []"
| "agreed (Some (user, pass)) sopts copts \<longleftrightarrow> user \<noteq> [] \<and> pass \<noteq> [] \<and>
     (\<exists>auth opt. sopts = [WithUserPassAuth (Some auth)] \<and> auth user pass \<and>
        WithUserPass user pass = Inr opt \<and> copts = [opt])"

fun speaks :: "(string \<times> string) option \<Rightarrow> client \<Rightarrow> bool" where
  "speaks None c \<longleftrightarrow> cl_authMode c = noAuth"
| "speaks (Some (user, pass)) c \<longleftrightarrow> cl_authMode c = userPassAuth \<and> cl_token c = user_pass_token user pass"

lemma speaks_update [simp]:
  "speaks creds (c\<lparr>cl_state := st\<rparr>) = speaks creds c" "speaks creds (c\<lparr>cl_cancel := b\<rparr>) = speaks creds c"
  "speaks creds (c\<lparr>cl_sched := sched\<rparr>) = speaks creds c"
  by (cases "(creds, c)" rule: speaks.cases; simp)+

lemma NewClient_speaks:
  assumes "agreed creds sopts copts"
  shows "\<exists>c. NewClient conn copts = Return c \<and> speaks creds c \<and> cl_state c = client_connected \<and>
      cl_conn c = conn \<and> \<not> cl_disableV2 c"
    and "\<exists>c. NewClient conn (copts @ [WithDisableV2Fallback]) = Return c \<and> speaks creds c \<and>
      cl_state c = client_connected \<and> cl_conn c = conn \<and> cl_disableV2 c"
  using assms
  by (cases "(creds, sopts, copts)" rule: agreed.cases;
      auto simp: NewClient_def WithUserPass_def WithDisableV2Fallback_def split: if_splits)+

lemma establish_greeting:
  assumes "speaks creds c" "conn_live (cl_conn c)" "c_rx (cl_conn c) = reception creds @ segs"
  shows "Client_establish c = (Inr (), c\<lparr>cl_conn := (cl_conn c)\<lparr>c_rx := segs,
    c_tx := c_tx (cl_conn c) @ concat (greeting creds)\<rparr>\<rparr>)"
  using assms
  by (cases "(creds, c)" rule: speaks.cases)
     (simp_all add: Client_establish_def Client_handleAuth_def conn_simps avail_def wire_consts)

lemma handleInit_userpass:
  assumes "s_userPassAuth s = Some auth" "auth user pass" "conn_live (s_conn s)"
    and "c_rx (s_conn s) = [versionV1, 1, userPassAuth] # (versionV1 # user_pass_token user pass) # segs"
    and "0 < length user" "length user \<le> 255" "0 < length pass" "length pass \<le> 255"
  shows "Server_handleInit s = (Inr (), s\<lparr>s_conn := (s_conn s)\<lparr>c_rx := segs,
    c_tx := c_tx (s_conn s) @ [versionV1, userPassAuth, versionV1, resSuccess]\<rparr>\<rparr>)"
proof -
  have "noAuth \<noteq> userPassAuth"
    by (simp add: wire_consts)
  then show ?thesis
    using assms
    by (simp add: Server_handleInit_def conn_simps avail_def Server_handleAuth_def
        handleUserPassAuth_token numeral_2_eq_2)
qed

lemma handleInit_greeting:
  assumes "agreed creds sopts copts" "conn_live conn" "c_rx conn = greeting creds @ segs"
  shows "Server_handleInit ((NewServer conn sopts)\<lparr>s_state := StateProcessing\<rparr>) =
    (Inr (), (NewServer conn sopts)\<lparr>s_state := StateProcessing, s_conn := conn\<lparr>c_rx := segs,
       c_tx := c_tx conn @ concat (reception creds)\<rparr>\<rparr>)"
proof (cases creds)
  case None
  let ?s = "NewServer conn []"
  have "s_userPassAuth ?s = None" "s_noAuth ?s" "s_conn ?s = conn"
    by (simp_all add: NewServer_def)
  with assms None show ?thesis
    by (subst handleInit_noauth [where n = 1 and ms = "[noAuth]" and rest = "concat segs"]) (simp_all add: avail_def)
next
  case (Some up)
  then obtain user pass where up: "creds = Some (user, pass)" by (cases up) simp
  with assms(1) obtain auth opt where ok: "sopts = [WithUserPassAuth (Some auth)]" "auth user pass"
      "user \<noteq> []" "pass \<noteq> []" "WithUserPass user pass = Inr opt" by auto
  then have len: "length user \<le> 255" "length pass \<le> 255"
    by (auto simp: WithUserPass_def split: if_splits)
  let ?s = "NewServer conn sopts"
  have "s_userPassAuth ?s = Some auth" "s_conn ?s = conn"
    using ok(1) by (simp_all add: NewServer_def WithUserPassAuth_def)
  with assms(2,3) up ok len show ?thesis
    by (subst handleInit_userpass [where auth = auth and user = user and pass = pass and segs = segs]) simp_all
qed

lemma NewServer_fields [simp]:
  assumes "agreed creds sopts copts"
  shows "s_state (NewServer conn sopts) = StateConnected" "s_conn (NewServer conn sopts) = conn"
  using assms
  by (cases "(creds, sopts, copts)" rule: agreed.cases; auto simp: NewServer_def WithUserPassAuth_def)+

section \<open>Registration\<close>

lemma handleCommand_uuid:
  assumes "uuid_FromBytes_ok fb" "conn_live (s_conn s)" "s_state s = StateProcessing" "length uid = 16"
    and "c_rx (s_conn s) = ([versionV1, cmd] @ uid) # segs"
    and "(cmd, st) \<in> {(cmdRegister, StateRegistered), (cmdBind, StateBound)}"
  shows "Server_handleCommand fb s =
    (Inr (), s\<lparr>s_state := st, s_id := uid, s_conn := (s_conn s)\<lparr>c_rx := segs,
       c_tx := c_tx (s_conn s) @ [versionV1, resSuccess]\<rparr>\<rparr>)"
proof -
  let ?s = "s\<lparr>s_conn := (s_conn s)\<lparr>c_rx := uid # segs\<rparr>\<rparr>"
  have "uid \<noteq> []"
    using assms(4) by auto
  then have "on_conn readMsg s = (Inr cmd, ?s)"
    using assms(2,5) by (simp add: conn_simps avail_def)
  moreover have "cmdRegister \<noteq> cmdBind"
    by (simp add: wire_consts)
  ultimately show ?thesis
    using assms handleRegister_live [of fb ?s uid segs] handleBind_live [of fb ?s uid segs]
    by (auto simp: Server_handleCommand_def)
qed

text \<open>The server's half of both handshakes.\<close>

lemma Process_session:
  assumes "agreed creds sopts copts" "uuid_FromBytes_ok fb" "length uid = 16" "conn_live conn"
    and "c_rx conn = greeting creds @ [[versionV1, cmd] @ uid] @ segs"
    and "(cmd, st) \<in> {(cmdRegister, StateRegistered), (cmdBind, StateBound)}"
  shows "Server_Process fb (NewServer conn sopts) =
    (Inr (), (NewServer conn sopts)\<lparr>s_state := st, s_id := uid, s_conn := conn\<lparr>c_rx := segs,
       c_tx := c_tx conn @ concat (reception creds) @ [versionV1, resSuccess]\<rparr>\<rparr>)"
proof -
  let ?s = "NewServer conn sopts"
  let ?s1 = "?s\<lparr>s_state := StateProcessing, s_conn := conn\<lparr>c_rx := ([versionV1, cmd] @ uid) # segs,
      c_tx := c_tx conn @ concat (reception creds)\<rparr>\<rparr>"
  have "Server_handleInit (?s\<lparr>s_state := StateProcessing\<rparr>) = (Inr (), ?s1)"
    using assms(5) by (subst handleInit_greeting [OF assms(1,4), of "([versionV1, cmd] @ uid) # segs"]) simp_all
  moreover have "Server_handleCommand fb ?s1 = (Inr (), ?s1\<lparr>s_state := st, s_id := uid,
      s_conn := (s_conn ?s1)\<lparr>c_rx := segs, c_tx := c_tx (s_conn ?s1) @ [versionV1, resSuccess]\<rparr>\<rparr>)"
    using assms(4) by (intro handleCommand_uuid [OF assms(2) _ _ assms(3) _ assms(6)]) simp_all
  ultimately show ?thesis
    using NewServer_fields [OF assms(1)] by (simp add: Server_Process_def)
qed

text \<open>C6 \<open>register_session\<close>. Registration, both ends, without authentication or with credentials that the server's
  authentication function accepts: the client on the server's answers writes exactly the requests on
  which the server gives exactly these answers; both calls succeed, both ends are registered, and the
  server knows the client by the identifier the client chose.\<close>

theorem register_session:
  assumes "uuid_FromBytes_ok fb" "length uid = 16" "agreed creds sopts copts"
    and "requests = greeting creds @ [[versionV1, cmdRegister] @ uid]"
    and "replies = reception creds @ [[versionV1, resSuccess]]"
  shows "\<exists>c c' s'. NewClient (mk_conn replies) copts = Return c \<and>
    Client_Register ctx uid c = (Inr (), c') \<and>
    Server_Process fb (NewServer (mk_conn requests) sopts) = (Inr (), s') \<and>
    c_tx (cl_conn c') = concat requests \<and> c_tx (s_conn s') = concat replies \<and>
    cl_state c' = client_registered \<and> s_state s' = StateRegistered \<and> s_id s' = uid"
proof -
  obtain c where new: "NewClient (mk_conn replies) copts = Return c" "speaks creds c"
      "cl_state c = client_connected" "cl_conn c = mk_conn replies"
    using NewClient_speaks(1) [OF assms(3)] by blast
  let ?c = "c\<lparr>cl_state := client_processing, cl_cancel := True, cl_sched := ctx\<rparr>"
  have "Client_establish ?c = (Inr (), ?c\<lparr>cl_conn := (cl_conn ?c)\<lparr>c_rx := [[versionV1, resSuccess]],
      c_tx := c_tx (cl_conn ?c) @ concat (greeting creds)\<rparr>\<rparr>)"
    using new assms(5) by (intro establish_greeting) simp_all
  then have client: "Client_Register ctx uid c = (Inr (), ?c\<lparr>cl_state := client_registered,
      cl_conn := (mk_conn replies)\<lparr>c_rx := [], c_tx := concat requests\<rparr>\<rparr>)"
    using new assms(4) by (simp add: Client_Register_def Client_handleRegister_def conn_simps)
  have server: "Server_Process fb (NewServer (mk_conn requests) sopts) = (Inr (),
      (NewServer (mk_conn requests) sopts)\<lparr>s_state := StateRegistered, s_id := uid,
        s_conn := (mk_conn requests)\<lparr>c_rx := [], c_tx := concat replies\<rparr>\<rparr>)"
    using Process_session [OF assms(3,1,2), of "mk_conn requests" cmdRegister "[]" StateRegistered] assms(4,5) by simp
  show ?thesis
    using new client server by auto
qed

theorem register_session_witness:
  "\<exists>s'. Server_Process from_bytes16
     (NewServer (mk_conn [[versionV1, 1, userPassAuth], versionV1 # user_pass_token ''u'' ''p'',
        [versionV1, cmdRegister] @ replicate 16 7]) [WithUserPassAuth (Some example_auth)]) = (Inr (), s') \<and>
     s_id s' = replicate 16 7"
proof -
  obtain opt where "WithUserPass ''u'' ''p'' = Inr opt"
    by (simp add: WithUserPass_def)
  then have "agreed (Some (''u'', ''p'')) [WithUserPassAuth (Some example_auth)] [opt]"
    by (auto simp: example_auth_def)
  from register_session [OF from_bytes16_ok _ this refl refl, of "replicate 16 7"] show ?thesis
    by auto
qed

section \<open>Commands\<close>

text \<open>C22 \<open>connect_command_session\<close>. What \<open>SendConnectCommand\<close> writes is what the client understands: when the
  request reaches the client in one piece, the client hands its user a connect command with the
  same identifier, and its answer is the one the successful server consumed.\<close>

theorem connect_command_session:
  assumes "uuid_FromBytes_ok fb" "length uid = 16"
    and sent: "Server_SendConnectCommand uid s = (Inr (), s')"
    and "conn_live (cl_conn c)" "cl_sched c = []"
    and "c_rx (cl_conn c) = [drop (length (c_tx (s_conn s))) (c_tx (s_conn s'))]"
  shows "\<exists>c' answer. Client_handleCommand fb ju c = (Inr (), c') \<and>
    cl_cmds c' = cl_cmds c @ [ConnectCommand \<lparr>cc_ID = uid\<rparr>] \<and>
    c_tx (cl_conn c') = c_tx (cl_conn c) @ answer \<and>
    avail (s_conn s) = answer @ avail (s_conn s')"
proof -
  from sent have rq: "on_conn (sendRequest (cmdConnect # uid)) s = (Inr resSuccess, s')"
    by (auto simp: Server_SendConnectCommand_def split: if_splits prod.splits sum.splits)
  note W = on_conn_sendRequest_Inr [OF rq]
  then have "c_rx (cl_conn c) = [encode_frame (FConnect uid)]"
    using assms(6) by simp
  then have "Client_handleCommand fb ju c =
    (Inr (), c\<lparr>cl_cmds := cl_cmds c @ frame_cmds ju (FConnect uid),
       cl_conn := (cl_conn c)\<lparr>c_rx := [], c_tx := c_tx (cl_conn c) @ [versionV1, resSuccess]\<rparr>\<rparr>)"
    using assms by (intro handleCommand_frame) simp_all
  with W show ?thesis by fastforce
qed

theorem connect_command_session_witness:
  "\<exists>c'. Client_handleCommand from_bytes16 (\<lambda>_. Inl EOF)
      (example_client [[1, 2] @ replicate 16 7]) = (Inr (), c') \<and>
     cl_cmds c' = [ConnectCommand \<lparr>cc_ID = replicate 16 7\<rparr>]"
proof -
  let ?s = "(NewServer (mk_conn [[1, 0]]) [])\<lparr>s_state := StateRegistered\<rparr>"
  let ?s' = "?s\<lparr>s_conn := (mk_conn [])\<lparr>c_tx := [1, 2] @ replicate 16 7\<rparr>\<rparr>"
  have "Server_SendConnectCommand (replicate 16 7) ?s = (Inr (), ?s')"
    by (simp add: Server_SendConnectCommand_def NewServer_def on_conn_def conn_simps wire_consts
        mk_conn_def conn_live_def avail_def)
  from connect_command_session [OF from_bytes16_ok _ this,
      of "example_client [[1, 2] @ replicate 16 7]" "\<lambda>_. Inl EOF"]
  show ?thesis
    by (auto simp: example_client_def NewServer_def)
qed

text \<open>C23 \<open>custom_event_session\<close>. The same for custom events: if the JSON encoding of this event decodes to it
  (what \<open>encoding/json\<close> guarantees for valid UTF-8 names), the client's user receives the event
  under the name and with the data the server's user gave, and it cannot be mistaken for a
  connect command.\<close>

theorem custom_event_session:
  assumes "uuid_FromBytes_ok fb" "conn_live (cl_conn c)" "cl_sched c = []"
    and sent: "Server_SendCustomEvent jm name (Inr payload) s = (Inr (), s')"
    and json: "\<And>d. jm \<lparr>ce_Name = name, ce_Data = payload\<rparr> = Inr d \<Longrightarrow>
        ju d = Inr \<lparr>ce_Name = name, ce_Data = payload\<rparr>"
    and "c_rx (cl_conn c) = [drop (length (c_tx (s_conn s))) (c_tx (s_conn s'))]"
  shows "\<exists>c' ev. Client_handleCommand fb ju c = (Inr (), c') \<and>
    cl_cmds c' = cl_cmds c @ [CustomEventCommand ev] \<and> ce_Name ev = name \<and> ce_Data ev = payload \<and>
    command_Type (CustomEventCommand ev) \<noteq> ConnectCommandType"
proof -
  from sent obtain ev d where ev: "NewCustomEventCommand name (Inr payload) = Inr ev"
    and d: "jm ev = Inr d" "length d \<le> 65535"
    and rq: "on_conn (sendRequest (cmdCustomEvent # PutUint16 (word_of_nat (length d)) @ d)) s =
        (Inr resSuccess, s')"
    by (auto simp: Server_SendCustomEvent_def split: if_splits prod.splits sum.splits)
  from ev have fields: "ev = \<lparr>ce_Name = name, ce_Data = payload\<rparr>"
    by (simp add: NewCustomEventCommand_Inr_iff)
  with json d have ju: "ju d = Inr ev"
    by simp
  have "c_rx (cl_conn c) = [encode_frame (FEvent d)]"
    using assms(6) on_conn_sendRequest_Inr [OF rq] by simp
  then have "Client_handleCommand fb ju c =
    (Inr (), c\<lparr>cl_cmds := cl_cmds c @ frame_cmds ju (FEvent d),
       cl_conn := (cl_conn c)\<lparr>c_rx := [], c_tx := c_tx (cl_conn c) @ [versionV1, resSuccess]\<rparr>\<rparr>)"
    using assms(1-3) ju d by (intro handleCommand_frame) simp_all
  then show ?thesis
    using ju fields custom_event_not_connect [OF ev] by fastforce
qed

theorem custom_event_session_witness:
  "\<exists>c' ev. Client_handleCommand from_bytes16 (\<lambda>d. Inr \<lparr>ce_Name = ''tick'', ce_Data = d\<rparr>)
      (example_client [[1, 5, 0, 2, 91, 93]]) = (Inr (), c') \<and>
     cl_cmds c' = [CustomEventCommand ev] \<and> ce_Name ev = ''tick'' \<and> ce_Data ev = [91, 93]"
proof -
  let ?s = "(NewServer (mk_conn [[1, 0]]) [])\<lparr>s_state := StateRegistered\<rparr>"
  let ?s' = "?s\<lparr>s_conn := (mk_conn [])\<lparr>c_tx := [1, 5, 0, 2, 91, 93]\<rparr>\<rparr>"
  have "NewCustomEventCommand ''tick'' (Inr [91, 93]) = Inr \<lparr>ce_Name = ''tick'', ce_Data = [91, 93]\<rparr>"
    by (simp add: NewCustomEventCommand_Inr_iff reserved_names_def)
  then have "Server_SendCustomEvent (\<lambda>e. Inr (ce_Data e)) ''tick'' (Inr [91, 93]) ?s = (Inr (), ?s')"
    by (simp add: Server_SendCustomEvent_def NewServer_def on_conn_def conn_simps wire_consts
        mk_conn_def conn_live_def avail_def PutUint16_def drop_bit_eq_div)
  from custom_event_session [OF from_bytes16_ok _ _ this,
      of "example_client [[1, 5, 0, 2, 91, 93]]" "\<lambda>d. Inr \<lparr>ce_Name = ''tick'', ce_Data = d\<rparr>"]
  show ?thesis
    by (auto simp: example_client_def NewServer_def)
qed

end
