(* ===== verification/Proto_Budget.thy ===== *)
theory Proto_Budget
  imports Proto_Client
begin

text \<open>
  What the command loop of the client (\<open>proto/client.go\<close>, \<open>Register\<close>) may cost, whatever a server
  sends it: how many rounds it runs, how many commands it hands to the user and how many bytes it
  answers, each bounded by the bytes that arrive. The loop is compared with a version that counts
  its rounds and gives up when they are used.
\<close>

section \<open>Reading and writing, counted in bytes\<close>

named_theorems budget "what an operation takes from the input and adds to the output"

lemma conn_Read_avail [budget]:
  "conn_Read n c = (r, c') \<Longrightarrow> length (avail c') \<le> length (avail c)"
  by (auto simp: conn_Read_def avail_def split: if_splits list.splits)

lemma read_loop_avail: "read_loop n acc c = (r, c') \<Longrightarrow> length (avail c') \<le> length (avail c)"
proof (induction n acc c rule: read_loop.induct)
  case (1 n acc c)
  obtain r1 c1 where rd: "conn_Read (n - length acc) c = (r1, c1)"
    by fastforce
  from "1.prems" show ?case
    using conn_Read_avail [OF rd] "1.IH" [OF _ rd [symmetric]] rd
    by (cases r1) (auto simp: read_loop.simps [of n acc c] split: if_splits)
qed

lemma io_ReadFull_avail [budget]:
  "io_ReadFull n c = (r, c') \<Longrightarrow> length (avail c') \<le> length (avail c)"
  unfolding io_ReadFull_def by (rule read_loop_avail)

lemma readMsg_avail [budget]:
  "readMsg c = (r, c') \<Longrightarrow> length (avail c') \<le> length (avail c)"
  by (auto simp: readMsg_def split: prod.splits sum.splits if_splits dest!: io_ReadFull_avail)

lemma readMsg_takes_2:
  "readMsg c = (Inr m, c') \<Longrightarrow> length (avail c') + 2 \<le> length (avail c)"
  by (erule readMsg_InrD) simp

lemma conn_Write_paid:
  "conn_Write bs c = (r, c') \<Longrightarrow>
     avail c' = avail c \<and> length (c_tx c') \<le> length (c_tx c) + length bs"
  by (auto simp: conn_Write_def split: if_splits option.splits nat.splits)

section \<open>The client's account\<close>

text \<open>
  \<open>within k n c c'\<close>: between \<open>c\<close> and \<open>c'\<close> the client took at least \<open>k\<close> bytes from its input and at
  most \<open>n\<close> times added a command or an answer of two bytes.
\<close>

definition within :: "nat \<Rightarrow> nat \<Rightarrow> client \<Rightarrow> client \<Rightarrow> bool" where
  "within k n c c' \<longleftrightarrow>
     length (avail (cl_conn c')) + k \<le> length (avail (cl_conn c)) \<and>
     length (cl_cmds c') \<le> length (cl_cmds c) + n \<and>
     length (c_tx (cl_conn c')) \<le> length (c_tx (cl_conn c)) + 2 * n"

lemma within_trans [trans]:
  "within k n c c1 \<Longrightarrow> within k' n' c1 c' \<Longrightarrow> within (k + k') (n + n') c c'"
  by (auto simp: within_def)

lemma within_mono: "within k n c c' \<Longrightarrow> k' \<le> k \<Longrightarrow> n \<le> n' \<Longrightarrow> within k' n' c c'"
  unfolding within_def by auto

lemma within_read: "within 0 0 c c1 \<Longrightarrow> within 0 n c1 c' \<Longrightarrow> within 0 n c c'"
  by (auto simp: within_def)

lemma within_paid:
  "within 0 0 c c' \<Longrightarrow> \<exists>n. within (2 * n) n c c'"
  "within 2 0 c c1 \<Longrightarrow> within 0 1 c1 c' \<Longrightarrow> \<exists>n. within (2 * n) n c c'"
  "within 2 0 c c' \<Longrightarrow> \<exists>n. within (2 * n) n c c'"
  by (auto simp: within_def intro: exI [of _ 0] exI [of _ 1])

lemma within_refl [simp]: "within 0 n c c"
  by (simp add: within_def)

lemma ctx_done_within: "ctx_done c = (b, c') \<Longrightarrow> within 0 0 c c'"
  by (auto simp: ctx_done_def within_def split: list.splits bool.splits)

text \<open>An operation of the connection that only reads adds nothing.\<close>

lemma cl_io_within:
  assumes "cl_io f c = (r, c')"
    and "\<And>cn. f (cl_conn c) = (r, cn) \<Longrightarrow>
      length (avail cn) + k \<le> length (avail (cl_conn c)) \<and> c_tx cn = c_tx (cl_conn c)"
  shows "within k 0 c c'"
  using assms by (auto simp: cl_io_def within_def split: prod.splits)

lemma read_within:
  "cl_io (conn_Read n) c = (r, c') \<Longrightarrow> within 0 0 c c'"
  "cl_io (io_ReadFull n) c = (r, c') \<Longrightarrow> within 0 0 c c'"
  "cl_io readMsg c = (r', c') \<Longrightarrow> within 0 0 c c'"
  by (auto elim!: cl_io_within dest: budget conn_Read_frame io_ReadFull_frame readMsg_frame)

lemma message_within: "cl_io readMsg c = (Inr m, c') \<Longrightarrow> within 2 0 c c'"
  by (auto elim!: cl_io_within dest: readMsg_takes_2 readMsg_frame)

lemma answer_within:
  "cl_io (conn_Write [versionV1, resSuccess]) c = (r, c') \<Longrightarrow> within 0 1 c c'"
  by (auto simp: cl_io_def within_def split: prod.splits dest: conn_Write_paid)

lemma deliver_within: "Client_deliver msg cmd c = (r, c') \<Longrightarrow> within 0 1 c c'"
  by (auto simp: Client_deliver_def cl_io_def within_def split: prod.splits bool.splits sum.splits
      dest!: ctx_done_within conn_Write_paid)

section \<open>One command\<close>

lemma handlePing_within: "Client_handlePing c = (r, c') \<Longrightarrow> within 0 1 c c'"
  by (auto simp: Client_handlePing_def split: prod.splits sum.splits dest: answer_within)

lemma handleConnect_within: "Client_handleConnect fb c = (r, c') \<Longrightarrow> within 0 1 c c'"
  by (auto simp: Client_handleConnect_def split: prod.splits sum.splits
      dest!: read_within deliver_within dest: within_read within_mono [of 0 0 _ _ 0 1])

lemma handleCustomEvent_within: "Client_handleCustomEvent ju c = (r, c') \<Longrightarrow> within 0 1 c c'"
  by (auto simp: Client_handleCustomEvent_def split: prod.splits sum.splits
      dest!: read_within deliver_within
      dest: within_read within_mono [of 0 0 _ _ 0 1])

lemmas handle_within = handlePing_within handleConnect_within handleCustomEvent_within

lemma handleCommand_within: "Client_handleCommand fb ju c = (Inr u, c') \<Longrightarrow> within 2 1 c c'"
  by (auto simp: Client_handleCommand_def split: prod.splits sum.splits if_splits
      dest!: message_within handle_within dest: within_trans [of 2 0 _ _ 0 1])

lemma handleCommand_paid: "Client_handleCommand fb ju c = (r, c') \<Longrightarrow> \<exists>n. within (2 * n) n c c'"
  by (auto simp: Client_handleCommand_def split: prod.splits sum.splits if_splits
      dest: read_within message_within intro: within_paid handle_within)

section \<open>The loop\<close>

lemma serve_loop_paid: "\<exists>n. within (2 * n) n c (snd (Client_serve_loop fb ju c))"
proof (induction fb ju c rule: Client_serve_loop.induct)
  case (1 fb ju c)
  obtain b c1 where ctx: "ctx_done c = (b, c1)" by fastforce
  obtain r c2 where cmd: "Client_handleCommand fb ju c1 = (r, c2)" by fastforce
  obtain n where first: "within (2 * n) n c c2"
    using handleCommand_paid [OF cmd] within_trans [OF ctx_done_within [OF ctx]] by fastforce
  show ?case
  proof (cases "\<not> b \<and> (\<exists>u. r = Inr u)")
    case True
    then have loop: "Client_serve_loop fb ju c = Client_serve_loop fb ju c2"
      by (auto simp: Client_serve_loop.simps [of fb ju c] ctx cmd)
    from True obtain n' where "within (2 * n') n' c2 (snd (Client_serve_loop fb ju c2))"
      using "1.IH" [OF ctx [symmetric]] cmd by fastforce
    from within_trans [OF first this] show ?thesis
      unfolding loop by (metis distrib_left)
  next
    case False
    then have "snd (Client_serve_loop fb ju c) \<in> {c1, c2}"
      by (auto simp: Client_serve_loop.simps [of fb ju c] ctx cmd split: sum.splits bool.splits)
    with first ctx_done_within [OF ctx] show ?thesis
      by (auto intro: exI [of _ 0])
  qed
qed

text \<open>The loop with its rounds counted: \<open>None\<close> when \<open>n\<close> rounds were not enough.\<close>

fun Client_serve_rounds ::
    "nat \<Rightarrow> (bytes \<Rightarrow> uuid res) \<Rightarrow> (bytes \<Rightarrow> custom_event res) \<Rightarrow> client \<Rightarrow> (err option \<times> client) option"
where
  "Client_serve_rounds 0 fb ju c = None"
| "Client_serve_rounds (Suc n) fb ju c =
     (case ctx_done c of
        (True, c) \<Rightarrow> Some (None, c)
      | (False, c) \<Rightarrow>
     (case Client_handleCommand fb ju c of
        (Inl e, c) \<Rightarrow> Some (Some e, c)
      | (Inr _, c) \<Rightarrow> Client_serve_rounds n fb ju c))"

declare Client_serve_rounds.simps(2) [simp del]

lemma serve_rounds_enough:
  "length (avail (cl_conn c)) div 2 < n \<Longrightarrow>
     Client_serve_rounds n fb ju c = Some (Client_serve_loop fb ju c)"
proof (induction n arbitrary: c)
  case (Suc n)
  obtain b c1 where ctx: "ctx_done c = (b, c1)" by fastforce
  obtain r c2 where cmd: "Client_handleCommand fb ju c1 = (r, c2)" by fastforce
  have "Client_serve_rounds n fb ju c2 = Some (Client_serve_loop fb ju c2)" if "r = Inr u" for u
  proof (rule Suc.IH)
    from cmd that have "within 2 1 c1 c2"
      using handleCommand_within by simp
    with ctx_done_conn [OF ctx] Suc.prems show "length (avail (cl_conn c2)) div 2 < n"
      by (auto simp: within_def)
  qed
  then show ?case
    by (auto simp: Client_serve_loop.simps [of fb ju c] Client_serve_rounds.simps(2) ctx cmd
        split: sum.splits bool.splits)
qed simp


end
