(* ===== verification/Mux_Config.thy ===== *)
theory Mux_Config
  imports Go_Prelude
begin

text \<open>
  \<open>mux/config.go\<close>: the multiplexing configuration. Durations are nanoseconds. \<open>yamux.Config\<close> belongs to
  a package outside the repository; the model has the three fields the code assigns, as an extensible
  record, and \<open>yamux.DefaultConfig()\<close> is a parameter.
\<close>

record mux_config =
  mc_MaxStreams :: u32
  mc_StreamWindowSize :: u32
  mc_ConnectionWindowSize :: u32
  mc_KeepAliveInterval :: int
  mc_KeepAliveTimeout :: int

record yamux_config =
  MaxStreamWindowSize :: u32
  KeepAliveInterval :: int
  ConnectionWriteTimeout :: int

definition time_Second :: int where
  "time_Second = 1000000000"

definition mux_DefaultConfig :: mux_config where
  "mux_DefaultConfig =
     \<lparr>mc_MaxStreams = 1024, mc_StreamWindowSize = 256 * 1024, mc_ConnectionWindowSize = 1024 * 1024,
      mc_KeepAliveInterval = 30 * time_Second, mc_KeepAliveTimeout = 60 * time_Second\<rparr>"

definition mux_ToYamux :: "'a yamux_config_scheme \<Rightarrow> mux_config \<Rightarrow> 'a yamux_config_scheme" where
  "mux_ToYamux yamux_DefaultConfig c =
     yamux_DefaultConfig\<lparr>MaxStreamWindowSize := mc_StreamWindowSize c,
       KeepAliveInterval := mc_KeepAliveInterval c,
       ConnectionWriteTimeout := mc_KeepAliveTimeout c\<rparr>"

definition mux_Validate :: "mux_config \<Rightarrow> unit res \<times> mux_config" where
  "mux_Validate c =
     (let c = (if mc_MaxStreams c = 0 then c\<lparr>mc_MaxStreams := mc_MaxStreams mux_DefaultConfig\<rparr> else c);
          c = (if mc_StreamWindowSize c = 0
               then c\<lparr>mc_StreamWindowSize := mc_StreamWindowSize mux_DefaultConfig\<rparr> else c);
          c = (if mc_ConnectionWindowSize c = 0
               then c\<lparr>mc_ConnectionWindowSize := mc_ConnectionWindowSize mux_DefaultConfig\<rparr> else c);
          c = (if mc_KeepAliveInterval c = 0
               then c\<lparr>mc_KeepAliveInterval := mc_KeepAliveInterval mux_DefaultConfig\<rparr> else c);
          c = (if mc_KeepAliveTimeout c = 0
               then c\<lparr>mc_KeepAliveTimeout := mc_KeepAliveTimeout mux_DefaultConfig\<rparr> else c)
      in (Inr (), c))"

text \<open>A configuration no field of which is left to its zero value.\<close>

definition mux_complete :: "mux_config \<Rightarrow> bool" where
  "mux_complete c \<longleftrightarrow> mc_MaxStreams c \<noteq> 0 \<and> mc_StreamWindowSize c \<noteq> 0 \<and> mc_ConnectionWindowSize c \<noteq> 0 \<and>
     mc_KeepAliveInterval c \<noteq> 0 \<and> mc_KeepAliveTimeout c \<noteq> 0"

lemma mux_Validate_complete: "mux_complete c \<Longrightarrow> mux_Validate c = (Inr (), c)"
  by (simp add: mux_Validate_def mux_complete_def)

lemma mux_complete_Validate: "mux_complete (snd (mux_Validate c))"
  by (simp add: mux_complete_def mux_Validate_def Let_def mux_DefaultConfig_def time_Second_def)

text \<open>\<open>Validate\<close> never fails. It replaces exactly the zero fields by their
  defaults, after which no field is zero, so validating again changes nothing; the default
  configuration is already valid.\<close>

theorem mux_Validate_fills_zeros:
  "fst (mux_Validate c) = Inr () \<and> mux_complete (snd (mux_Validate c)) \<and>
   mux_Validate (snd (mux_Validate c)) = (Inr (), snd (mux_Validate c)) \<and>
   snd (mux_Validate c) =
     \<lparr>mc_MaxStreams = (if mc_MaxStreams c = 0 then 1024 else mc_MaxStreams c),
      mc_StreamWindowSize = (if mc_StreamWindowSize c = 0 then 262144 else mc_StreamWindowSize c),
      mc_ConnectionWindowSize =
        (if mc_ConnectionWindowSize c = 0 then 1048576 else mc_ConnectionWindowSize c),
      mc_KeepAliveInterval = (if mc_KeepAliveInterval c = 0 then 30000000000 else mc_KeepAliveInterval c),
      mc_KeepAliveTimeout = (if mc_KeepAliveTimeout c = 0 then 60000000000 else mc_KeepAliveTimeout c)\<rparr> \<and>
   mux_Validate mux_DefaultConfig = (Inr (), mux_DefaultConfig)"
proof -
  have "mux_complete mux_DefaultConfig"
    by (simp add: mux_complete_def mux_DefaultConfig_def time_Second_def)
  then have "mux_Validate mux_DefaultConfig = (Inr (), mux_DefaultConfig)"
    by (rule mux_Validate_complete)
  moreover have "fst (mux_Validate c) = Inr ()"
    by (simp add: mux_Validate_def Let_def)
  moreover have "snd (mux_Validate c) =
     \<lparr>mc_MaxStreams = (if mc_MaxStreams c = 0 then 1024 else mc_MaxStreams c),
      mc_StreamWindowSize = (if mc_StreamWindowSize c = 0 then 262144 else mc_StreamWindowSize c),
      mc_ConnectionWindowSize =
        (if mc_ConnectionWindowSize c = 0 then 1048576 else mc_ConnectionWindowSize c),
      mc_KeepAliveInterval = (if mc_KeepAliveInterval c = 0 then 30000000000 else mc_KeepAliveInterval c),
      mc_KeepAliveTimeout = (if mc_KeepAliveTimeout c = 0 then 60000000000 else mc_KeepAliveTimeout c)\<rparr>"
    by (cases c) (simp add: mux_Validate_def Let_def mux_DefaultConfig_def time_Second_def)
  ultimately show ?thesis
    using mux_complete_Validate mux_Validate_complete by blast
qed

text \<open>The yamux configuration takes over the stream window and the two
  keep-alive values and nothing else: \<open>MaxStreams\<close> and \<open>ConnectionWindowSize\<close> have no influence on it,
  so two configurations that differ only there run sessions with the same limits.\<close>

theorem mux_ToYamux_ignores_limits:
  "mux_ToYamux d (c\<lparr>mc_MaxStreams := m, mc_ConnectionWindowSize := n\<rparr>) = mux_ToYamux d c \<and>
   MaxStreamWindowSize (mux_ToYamux d c) = mc_StreamWindowSize c \<and>
   KeepAliveInterval (mux_ToYamux d c) = mc_KeepAliveInterval c \<and>
   ConnectionWriteTimeout (mux_ToYamux d c) = mc_KeepAliveTimeout c \<and>
   yamux_config.more (mux_ToYamux d c) = yamux_config.more d"
  by (simp add: mux_ToYamux_def)

end
