(* ===== verification/Proto_V2.thy ===== *)
theory Proto_V2
  imports Proto_Session Mux_Config
begin

text \<open>
  \<open>proto/server_v2.go\<close> and \<open>proto/client_v2.go\<close>: the second version of the protocol, which after the V1
  authentication turns the connection into a yamux session and registers on its first stream. Both ends
  embed their V1 counterpart and fall back to its methods.

  yamux is outside the repository. The record \<open>yamux\<close> holds the functions the code calls; it is a parameter
  of the definitions. A session is a value of any type \<open>'ses\<close>, a stream is a \<open>conn\<close>.
\<close>

record 'ses yamux =
  yx_DefaultConfig :: yamux_config
  yx_Server :: "conn \<Rightarrow> yamux_config \<Rightarrow> 'ses res"
  yx_Client :: "conn \<Rightarrow> yamux_config \<Rightarrow> 'ses res"
  yx_OpenStream :: "'ses \<Rightarrow> conn res \<times> 'ses"
  yx_AcceptStream :: "'ses \<Rightarrow> conn res \<times> 'ses"
  yx_Close :: "'ses \<Rightarrow> unit res \<times> 'ses"

text \<open>The twelve bytes both sides send: \<open>MaxStreams\<close>, \<open>StreamWindowSize\<close>, \<open>ConnectionWindowSize\<close>.\<close>

definition mux_config_bytes :: "mux_config \<Rightarrow> bytes" where
  "mux_config_bytes c = PutUint32 (mc_MaxStreams c) @ PutUint32 (mc_StreamWindowSize c) @
     PutUint32 (mc_ConnectionWindowSize c)"

lemma length_mux_config_bytes [simp]: "length (mux_config_bytes c) = 12"
  by (simp add: mux_config_bytes_def)

section \<open>The server\<close>

record 'ses server2 =
  s2_Server :: server
  s2_session :: "'ses option"
  s2_muxConfig :: mux_config
  s2_isV2 :: bool

type_synonym 'ses server2_option = "'ses server2 \<Rightarrow> 'ses server2"

definition WithMuxConfig :: "mux_config \<Rightarrow> 'ses server2_option" where
  "WithMuxConfig config s = s\<lparr>s2_muxConfig := config\<rparr>"

definition NewServerV2 :: "conn \<Rightarrow> server_option list \<Rightarrow> 'ses server2_option list \<Rightarrow> 'ses server2" where
  "NewServerV2 c baseOpts v2Opts = fold (\<lambda>opt s. opt s) v2Opts
     \<lparr>s2_Server = NewServer c baseOpts, s2_session = None, s2_muxConfig = mux_DefaultConfig, s2_isV2 = False\<rparr>"

text \<open>A method of the embedded server.\<close>

definition on_server :: "(server \<Rightarrow> 'a \<times> server) \<Rightarrow> 'ses server2 \<Rightarrow> 'a \<times> 'ses server2" where
  "on_server f s = (case f (s2_Server s) of (r, sv) \<Rightarrow> (r, s\<lparr>s2_Server := sv\<rparr>))"

definition processV2_control ::
    "(bytes \<Rightarrow> uuid res) \<Rightarrow> conn \<Rightarrow> 'ses server2 \<Rightarrow> unit res \<times> 'ses server2" where
  "processV2_control from_bytes controlStream s =
     (case readMsg controlStream of
        (Inl e, _) \<Rightarrow> (Inl (Wrap ''failed to read register command'' e), s)
      | (Inr regMsg, controlStream) \<Rightarrow>
     (if regMsg \<noteq> cmdRegister
      then (Inl (Errorf ''expected register command, got: %d'' [uint regMsg]), s)
      else case conn_Read 16 controlStream of
        (Inl e, _) \<Rightarrow> (Inl (Wrap ''failed to read register UUID'' e), s)
      | (Inr got, controlStream) \<Rightarrow>
     (case from_bytes (fill_buf 16 got) of
        Inl e \<Rightarrow> (Inl (Wrap ''failed to parse UUID'' e), s)
      | Inr uid \<Rightarrow>
     (let s = s\<lparr>s2_Server := (s2_Server s)\<lparr>s_id := uid, s_state := StateRegistered\<rparr>\<rparr> in
      case conn_Write [versionV1, resSuccess] controlStream of
        (Inl e, _) \<Rightarrow> (Inl (Wrap ''failed to write register response'' e), s)
      | (Inr _, controlStream) \<Rightarrow> (Inr (), s\<lparr>s2_Server := (s2_Server s)\<lparr>s_conn := controlStream\<rparr>\<rparr>)))))"

definition processV2AfterAuth ::
    "'ses yamux \<Rightarrow> (bytes \<Rightarrow> uuid res) \<Rightarrow> 'ses server2 \<Rightarrow> unit res \<times> 'ses server2" where
  "processV2AfterAuth y from_bytes s =
     (case on_server (on_conn (io_ReadFull 12)) s of
        (Inl e, s) \<Rightarrow> (Inl (Wrap ''failed to read mux config'' e), s)
      | (Inr _, s) \<Rightarrow>
     (case on_server (on_conn (conn_Write [versionV1, cmdMuxReady])) s of
        (Inl e, s) \<Rightarrow> (Inl (Wrap ''failed to write mux ready'' e), s)
      | (Inr _, s) \<Rightarrow>
     (case on_server (on_conn (conn_Write (mux_config_bytes (s2_muxConfig s)))) s of
        (Inl e, s) \<Rightarrow> (Inl (Wrap ''failed to write mux config'' e), s)
      | (Inr _, s) \<Rightarrow>
     (case yx_Server y (s_conn (s2_Server s)) (mux_ToYamux (yx_DefaultConfig y) (s2_muxConfig s)) of
        Inl e \<Rightarrow> (Inl (Wrap ''failed to create yamux session'' e), s)
      | Inr session \<Rightarrow>
     (case yx_AcceptStream y session of
        (Inl e, session) \<Rightarrow> (Inl (Wrap ''failed to accept control stream'' e),
           s\<lparr>s2_session := Some session, s2_isV2 := True\<rparr>)
      | (Inr controlStream, session) \<Rightarrow>
          processV2_control from_bytes controlStream (s\<lparr>s2_session := Some session, s2_isV2 := True\<rparr>))))))"

definition ServerV2_Process ::
    "'ses yamux \<Rightarrow> (bytes \<Rightarrow> uuid res) \<Rightarrow> 'ses server2 \<Rightarrow> unit res \<times> 'ses server2" where
  "ServerV2_Process y from_bytes s =
     (if s_state (s2_Server s) \<noteq> StateConnected then (Inl (unexpected_state (s2_Server s)), s)
      else
        let s = s\<lparr>s2_Server := (s2_Server s)\<lparr>s_state := StateProcessing\<rparr>\<rparr> in
        case on_server Server_handleInit s of
          (Inl e, s) \<Rightarrow> (Inl (Wrap ''failed to handle init'' e), s\<lparr>s2_Server := server_close_conn (s2_Server s)\<rparr>)
        | (Inr _, s) \<Rightarrow>
        (case on_server (on_conn readMsg) s of
          (Inl e, s) \<Rightarrow> (Inl (Wrap ''failed to read command'' e), s\<lparr>s2_Server := server_close_conn (s2_Server s)\<rparr>)
        | (Inr msg, s) \<Rightarrow>
            if msg = cmdMuxInit then processV2AfterAuth y from_bytes s
            else if msg = cmdRegister then on_server (Server_handleRegister from_bytes) s
            else if msg = cmdBind then on_server (Server_handleBind from_bytes) s
            else (Inl (Errorf ''unsupported command: %d'' [uint msg]), s)))"

definition ServerV2_IsV2 :: "'ses server2 \<Rightarrow> bool" where
  "ServerV2_IsV2 s = s2_isV2 s"

definition ServerV2_Session :: "'ses server2 \<Rightarrow> 'ses option" where
  "ServerV2_Session s = s2_session s"

definition ServerV2_AcceptStream :: "'ses yamux \<Rightarrow> 'ses server2 \<Rightarrow> conn res \<times> 'ses server2" where
  "ServerV2_AcceptStream y s =
     (case s2_session s of
        Some session \<Rightarrow>
          (if \<not> s2_isV2 s then (Inl (Errorf ''not a V2 connection'' []), s)
           else case yx_AcceptStream y session of
             (Inl e, session) \<Rightarrow> (Inl (Wrap ''failed to accept stream'' e), s\<lparr>s2_session := Some session\<rparr>)
           | (Inr stream, session) \<Rightarrow> (Inr stream, s\<lparr>s2_session := Some session\<rparr>))
      | None \<Rightarrow> (Inl (Errorf ''not a V2 connection'' []), s))"

definition SendConnectCommandV2 :: "uuid \<Rightarrow> 'ses server2 \<Rightarrow> unit res \<times> 'ses server2" where
  "SendConnectCommandV2 uid s =
     (if s_state (s2_Server s) \<noteq> StateRegistered then (Inl (unexpected_state (s2_Server s)), s)
      else case on_server (on_conn (sendRequest (cmdConnect # uid))) s of
        (Inl e, s) \<Rightarrow> (Inl (Wrap ''failed to send connect command'' e), s)
      | (Inr resp, s) \<Rightarrow>
          if resp \<noteq> resSuccess then (Inl (Errorf ''failed to connect: %d'' [uint resp]), s)
          else (Inr (), s))"

definition ServerV2_SendConnectCommand :: "uuid \<Rightarrow> 'ses server2 \<Rightarrow> unit res \<times> 'ses server2" where
  "ServerV2_SendConnectCommand uid s =
     (if s2_isV2 s then SendConnectCommandV2 uid s else on_server (Server_SendConnectCommand uid) s)"

definition ServerV2_SendCustomEvent ::
    "(custom_event \<Rightarrow> bytes res) \<Rightarrow> string \<Rightarrow> bytes res \<Rightarrow> 'ses server2 \<Rightarrow> unit res \<times> 'ses server2" where
  "ServerV2_SendCustomEvent json_Marshal eventName data s =
     on_server (Server_SendCustomEvent json_Marshal eventName data) s"

definition ServerV2_Close :: "'ses yamux \<Rightarrow> 'ses server2 \<Rightarrow> unit res \<times> 'ses server2" where
  "ServerV2_Close y s =
     (let s = (case s2_session s of
                 None \<Rightarrow> s
               | Some session \<Rightarrow> s\<lparr>s2_session := Some (snd (yx_Close y session))\<rparr>)
      in on_server Server_Close s)"

section \<open>The client\<close>

record 'ses client2 =
  c2_Client :: client
  c2_session :: "'ses option"
  c2_muxConfig :: mux_config
  c2_isV2 :: bool

type_synonym 'ses client2_option = "'ses client2 \<Rightarrow> 'ses client2"

definition WithMuxConfigClient :: "mux_config \<Rightarrow> 'ses client2_option" where
  "WithMuxConfigClient config c = c\<lparr>c2_muxConfig := config\<rparr>"

definition NewClientV2 ::
    "conn \<Rightarrow> client_option list \<Rightarrow> 'ses client2_option list \<Rightarrow> 'ses client2 outcome" where
  "NewClientV2 c baseOpts v2Opts =
     (case NewClient c baseOpts of
        Panic m \<Rightarrow> Panic m
      | Return cl \<Rightarrow> Return (fold (\<lambda>opt c. opt c) v2Opts
          \<lparr>c2_Client = cl, c2_session = None, c2_muxConfig = mux_DefaultConfig, c2_isV2 = False\<rparr>))"

definition on_client :: "(client \<Rightarrow> 'a \<times> client) \<Rightarrow> 'ses client2 \<Rightarrow> 'a \<times> 'ses client2" where
  "on_client f c = (case f (c2_Client c) of (r, cl) \<Rightarrow> (r, c\<lparr>c2_Client := cl\<rparr>))"

text \<open>
  Up to the start of the goroutine that serves commands, \<open>Client_serve\<close>; its first statement, which
  makes the control stream the client's connection, is the last step here.
\<close>

definition tryV2Registration :: "'ses yamux \<Rightarrow> uuid \<Rightarrow> 'ses client2 \<Rightarrow> unit res \<times> 'ses client2" where
  "tryV2Registration y uid c =
     (case on_client Client_establish c of
        (Inl e, c) \<Rightarrow> (Inl (Wrap ''failed to establish connection'' e), c)
      | (Inr _, c) \<Rightarrow>
     (case on_client (cl_io (sendRequest (cmdMuxInit # mux_config_bytes (c2_muxConfig c)))) c of
        (Inl e, c) \<Rightarrow> (Inl (Wrap ''server does not support V2 or connection error'' e), c)
      | (Inr resp, c) \<Rightarrow>
     (if resp \<noteq> cmdMuxReady
      then (Inl (Errorf ''server does not support V2: response %d'' [uint resp]), c)
      else case on_client (cl_io (io_ReadFull 12)) c of
        (Inl e, c) \<Rightarrow> (Inl (Wrap ''failed to read mux config'' e), c)
      | (Inr _, c) \<Rightarrow>
     (case yx_Client y (cl_conn (c2_Client c)) (mux_ToYamux (yx_DefaultConfig y) (c2_muxConfig c)) of
        Inl e \<Rightarrow> (Inl (Wrap ''failed to create yamux session'' e), c)
      | Inr session \<Rightarrow>
     (case yx_OpenStream y session of
        (Inl e, session) \<Rightarrow> (Inl (Wrap ''failed to open control stream'' e),
           c\<lparr>c2_session := Some session, c2_isV2 := True\<rparr>)
      | (Inr controlStream, session) \<Rightarrow>
     (let c = c\<lparr>c2_session := Some session, c2_isV2 := True\<rparr> in
      case sendRequest (cmdRegister # uid) controlStream of
        (Inl e, _) \<Rightarrow> (Inl (Wrap ''failed to send register'' e), c)
      | (Inr regResp, controlStream) \<Rightarrow>
          if regResp \<noteq> resSuccess then (Inl (Errorf ''registration failed: %d'' [uint regResp]), c)
          else (Inr (), c\<lparr>c2_Client := (c2_Client c)\<lparr>cl_state := client_registered,
                  cl_conn := controlStream\<rparr>\<rparr>)))))))"

definition registerV1 :: "uuid \<Rightarrow> 'ses client2 \<Rightarrow> unit res \<times> 'ses client2" where
  "registerV1 uid c =
     (let c = c\<lparr>c2_isV2 := False\<rparr> in
      case on_client Client_establish c of
        (Inl e, c) \<Rightarrow> (Inl (Wrap ''failed to establish connection'' e), c\<lparr>c2_Client := client_cancel (c2_Client c)\<rparr>)
      | (Inr _, c) \<Rightarrow>
     (case on_client (Client_handleRegister uid) c of
        (Inl e, c) \<Rightarrow> (Inl (Wrap ''failed to handle register'' e), c\<lparr>c2_Client := client_cancel (c2_Client c)\<rparr>)
      | (Inr _, c) \<Rightarrow> (Inr (), c\<lparr>c2_Client := (c2_Client c)\<lparr>cl_state := client_registered\<rparr>\<rparr>)))"

definition ClientV2_Register :: "'ses yamux \<Rightarrow> bool list \<Rightarrow> uuid \<Rightarrow> 'ses client2 \<Rightarrow> unit res \<times> 'ses client2" where
  "ClientV2_Register y ctx uid c =
     (if cl_state (c2_Client c) \<noteq> client_connected then (Inl (client_unexpected_state (c2_Client c)), c)
      else
        let c = c\<lparr>c2_Client := (c2_Client c)\<lparr>cl_state := client_processing, cl_cancel := True, cl_sched := ctx\<rparr>\<rparr> in
        if cl_disableV2 (c2_Client c) then registerV1 uid c
        else case tryV2Registration y uid c of
          (Inl e, c) \<Rightarrow> (Inl (Wrap ''V2 registration failed and fallback requires reconnection'' e), c)
        | (Inr _, c) \<Rightarrow> (Inr (), c))"

text \<open>On the error paths the stream is closed; nothing refers to it any more.\<close>

definition bindV2Stream :: "'ses yamux \<Rightarrow> uuid \<Rightarrow> 'ses client2 \<Rightarrow> unit res \<times> 'ses client2" where
  "bindV2Stream y uid c =
     (case c2_session c of
        None \<Rightarrow> (Inl (Errorf ''no yamux session available'' []), c)
      | Some session \<Rightarrow>
     (case yx_OpenStream y session of
        (Inl e, session) \<Rightarrow> (Inl (Wrap ''failed to open stream'' e), c\<lparr>c2_session := Some session\<rparr>)
      | (Inr stream, session) \<Rightarrow>
     (let c = c\<lparr>c2_session := Some session\<rparr> in
      case sendRequest (cmdBind # uid) stream of
        (Inl e, _) \<Rightarrow> (Inl (Wrap ''failed to send bind'' e), c)
      | (Inr resp, stream) \<Rightarrow>
          if resp \<noteq> resSuccess then (Inl (Errorf ''bind failed: %d'' [uint resp]), c)
          else (Inr (), c\<lparr>c2_Client := (c2_Client c)\<lparr>cl_state := client_bound, cl_conn := stream\<rparr>\<rparr>))))"

definition ClientV2_Bind :: "'ses yamux \<Rightarrow> bool list \<Rightarrow> uuid \<Rightarrow> 'ses client2 \<Rightarrow> unit res \<times> 'ses client2" where
  "ClientV2_Bind y ctx uid c =
     (if c2_isV2 c then bindV2Stream y uid c else on_client (Client_Bind ctx uid) c)"

definition ClientV2_IsV2 :: "'ses client2 \<Rightarrow> bool" where
  "ClientV2_IsV2 c = c2_isV2 c"

definition ClientV2_Session :: "'ses client2 \<Rightarrow> 'ses option" where
  "ClientV2_Session c = c2_session c"

definition ClientV2_Close :: "'ses yamux \<Rightarrow> bool \<Rightarrow> 'ses client2 \<Rightarrow> unit res \<times> 'ses client2" where
  "ClientV2_Close y watcher_first c =
     (let c = (case c2_session c of
                 Some session \<Rightarrow>
                   (if c2_isV2 c then c\<lparr>c2_session := Some (snd (yx_Close y session))\<rparr> else c)
               | None \<Rightarrow> c)
      in on_client (Client_Close watcher_first) c)"

section \<open>Backward compatibility\<close>

lemma on_server_eq [conn_simps]: "f (s2_Server s) = (r, sv) \<Longrightarrow> on_server f s = (r, s\<lparr>s2_Server := sv\<rparr>)"
  by (simp add: on_server_def)

lemma on_serverD: "on_server f s = (r, s') \<Longrightarrow> f (s2_Server s) = (r, s2_Server s') \<and>
    s2_session s' = s2_session s \<and> s2_muxConfig s' = s2_muxConfig s \<and> s2_isV2 s' = s2_isV2 s"
  by (auto simp: on_server_def split: prod.splits)

lemma processV2_control_isV2: "processV2_control fb ctl s = (r, s') \<Longrightarrow> s2_isV2 s' = s2_isV2 s"
  by (auto simp: processV2_control_def Let_def split: prod.splits sum.splits if_splits)

lemma processV2AfterAuth_isV2:
  "processV2AfterAuth y fb s = (Inr u, s') \<Longrightarrow> s2_isV2 s'"
  by (auto simp: processV2AfterAuth_def split: prod.splits sum.splits dest!: processV2_control_isV2)

lemma Server_handleCommand_eq:
  assumes "on_conn readMsg s = (Inr msg, s')"
  shows "Server_handleCommand fb s =
    (if msg = cmdRegister then Server_handleRegister fb s' else if msg = cmdBind then Server_handleBind fb s'
     else (Inl (Errorf ''unsupported command: %d'' [uint msg]), s'))"
  using assms by (simp add: Server_handleCommand_def)

lemma ServerV2_V1:
  assumes "\<not> s2_isV2 s"
  shows "Server_Process fb (s2_Server s) = (Inr (), sv) \<longleftrightarrow>
    ServerV2_Process y fb s = (Inr (), s\<lparr>s2_Server := sv\<rparr>)"
proof (cases "s_state (s2_Server s) = StateConnected")
  case True
  let ?sv = "(s2_Server s)\<lparr>s_state := StateProcessing\<rparr>"
  obtain r1 s1 where init: "Server_handleInit ?sv = (r1, s1)" by fastforce
  obtain r2 s2 where msg: "on_conn readMsg s1 = (r2, s2)" by fastforce
  have mux: "processV2AfterAuth y fb q \<noteq> (Inr (), s\<lparr>s2_Server := sv\<rparr>)" for q
    using processV2AfterAuth_isV2 [of y fb q "()" "s\<lparr>s2_Server := sv\<rparr>"] assms by auto
  have eq: "s\<lparr>s2_Server := a\<rparr> = s\<lparr>s2_Server := b\<rparr> \<longleftrightarrow> a = b" for a b
    by (metis server2.select_convs(1) server2.surjective server2.update_convs(1))
  show ?thesis
  proof (cases "r1 = Inr () \<and> (\<exists>m. r2 = Inr m)")
    case True
    then obtain m where "r1 = Inr ()" "r2 = Inr m" by blast
    with \<open>s_state (s2_Server s) = StateConnected\<close> show ?thesis
      using init msg mux eq Server_handleCommand_eq [of s1 m s2 fb]
      by (auto simp: Server_Process_def ServerV2_Process_def on_server_def wire_consts
          split: prod.splits sum.splits)
  next
    case False
    with \<open>s_state (s2_Server s) = StateConnected\<close> show ?thesis
      using init msg
      by (cases r1; cases r2) (auto simp: Server_Process_def ServerV2_Process_def on_server_def
          Server_handleCommand_def split: prod.splits sum.splits)
  qed
qed (simp add: Server_Process_def ServerV2_Process_def)

text \<open>C16 \<open>ServerV2_serves_V1\<close>. The V2 server is a V1 server for V1 clients: on a fresh server, the V2 handshake
  succeeds without a session exactly when the V1 handshake succeeds on the same bytes, and
  then with the same server. In particular the server a V1 client registers with is the one of the V1 code.\<close>

theorem ServerV2_serves_V1:
  assumes "\<not> s2_isV2 s"
  shows "Server_Process fb (s2_Server s) = (Inr (), sv) \<longleftrightarrow>
    ServerV2_Process y fb s = (Inr (), s\<lparr>s2_Server := sv\<rparr>)"
  using assms by (rule ServerV2_V1)

text \<open>Sessions that remember their transport, with one scripted stream on each side.\<close>

definition example_yamux :: "conn yamux" where
  "example_yamux =
     \<lparr>yx_DefaultConfig = \<lparr>MaxStreamWindowSize = 0, KeepAliveInterval = 0, ConnectionWriteTimeout = 0\<rparr>,
      yx_Server = (\<lambda>tcp _. Inr tcp), yx_Client = (\<lambda>tcp _. Inr tcp),
      yx_OpenStream = (\<lambda>ses. (Inr (mk_conn [[1, 0]]), ses)),
      yx_AcceptStream = (\<lambda>ses. (Inr (mk_conn [[1, 1] @ replicate 16 7]), ses)),
      yx_Close = (\<lambda>ses. (Inr (), ses))\<rparr>"

theorem ServerV2_serves_V1_witness:
  "fst (ServerV2_Process example_yamux from_bytes16
      (NewServerV2 (mk_conn [[1, 1, 0], [1, 1] @ replicate 16 7]) [] [])) = Inr ()"
proof -
  let ?s = "NewServerV2 (mk_conn [[1, 1, 0], [1, 1] @ replicate 16 7]) [] [] :: conn server2"
  let ?r = "Server_Process from_bytes16 (s2_Server ?s)"
  have "fst ?r = Inr ()" by code_simp
  then have run: "?r = (Inr (), snd ?r)" by (rule fst_eq_pair)
  have "\<not> s2_isV2 ?s"
    by (simp add: NewServerV2_def)
  from ServerV2_serves_V1 [OF this, THEN iffD1, OF run]
  have "ServerV2_Process example_yamux from_bytes16 ?s = (Inr (), ?s\<lparr>s2_Server := snd ?r\<rparr>)" .
  then show ?thesis by simp
qed

lemma ServerV2_accepted:
  assumes "ServerV2_Process y fb s = (r, s')" "\<not> s_noAuth (s2_Server s)" "\<not> s2_isV2 s"
    and "r = Inr () \<or> s2_isV2 s'"
  shows "\<exists>auth user pass. s_userPassAuth (s2_Server s) = Some auth \<and> auth user pass \<and> user \<noteq> [] \<and> pass \<noteq> []"
proof -
  let ?sv = "(s2_Server s)\<lparr>s_state := StateProcessing\<rparr>"
  obtain r1 s1 where init: "Server_handleInit ?sv = (r1, s1)" by fastforce
  have "r1 = Inr ()"
    using assms init by (cases r1) (auto simp: ServerV2_Process_def on_server_def split: if_splits)
  with init have "Server_handleInit ?sv = (Inr (), s1)" by simp
  then obtain m s0 where "only_conn ?sv s0" "Server_handleAuth m s0 = (Inr (), s1)"
    by (rule handleInit_Inr)
  then show ?thesis
    using handleAuth_Inr [of m s0 "()" s1] assms(2) by (auto simp: only_conn_def)
qed



section \<open>V1 mode of the client\<close>

lemma on_client_eq [conn_simps]: "f (c2_Client c) = (r, cl) \<Longrightarrow> on_client f c = (r, c\<lparr>c2_Client := cl\<rparr>)"
  by (simp add: on_client_def)

text \<open>C17 \<open>ClientV2_disabled_is_V1\<close>. With V2 disabled, which is the listener's default, \<open>Register\<close> of the V2 client is that of the
  V1 client: the same bytes are exchanged, the embedded client ends in the same state, and the calls
  succeed on the same connections; there is no session.\<close>

theorem ClientV2_disabled_is_V1:
  assumes "cl_disableV2 (c2_Client c)"
  shows "c2_Client (snd (ClientV2_Register y ctx uid c)) = snd (Client_Register ctx uid (c2_Client c)) \<and>
    (fst (ClientV2_Register y ctx uid c) = Inr () \<longleftrightarrow> fst (Client_Register ctx uid (c2_Client c)) = Inr ()) \<and>
    c2_session (snd (ClientV2_Register y ctx uid c)) = c2_session c"
  using assms
  by (auto simp: ClientV2_Register_def Client_Register_def registerV1_def on_client_def Let_def
      split: prod.splits sum.splits)

theorem ClientV2_disabled_is_V1_witness:
  "\<exists>c. NewClientV2 (mk_conn [[1, 0], [1, 0]]) [WithDisableV2Fallback] [] = Return c \<and>
     fst (ClientV2_Register example_yamux [] (replicate 16 5) c) = Inr ()"
proof -
  let ?cl = "(example_client [[1, 0], [1, 0]])\<lparr>cl_disableV2 := True\<rparr>"
  let ?c = "\<lparr>c2_Client = ?cl, c2_session = None, c2_muxConfig = mux_DefaultConfig, c2_isV2 = False\<rparr>"
  have "NewClientV2 (mk_conn [[1, 0], [1, 0]]) [WithDisableV2Fallback] [] = Return ?c"
    by (simp add: NewClientV2_def NewClient_def WithDisableV2Fallback_def example_client_def wire_consts)
  moreover have "fst (Client_Register [] (replicate 16 5) ?cl) = Inr ()"
    by code_simp
  then have "fst (ClientV2_Register example_yamux [] (replicate 16 5) ?c) = Inr ()"
    using ClientV2_disabled_is_V1 [of ?c example_yamux "[]" "replicate 16 5"] by simp
  ultimately show ?thesis by blast
qed

section \<open>A multiplexed session\<close>

text \<open>
  What the code relies on: a session can be made on every connection, it keeps its transport, and opening or
  accepting a stream gives one with the bytes the other side writes on it.
\<close>

definition yamux_streams :: "'ses yamux \<Rightarrow> ('ses \<Rightarrow> conn) \<Rightarrow> bytes list \<Rightarrow> bytes list \<Rightarrow> bool" where
  "yamux_streams y transport opened accepted \<longleftrightarrow>
     (\<forall>tcp cfg. (\<exists>ses. yx_Client y tcp cfg = Inr ses \<and> transport ses = tcp) \<and>
                (\<exists>ses. yx_Server y tcp cfg = Inr ses \<and> transport ses = tcp)) \<and>
     (\<forall>ses. (\<exists>ses'. yx_OpenStream y ses = (Inr (mk_conn opened), ses') \<and> transport ses' = transport ses) \<and>
            (\<exists>ses'. yx_AcceptStream y ses = (Inr (mk_conn accepted), ses') \<and> transport ses' = transport ses))"

lemma yamux_streamsD:
  assumes "yamux_streams y transport opened accepted"
  shows "\<exists>ses. yx_Client y tcp cfg = Inr ses \<and> transport ses = tcp"
    "\<exists>ses. yx_Server y tcp cfg = Inr ses \<and> transport ses = tcp"
    "\<exists>ses'. yx_OpenStream y ses = (Inr (mk_conn opened), ses') \<and> transport ses' = transport ses"
    "\<exists>ses'. yx_AcceptStream y ses = (Inr (mk_conn accepted), ses') \<and> transport ses' = transport ses"
  using assms by (simp_all add: yamux_streams_def)

lemma tryV2_live:
  assumes "yamux_streams y transport [[versionV1, resSuccess]] accepted" "length cfg = 12"
    and "conn_live (cl_conn (c2_Client c))" "speaks creds (c2_Client c)"
    and "c_rx (cl_conn (c2_Client c)) = reception creds @ [[versionV1, cmdMuxReady], cfg]"
    and "c_tx (cl_conn (c2_Client c)) = []"
  shows "\<exists>c' ses. tryV2Registration y uid c = (Inr (), c') \<and> c2_isV2 c' \<and> c2_session c' = Some ses \<and>
    c_tx (transport ses) = concat (greeting creds) @ [versionV1, cmdMuxInit] @ mux_config_bytes (c2_muxConfig c) \<and>
    cl_state (c2_Client c') = client_registered \<and> c_tx (cl_conn (c2_Client c')) = [versionV1, cmdRegister] @ uid"
proof -
  let ?cl = "c2_Client c"
  let ?tcp = "(cl_conn ?cl)\<lparr>c_rx := [],
     c_tx := concat (greeting creds) @ [versionV1, cmdMuxInit] @ mux_config_bytes (c2_muxConfig c)\<rparr>"
  let ?cl3 = "?cl\<lparr>cl_conn := ?tcp\<rparr>"
  have 1: "on_client Client_establish c = (Inr (), c\<lparr>c2_Client := ?cl\<lparr>cl_conn := (cl_conn ?cl)\<lparr>
      c_rx := [[versionV1, cmdMuxReady], cfg], c_tx := concat (greeting creds)\<rparr>\<rparr>\<rparr>)" (is "_ = (_, ?c1)")
    using establish_greeting [OF assms(4,3,5)] assms(6) by (simp add: on_client_def)
  have 2: "on_client (cl_io (sendRequest (cmdMuxInit # mux_config_bytes (c2_muxConfig ?c1)))) ?c1 =
      (Inr cmdMuxReady, c\<lparr>c2_Client := ?cl\<lparr>cl_conn := ?tcp\<lparr>c_rx := [cfg]\<rparr>\<rparr>\<rparr>)" (is "_ = (_, ?c2)")
    using assms(2,3) by (simp add: conn_simps avail_def)
  have 3: "on_client (cl_io (io_ReadFull 12)) ?c2 = (Inr cfg, c\<lparr>c2_Client := ?cl3\<rparr>)"
    using assms(2,3) by (simp add: conn_simps avail_def)
  obtain ses where ses: "yx_Client y ?tcp (mux_ToYamux (yx_DefaultConfig y) (c2_muxConfig c)) = Inr ses"
      "transport ses = ?tcp"
    using yamux_streamsD(1) [OF assms(1)] by blast
  obtain ses' where ses': "yx_OpenStream y ses = (Inr (mk_conn [[versionV1, resSuccess]]), ses')"
      "transport ses' = transport ses"
    using yamux_streamsD(3) [OF assms(1)] by blast
  have "sendRequest (cmdRegister # uid) (mk_conn [[versionV1, resSuccess]]) =
      (Inr resSuccess, (mk_conn [])\<lparr>c_tx := [versionV1, cmdRegister] @ uid\<rparr>)"
    by (simp add: conn_simps) (simp add: mk_conn_def)
  then show ?thesis
    unfolding tryV2Registration_def 1 using 2 3 ses ses' by simp
qed

lemma processV2_control_live:
  assumes "uuid_FromBytes_ok fb" "length uid = 16"
  shows "processV2_control fb (mk_conn [[versionV1, cmdRegister] @ uid]) s = (Inr (), s\<lparr>s2_Server :=
    (s2_Server s)\<lparr>s_id := uid, s_state := StateRegistered, s_conn := (mk_conn [])\<lparr>c_tx := [versionV1, resSuccess]\<rparr>\<rparr>\<rparr>)"
proof -
  have "uid \<noteq> []" using assms(2) by auto
  then have "readMsg (mk_conn [[versionV1, cmdRegister] @ uid]) = (Inr cmdRegister, mk_conn [uid])"
    by (subst readMsg_msg [where m = cmdRegister and rest = uid]) (simp_all, simp add: mk_conn_def)
  moreover have "conn_Read 16 (mk_conn [uid]) = (Inr uid, mk_conn [])"
    using assms(2) by (subst conn_Read_live [where seg = uid and segs = "[]"]) (simp_all, simp add: mk_conn_def)
  ultimately show ?thesis
    using assms by (simp add: processV2_control_def conn_simps)
qed

lemma processV2AfterAuth_live:
  assumes "yamux_streams y transport opened [[versionV1, cmdRegister] @ uid]" "uuid_FromBytes_ok fb"
    and "length uid = 16" "length cfg = 12" "conn_live (s_conn (s2_Server s))" "c_rx (s_conn (s2_Server s)) = [cfg]"
  shows "\<exists>s' ses. processV2AfterAuth y fb s = (Inr (), s') \<and> s2_isV2 s' \<and> s2_session s' = Some ses \<and>
    c_tx (transport ses) = c_tx (s_conn (s2_Server s)) @ [versionV1, cmdMuxReady] @ mux_config_bytes (s2_muxConfig s) \<and>
    s_state (s2_Server s') = StateRegistered \<and> s_id (s2_Server s') = uid \<and>
    c_tx (s_conn (s2_Server s')) = [versionV1, resSuccess]"
proof -
  let ?sv = "s2_Server s"
  let ?tx = "c_tx (s_conn ?sv) @ [versionV1, cmdMuxReady]"
  let ?tcp = "(s_conn ?sv)\<lparr>c_rx := [], c_tx := ?tx @ mux_config_bytes (s2_muxConfig s)\<rparr>"
  have 1: "on_server (on_conn (io_ReadFull 12)) s =
      (Inr cfg, s\<lparr>s2_Server := ?sv\<lparr>s_conn := (s_conn ?sv)\<lparr>c_rx := []\<rparr>\<rparr>\<rparr>)" (is "_ = (_, ?s1)")
    using assms(4-6) by (simp add: conn_simps avail_def)
  have 2: "on_server (on_conn (conn_Write [versionV1, cmdMuxReady])) ?s1 =
      (Inr (), s\<lparr>s2_Server := ?sv\<lparr>s_conn := (s_conn ?sv)\<lparr>c_rx := [], c_tx := ?tx\<rparr>\<rparr>\<rparr>)" (is "_ = (_, ?s2)")
    using assms(5) by (simp add: conn_simps)
  have 3: "on_server (on_conn (conn_Write (mux_config_bytes (s2_muxConfig ?s2)))) ?s2 =
      (Inr (), s\<lparr>s2_Server := ?sv\<lparr>s_conn := ?tcp\<rparr>\<rparr>)" (is "_ = (_, ?s3)")
    using assms(5) by (simp add: conn_simps)
  obtain ses where ses: "yx_Server y ?tcp (mux_ToYamux (yx_DefaultConfig y) (s2_muxConfig s)) = Inr ses"
      "transport ses = ?tcp"
    using yamux_streamsD(2) [OF assms(1)] by blast
  obtain ses' where ses': "yx_AcceptStream y ses = (Inr (mk_conn [[versionV1, cmdRegister] @ uid]), ses')"
      "transport ses' = transport ses"
    using yamux_streamsD(4) [OF assms(1)] by blast
  show ?thesis
    unfolding processV2AfterAuth_def 1
    using 2 3 ses ses' by (simp add: processV2_control_live [OF assms(2,3), simplified])
qed



section \<open>No fallback\<close>

definition client_same :: "client \<Rightarrow> client \<Rightarrow> bool" where
  "client_same c c' \<longleftrightarrow> cl_state c' = cl_state c \<and> c_closed (cl_conn c') = c_closed (cl_conn c) \<and>
     cl_cancelled c' = cl_cancelled c"

lemma cl_io_same:
  "cl_io (sendRequest req) c = (r, c') \<Longrightarrow> client_same c c'"
  "cl_io (io_ReadFull n) c = (r2, c') \<Longrightarrow> client_same c c'"
  by (auto simp: cl_io_def client_same_def split: prod.splits dest: sendRequest_frame io_ReadFull_frame)

lemma establish_same: "Client_establish c = (r, c') \<Longrightarrow> client_same c c'"
  by (auto simp: Client_establish_def Client_handleAuth_def Let_def split: prod.splits sum.splits if_splits
      dest!: cl_io_same(1)) (auto simp: client_same_def)

lemma on_client_same:
  "on_client f c = (r, c') \<Longrightarrow> (\<And>r cl. f (c2_Client c) = (r, cl) \<Longrightarrow> client_same (c2_Client c) cl) \<Longrightarrow>
     client_same (c2_Client c) (c2_Client c')"
  by (auto simp: on_client_def split: prod.splits)

lemmas on_client_sames =
  on_client_same [where f = Client_establish, OF _ establish_same]
  on_client_same [where f = "cl_io (sendRequest req)" for req, OF _ cl_io_same(1)]
  on_client_same [where f = "cl_io (io_ReadFull n)" for n, OF _ cl_io_same(2)]

lemma tryV2_Inl:
  "tryV2Registration y uid c = (Inl e, c') \<Longrightarrow> client_same (c2_Client c) (c2_Client c')"
  unfolding tryV2Registration_def
  by (auto simp: Let_def split: prod.splits sum.splits if_splits dest!: on_client_sames)
     (auto simp: client_same_def)



end
