(* ===== verification/Conn_Manager.thy ===== *)
theory Conn_Manager
  imports Proto_Server
begin

text \<open>
  \<open>connmng/manager.go\<close>: the dialer's registry of control connections, a slice searched by identifier
  and handed out round robin. The manager only knows its connections through the interface
  \<open>ServerConn\<close>; here a connection is a reference \<open>'r\<close> into a world \<open>'w\<close>, and the methods the manager
  calls are the parameters \<open>ID\<close> and \<open>Close\<close>. The manager's methods run under its mutex.
\<close>

section \<open>Model\<close>

record 'r conn_manager =
  cm_connections :: "'r list"
  cm_current :: nat

definition ConnManager_New :: "'r conn_manager" where
  "ConnManager_New = \<lparr>cm_connections = [], cm_current = 0\<rparr>"

definition ConnManager_AddConnection ::
    "('w \<Rightarrow> 'r \<Rightarrow> uuid) \<Rightarrow> ('r \<Rightarrow> 'w \<Rightarrow> unit res \<times> 'w) \<Rightarrow> 'r \<Rightarrow> 'w \<Rightarrow> 'r conn_manager
       \<Rightarrow> 'w \<times> 'r conn_manager" where
  "ConnManager_AddConnection ID Close serv w b =
     (case find_conn (\<lambda>conn. ID w conn = ID w serv) (cm_connections b) of
        Some i \<Rightarrow>
          (snd (Close (cm_connections b ! i) w), b\<lparr>cm_connections := (cm_connections b)[i := serv]\<rparr>)
      | None \<Rightarrow> (w, b\<lparr>cm_connections := cm_connections b @ [serv]\<rparr>))"

definition ConnManager_RemoveConnection ::
    "('w \<Rightarrow> 'r \<Rightarrow> uuid) \<Rightarrow> ('r \<Rightarrow> 'w \<Rightarrow> unit res \<times> 'w) \<Rightarrow> uuid \<Rightarrow> 'w \<Rightarrow> 'r conn_manager
       \<Rightarrow> 'w \<times> 'r conn_manager" where
  "ConnManager_RemoveConnection ID Close uid w b =
     (case find_conn (\<lambda>conn. ID w conn = uid) (cm_connections b) of
        Some i \<Rightarrow>
          (snd (Close (cm_connections b ! i) w), b\<lparr>cm_connections := remove_at i (cm_connections b)\<rparr>)
      | None \<Rightarrow> (w, b))"

text \<open>An index past the end of the slice panics.\<close>

definition ConnManager_GetConn :: "'r conn_manager \<Rightarrow> 'r option outcome \<times> 'r conn_manager" where
  "ConnManager_GetConn b =
     (if cm_connections b = [] then (Return None, b)
      else if length (cm_connections b) \<le> cm_current b then (Panic ''index out of range'', b)
      else (Return (Some (cm_connections b ! cm_current b)),
            b\<lparr>cm_current := (cm_current b + 1) mod length (cm_connections b)\<rparr>))"

fun close_all :: "('r \<Rightarrow> 'w \<Rightarrow> unit res \<times> 'w) \<Rightarrow> 'r list \<Rightarrow> 'w \<Rightarrow> err list \<times> 'w" where
  "close_all Close [] w = ([], w)"
| "close_all Close (r # rs) w =
     (case Close r w of
        (Inl e, w) \<Rightarrow> (case close_all Close rs w of (errs, w) \<Rightarrow> (e # errs, w))
      | (Inr _, w) \<Rightarrow> close_all Close rs w)"

definition ConnManager_Close ::
    "('r \<Rightarrow> 'w \<Rightarrow> unit res \<times> 'w) \<Rightarrow> 'w \<Rightarrow> 'r conn_manager \<Rightarrow> unit res \<times> 'w \<times> 'r conn_manager" where
  "ConnManager_Close Close w b =
     (case close_all Close (cm_connections b) w of
        (errs, w) \<Rightarrow>
          (if errs \<noteq> [] then Inl (Joined ''failed to close connections'' errs) else Inr (),
           w, b\<lparr>cm_connections := []\<rparr>))"

section \<open>The slice as a map\<close>

text \<open>The slice as a finite map from identifiers to connections.\<close>

definition cm_map :: "('w \<Rightarrow> 'r \<Rightarrow> uuid) \<Rightarrow> 'w \<Rightarrow> 'r conn_manager \<Rightarrow> (uuid \<rightharpoonup> 'r)" where
  "cm_map ID w b = map_of (map (\<lambda>r. (ID w r, r)) (cm_connections b))"

definition cm_inv :: "('w \<Rightarrow> 'r \<Rightarrow> uuid) \<Rightarrow> 'w \<Rightarrow> 'r conn_manager \<Rightarrow> bool" where
  "cm_inv ID w b \<longleftrightarrow> distinct (map (ID w) (cm_connections b))"

lemma map_of_ID_update:
  assumes "distinct (map f rs)" and "i < length rs" and "f r = f (rs ! i)"
  shows "map_of (map (\<lambda>r. (f r, r)) (rs[i := r])) = (map_of (map (\<lambda>r. (f r, r)) rs))(f r \<mapsto> r)"
  using assms
proof (induction rs arbitrary: i)
  case (Cons x xs)
  show ?case
  proof (cases i)
    case 0
    with Cons.prems show ?thesis by (auto simp: fun_eq_iff)
  next
    case (Suc j)
    with Cons.prems have "xs ! j \<in> set xs" by simp
    with Cons.prems Suc have "f r \<noteq> f x" by force
    moreover have "map_of (map (\<lambda>r. (f r, r)) (xs[j := r])) = (map_of (map (\<lambda>r. (f r, r)) xs))(f r \<mapsto> r)"
      using Cons.prems Suc by (intro Cons.IH) auto
    ultimately show ?thesis
      using Suc by (auto simp: fun_eq_iff)
  qed
qed simp

lemma map_of_ID_remove:
  assumes "distinct (map f rs)" and "i < length rs"
  shows "map_of (map (\<lambda>r. (f r, r)) (remove_at i rs)) =
    (map_of (map (\<lambda>r. (f r, r)) rs))(f (rs ! i) := None)"
  using assms
proof (induction rs arbitrary: i)
  case (Cons x xs)
  show ?case
  proof (cases i)
    case 0
    have "map_of (map (\<lambda>r. (f r, r)) xs) (f x) = None"
      using Cons.prems(1) by (auto simp: map_of_eq_None_iff)
    with 0 show ?thesis by (auto simp: fun_eq_iff)
  next
    case (Suc j)
    with Cons.prems have "f (xs ! j) \<in> f ` set xs" by simp
    with Cons.prems(1) have "f (xs ! j) \<noteq> f x" by auto
    with Cons Suc show ?thesis by (auto simp: fun_eq_iff)
  qed
qed simp

section \<open>What the manager needs of its connections\<close>

text \<open>
  The interface \<open>ServerConn\<close>. The manager identifies a connection by the identifier it reports; its
  bookkeeping is right because closing a connection does not change the identifier of any.
\<close>

locale server_conn =
  fixes ID :: "'w \<Rightarrow> 'r \<Rightarrow> uuid"
    and Close :: "'r \<Rightarrow> 'w \<Rightarrow> unit res \<times> 'w"
  assumes ID_Close: "ID (snd (Close r w)) q = ID w q"
begin

lemma ID_Close_fun: "ID (snd (Close r w)) = ID w"
  by (rule ext) (rule ID_Close)

lemma AddConnection_map:
  assumes "cm_inv ID w b" and "ConnManager_AddConnection ID Close serv w b = (w', b')"
  shows "cm_map ID w' b' = (cm_map ID w b)(ID w serv \<mapsto> serv) \<and> cm_inv ID w' b' \<and> ID w' = ID w"
proof (cases "find_conn (\<lambda>conn. ID w conn = ID w serv) (cm_connections b)")
  case None
  then have new: "ID w serv \<notin> ID w ` set (cm_connections b)"
    by (auto simp: find_conn_None)
  then have "map_of (map (\<lambda>r. (ID w r, r)) (cm_connections b)) (ID w serv) = None"
    by (auto simp: map_of_eq_None_iff)
  then show ?thesis
    using assms None new
    by (auto simp: ConnManager_AddConnection_def cm_map_def cm_inv_def fun_eq_iff map_add_def
        split: option.splits)
next
  case (Some i)
  note F = find_conn_Some [OF Some]
  have "map (ID w) ((cm_connections b)[i := serv]) = map (ID w) (cm_connections b)"
    using F by (metis list_update_id map_update nth_map)
  then show ?thesis
    using assms Some F map_of_ID_update [of "ID w" "cm_connections b" i serv]
    by (auto simp: ConnManager_AddConnection_def cm_map_def cm_inv_def ID_Close_fun)
qed

lemma RemoveConnection_map:
  assumes "cm_inv ID w b" and "ConnManager_RemoveConnection ID Close uid w b = (w', b')"
  shows "cm_map ID w' b' = (cm_map ID w b)(uid := None) \<and> cm_inv ID w' b' \<and> ID w' = ID w"
proof (cases "find_conn (\<lambda>conn. ID w conn = uid) (cm_connections b)")
  case None
  then have "map_of (map (\<lambda>r. (ID w r, r)) (cm_connections b)) uid = None"
    by (auto simp: find_conn_None map_of_eq_None_iff)
  then show ?thesis
    using assms None by (auto simp: ConnManager_RemoveConnection_def cm_map_def fun_eq_iff)
next
  case (Some i)
  then show ?thesis
    using assms find_conn_Some [OF Some] map_of_ID_remove [of "ID w" "cm_connections b" i]
    by (auto simp: ConnManager_RemoveConnection_def cm_map_def cm_inv_def ID_Close_fun map_remove_at
        distinct_remove_at)
qed

end

section \<open>The servers as connections of the manager\<close>

text \<open>The world of the dialer: a store of servers, addressed by references.\<close>

type_synonym store = "nat \<Rightarrow> server"

definition server_ID_at :: "store \<Rightarrow> nat \<Rightarrow> uuid" where
  "server_ID_at w r = Server_ID (w r)"

definition server_Close_at :: "nat \<Rightarrow> store \<Rightarrow> unit res \<times> store" where
  "server_Close_at r w = (case Server_Close (w r) of (res, s) \<Rightarrow> (res, w(r := s)))"

lemma Server_Close_fields:
  "s_id (snd (Server_Close s)) = s_id s" "s_state (snd (Server_Close s)) = StateDisconnected"
  "c_closed (s_conn (snd (Server_Close s)))"
  by (auto simp: Server_Close_def on_conn_def conn_Close_def)

lemma server_Close_at_snd: "snd (server_Close_at r w) = w(r := snd (Server_Close (w r)))"
  by (simp add: server_Close_at_def split: prod.splits)

interpretation srv: server_conn server_ID_at server_Close_at
  by unfold_locales
     (simp add: server_ID_at_def server_Close_at_snd Server_ID_def Server_Close_fields)

text \<open>C10 \<open>ConnManager_refines_map\<close>. The manager implements a finite map from identifiers to
  connections with at most one connection per identifier. \<open>AddConnection\<close> is the update at the new
  connection's identifier, \<open>RemoveConnection\<close> the deletion; both keep the invariant. The slice, its
  in-place replacement and its search order are invisible.\<close>

theorem ConnManager_refines_map:
  assumes "cm_inv server_ID_at w b"
  shows
    "(case ConnManager_AddConnection server_ID_at server_Close_at serv w b of (w', b') \<Rightarrow>
        cm_map server_ID_at w' b' = (cm_map server_ID_at w b)(s_id (w serv) \<mapsto> serv) \<and>
        cm_inv server_ID_at w' b') \<and>
     (case ConnManager_RemoveConnection server_ID_at server_Close_at uid w b of (w', b') \<Rightarrow>
        cm_map server_ID_at w' b' = (cm_map server_ID_at w b)(uid := None) \<and>
        cm_inv server_ID_at w' b')"
proof -
  obtain w1 b1 where add: "ConnManager_AddConnection server_ID_at server_Close_at serv w b = (w1, b1)"
    by fastforce
  obtain w2 b2 where rem: "ConnManager_RemoveConnection server_ID_at server_Close_at uid w b = (w2, b2)"
    by fastforce
  have "server_ID_at w serv = s_id (w serv)"
    by (simp add: server_ID_at_def Server_ID_def)
  then show ?thesis
    using srv.AddConnection_map [OF assms add] srv.RemoveConnection_map [OF assms rem] add rem
    by simp
qed

definition example_store :: store where
  "example_store r = (NewServer (mk_conn []) [])\<lparr>s_id := replicate 16 (word_of_nat r)\<rparr>"

theorem ConnManager_refines_map_witness:
  "let b = \<lparr>cm_connections = [1, 2], cm_current = 0\<rparr> in
   case ConnManager_AddConnection server_ID_at server_Close_at 3 example_store b of (w', b') \<Rightarrow>
     cm_map server_ID_at w' b' (replicate 16 3) = Some 3"
proof -
  let ?b = "\<lparr>cm_connections = [1, 2], cm_current = 0\<rparr>"
  have id3: "s_id (example_store 3) = replicate 16 3"
    by (simp add: example_store_def)
  have "cm_inv server_ID_at example_store ?b"
    by (simp add: cm_inv_def server_ID_at_def Server_ID_def example_store_def replicate_eq_replicate)
  from ConnManager_refines_map [OF this, of 3 "[]"] show ?thesis
    by (simp only: id3 Let_def) (auto split: prod.splits)
qed

text \<open>C34 \<open>AddConnection_replaces\<close>. When a client registers again under an identifier the manager has, the old
  connection is closed and the new one takes its place in the rotation; the number of connections and
  all the others, and the servers they refer to, stay as they are. Otherwise the new connection goes to
  the end and no server changes.\<close>

theorem AddConnection_replaces:
  assumes "ConnManager_AddConnection server_ID_at server_Close_at serv w b = (w', b')"
  shows "cm_current b' = cm_current b \<and>
    ((\<exists>i < length (cm_connections b). s_id (w (cm_connections b ! i)) = s_id (w serv) \<and>
        cm_connections b' = (cm_connections b)[i := serv] \<and>
        w' = w(cm_connections b ! i := snd (Server_Close (w (cm_connections b ! i)))) \<and>
        s_state (w' (cm_connections b ! i)) = StateDisconnected \<and>
        c_closed (s_conn (w' (cm_connections b ! i)))) \<or>
     (s_id (w serv) \<notin> (\<lambda>r. s_id (w r)) ` set (cm_connections b) \<and>
        cm_connections b' = cm_connections b @ [serv] \<and> w' = w))"
proof (cases "find_conn (\<lambda>conn. server_ID_at w conn = server_ID_at w serv) (cm_connections b)")
  case None
  then have "w' = w" "b' = b\<lparr>cm_connections := cm_connections b @ [serv]\<rparr>"
    using assms by (simp_all add: ConnManager_AddConnection_def)
  moreover have "s_id (w serv) \<notin> (\<lambda>r. s_id (w r)) ` set (cm_connections b)"
    using None by (auto simp: find_conn_None server_ID_at_def Server_ID_def)
  ultimately show ?thesis by simp
next
  case (Some i)
  then have "w' = w(cm_connections b ! i := snd (Server_Close (w (cm_connections b ! i))))"
    "b' = b\<lparr>cm_connections := (cm_connections b)[i := serv]\<rparr>"
    using assms by (simp_all add: ConnManager_AddConnection_def server_Close_at_snd)
  moreover have "i < length (cm_connections b)" "s_id (w (cm_connections b ! i)) = s_id (w serv)"
    using find_conn_Some [OF Some] by (simp_all add: server_ID_at_def Server_ID_def)
  ultimately show ?thesis
    using Server_Close_fields by auto
qed

theorem AddConnection_replaces_witness:
  "let b = \<lparr>cm_connections = [1], cm_current = 0\<rparr>; w = example_store(2 := example_store 1);
       (w', b') = ConnManager_AddConnection server_ID_at server_Close_at 2 w b
   in cm_connections b' = [2] \<and> s_state (w' 1) = StateDisconnected"
proof -
  let ?b = "\<lparr>cm_connections = [1], cm_current = 0\<rparr>" and ?w = "example_store(2 := example_store 1)"
  obtain w' b' where run:
    "ConnManager_AddConnection server_ID_at server_Close_at 2 ?w ?b = (w', b')" by fastforce
  from AddConnection_replaces [OF run] run show ?thesis by auto
qed

lemma close_all_servers:
  assumes "close_all server_Close_at rs w = (errs, w')"
  shows "(\<forall>r. r \<notin> set rs \<longrightarrow> w' r = w r) \<and> (\<forall>r. s_id (w' r) = s_id (w r)) \<and>
    (\<forall>r \<in> set rs. s_state (w' r) = StateDisconnected \<and> c_closed (s_conn (w' r)))"
  using assms
proof (induction rs arbitrary: w errs)
  case (Cons r rs)
  let ?w = "w(r := snd (Server_Close (w r)))"
  have "snd (server_Close_at r w) = ?w"
    by (rule server_Close_at_snd)
  with Cons.prems obtain errs' where rest: "close_all server_Close_at rs ?w = (errs', w')"
    by (cases "server_Close_at r w"; cases "fst (server_Close_at r w)") (auto split: prod.splits)
  from Cons.IH [OF rest] Server_Close_fields [of "w r"] show ?case
    by (cases "r \<in> set rs") (auto simp: fun_upd_def split: if_splits)
qed simp



section \<open>Round robin\<close>

text \<open>The results of \<open>n\<close> calls of \<open>GetConn\<close> in a row.\<close>

fun get_seq :: "nat \<Rightarrow> 'r conn_manager \<Rightarrow> 'r option outcome list \<times> 'r conn_manager" where
  "get_seq 0 b = ([], b)"
| "get_seq (Suc n) b =
     (case ConnManager_GetConn b of (r, b) \<Rightarrow> case get_seq n b of (rs, b) \<Rightarrow> (r # rs, b))"

lemma GetConn_in_range:
  "cm_current b < length (cm_connections b) \<Longrightarrow> ConnManager_GetConn b =
     (Return (Some (cm_connections b ! cm_current b)),
      b\<lparr>cm_current := (cm_current b + 1) mod length (cm_connections b)\<rparr>)"
  by (auto simp: ConnManager_GetConn_def)

lemma get_seq_in_range:
  assumes "cm_current b < length (cm_connections b)"
  shows "get_seq n b =
    (map (\<lambda>i. Return (Some (cm_connections b ! ((cm_current b + i) mod length (cm_connections b))))) [0..<n],
     b\<lparr>cm_current := (cm_current b + n) mod length (cm_connections b)\<rparr>)"
  using assms
proof (induction n arbitrary: b)
  case (Suc n)
  let ?l = "length (cm_connections b)"
  let ?b = "b\<lparr>cm_current := (cm_current b + 1) mod ?l\<rparr>"
  have IH: "get_seq n ?b =
    (map (\<lambda>i. Return (Some (cm_connections b ! ((cm_current b + Suc i) mod ?l)))) [0..<n],
     b\<lparr>cm_current := (cm_current b + Suc n) mod ?l\<rparr>)"
  proof -
    from Suc.prems have "0 < ?l" by (rule le_less_trans [OF le0])
    then have "cm_current ?b < length (cm_connections ?b)"
      by (simp del: length_greater_0_conv)
    from Suc.IH [OF this] show ?thesis
      by (simp add: mod_simps)
  qed
  have "[0..<Suc n] = 0 # map Suc [0..<n]"
    by (simp only: map_Suc_upt upt_conv_Cons zero_less_Suc)
  then show ?case
    using Suc.prems IH by (simp add: GetConn_in_range comp_def del: upt_Suc)
qed simp

text \<open>C33 \<open>GetConn_round_robin\<close>. While no connection is added or removed, as many calls of \<open>GetConn\<close> as there are
  connections return every connection once, in the order of the slice beginning at the cursor, and
  leave the cursor where it was: the next round begins with the same connection.\<close>

theorem GetConn_round_robin:
  assumes "cm_current b < length (cm_connections b)"
  shows "get_seq (length (cm_connections b)) b =
      (map (\<lambda>r. Return (Some r)) (rotate (cm_current b) (cm_connections b)), b)"
proof -
  let ?l = "length (cm_connections b)"
  have "rotate (cm_current b) (cm_connections b) =
      map (\<lambda>i. cm_connections b ! ((cm_current b + i) mod ?l)) [0..<?l]"
    by (rule nth_equalityI) (simp_all add: nth_rotate)
  then show ?thesis
    using assms by (simp add: get_seq_in_range comp_def)
qed

theorem GetConn_round_robin_witness:
  "get_seq 3 \<lparr>cm_connections = [10, 20, 30 :: nat], cm_current = 1\<rparr> =
     ([Return (Some 20), Return (Some 30), Return (Some 10)],
      \<lparr>cm_connections = [10, 20, 30], cm_current = 1\<rparr>)"
  using GetConn_round_robin [of "\<lparr>cm_connections = [10, 20, 30 :: nat], cm_current = 1\<rparr>"]
  by (simp add: rotate_def eval_nat_numeral)

section \<open>Sequences of calls\<close>

datatype cm_op = AddOp nat | RemoveOp uuid | GetOp | CloseOp

fun cm_exec :: "cm_op \<Rightarrow> store \<times> nat conn_manager \<Rightarrow> (store \<times> nat conn_manager) outcome" where
  "cm_exec (AddOp r) (w, b) = Return (ConnManager_AddConnection server_ID_at server_Close_at r w b)"
| "cm_exec (RemoveOp uid) (w, b) =
     Return (ConnManager_RemoveConnection server_ID_at server_Close_at uid w b)"
| "cm_exec GetOp (w, b) =
     (case ConnManager_GetConn b of (Panic m, _) \<Rightarrow> Panic m | (Return _, b) \<Rightarrow> Return (w, b))"
| "cm_exec CloseOp (w, b) = Return (snd (ConnManager_Close server_Close_at w b))"

fun cm_run :: "cm_op list \<Rightarrow> store \<times> nat conn_manager \<Rightarrow> (store \<times> nat conn_manager) outcome" where
  "cm_run [] st = Return st"
| "cm_run (op # ops) st = (case cm_exec op st of Panic m \<Rightarrow> Panic m | Return st \<Rightarrow> cm_run ops st)"

text \<open>The cursor points into the slice, or is 0: what \<open>GetConn\<close> needs and not every method keeps.\<close>

definition cursor_ok :: "'r conn_manager \<Rightarrow> bool" where
  "cursor_ok b \<longleftrightarrow> cm_current b < length (cm_connections b) \<or> cm_current b = 0"

lemma cursor_ok_exec:
  assumes "cursor_ok (snd st)" and "op = GetOp \<or> (\<exists>r. op = AddOp r)"
  shows "\<exists>st'. cm_exec op st = Return st' \<and> cursor_ok (snd st')"
proof (cases st)
  case (Pair w b)
  show ?thesis
  proof (cases "op = GetOp")
    case True
    have "cm_connections b \<noteq> [] \<Longrightarrow> Suc (cm_current b) mod length (cm_connections b) < length (cm_connections b)"
      by (rule mod_less_divisor) simp
    then show ?thesis
      using assms(1) Pair True by (auto simp: ConnManager_GetConn_def cursor_ok_def)
  next
    case False
    with assms(2) obtain r where op: "op = AddOp r" by auto
    obtain w' b' where run: "ConnManager_AddConnection server_ID_at server_Close_at r w b = (w', b')"
      by fastforce
    then have "cm_current b' = cm_current b \<and> length (cm_connections b) \<le> length (cm_connections b')"
      by (auto simp: ConnManager_AddConnection_def split: option.splits)
    then show ?thesis
      using assms(1) Pair op run by (auto simp: cursor_ok_def)
  qed
qed

lemma cm_run_no_panic:
  assumes "cursor_ok (snd st)" and "\<forall>op \<in> set ops. op = GetOp \<or> (\<exists>r. op = AddOp r)"
  shows "\<exists>st'. cm_run ops st = Return st' \<and> cursor_ok (snd st')"
  using assms
proof (induction ops arbitrary: st)
  case (Cons op ops)
  then obtain st' where "cm_exec op st = Return st'" "cursor_ok (snd st')"
    using cursor_ok_exec by (metis list.set_intros(1))
  with Cons show ?case by simp
qed simp

text \<open>As long as connections are only added and handed out, no sequence of
  calls on a new manager panics, however they are interleaved.\<close>

theorem ConnManager_no_panic:
  assumes "\<forall>op \<in> set ops. op = GetOp \<or> (\<exists>r. op = AddOp r)"
  shows "\<exists>st. cm_run ops (w, ConnManager_New) = Return st"
  using cm_run_no_panic [of "(w, ConnManager_New)" ops] assms
  by (auto simp: cursor_ok_def ConnManager_New_def)

theorem ConnManager_no_panic_witness:
  "\<exists>st. cm_run [GetOp, AddOp 1, GetOp, AddOp 2, GetOp, GetOp] (example_store, ConnManager_New) = Return st"
  by (rule ConnManager_no_panic) auto

text \<open>C36 \<open>RemoveConnection_panics\<close>. \<open>RemoveConnection\<close> does not move the cursor. With two clients registered under
  different identifiers, one \<open>GetConn\<close> and the removal of either client, the next \<open>GetConn\<close> indexes
  past the end of the slice and panics, although a connection is left.\<close>

theorem RemoveConnection_panics:
  assumes "s_id (w r1) \<noteq> s_id (w r2)" and "uid = s_id (w r1) \<or> uid = s_id (w r2)"
  shows "cm_run [AddOp r1, AddOp r2, GetOp, RemoveOp uid, GetOp] (w, ConnManager_New) =
    Panic ''index out of range''"
  using assms
  by (auto simp: ConnManager_New_def ConnManager_AddConnection_def ConnManager_GetConn_def
      ConnManager_RemoveConnection_def server_ID_at_def Server_ID_def split: prod.splits)

theorem RemoveConnection_panics_witness:
  "cm_run [AddOp 1, AddOp 2, GetOp, RemoveOp (replicate 16 2), GetOp]
     (example_store, ConnManager_New) = Panic ''index out of range''"
  by (rule RemoveConnection_panics) (simp_all add: example_store_def replicate_eq_replicate)

end
