(* ===== verification/Dialer.thy ===== *)
theory Dialer
  imports Proto_V2 Conn_Manager
begin

text \<open>
  \<open>dialer.go\<close>: the server side of revdial. It keeps the registered clients in the connection manager and the
  pending dials in a map from request identifiers to channels. \<open>DialContext\<close> asks a client to connect back
  and waits on its channel; the handler of the connection that binds the identifier takes the request out
  of the map and sends the connection.

  The \<open>*ServerV2\<close> objects live in a store and the channels in a heap, both addressed by numbers. A channel
  has room for one connection; \<open>ch_for\<close> is the identifier it was made for and the first component of
  what it holds the identifier the connection was bound with (neither is in the code). \<open>d_watched\<close>
  lists the identifiers of the registered connections whose goroutine is running: what it will pass to
  \<open>RemoveConnection\<close> when it ends. A \<open>select\<close> with several branches takes the branch as an argument.
\<close>

section \<open>The connection manager on V2 servers\<close>

type_synonym 'ses store2 = "nat \<Rightarrow> 'ses server2"

definition server2_ID_at :: "'ses store2 \<Rightarrow> nat \<Rightarrow> uuid" where
  "server2_ID_at w r = Server_ID (s2_Server (w r))"

definition server2_Close_at :: "'ses yamux \<Rightarrow> nat \<Rightarrow> 'ses store2 \<Rightarrow> unit res \<times> 'ses store2" where
  "server2_Close_at y r w = (case ServerV2_Close y (w r) of (res, s) \<Rightarrow> (res, w(r := s)))"

lemma ServerV2_Close_fields:
  "s_id (s2_Server (snd (ServerV2_Close y s))) = s_id (s2_Server s)"
  "s_state (s2_Server (snd (ServerV2_Close y s))) = StateDisconnected"
  "c_closed (s_conn (s2_Server (snd (ServerV2_Close y s))))"
  using Server_Close_fields [of "s2_Server s"]
  by (auto simp: ServerV2_Close_def on_server_def Let_def split: option.splits prod.splits)

lemma server2_Close_at_snd: "snd (server2_Close_at y r w) = w(r := snd (ServerV2_Close y (w r)))"
  by (simp add: server2_Close_at_def split: prod.splits)

interpretation srv2: server_conn server2_ID_at "server2_Close_at y" for y
  by unfold_locales
     (simp add: server2_ID_at_def server2_Close_at_snd Server_ID_def ServerV2_Close_fields)

section \<open>State\<close>

record chan =
  ch_buf :: "(uuid \<times> conn) list"
  ch_for :: uuid

record 'ses dialer =
  d_cm :: "nat conn_manager"
  d_store :: "'ses store2"
  d_nservers :: nat
  d_requests :: "uuid \<rightharpoonup> nat"
  d_chans :: "nat \<Rightarrow> chan"
  d_nchans :: nat
  d_serverOpts :: "server_option list"
  d_tlsConfig :: "nat option"
  d_cancel :: bool
  d_cancelled :: bool
  d_watched :: "uuid list"

type_synonym 'ses dialer_option = "'ses dialer \<Rightarrow> 'ses dialer"

text \<open>\<open>any_server\<close> and \<open>any_chan\<close> fill the unused cells of the two heaps.\<close>

definition NewDialer :: "'ses server2 \<Rightarrow> chan \<Rightarrow> 'ses dialer_option list \<Rightarrow> 'ses dialer" where
  "NewDialer any_server any_chan opts = fold (\<lambda>opt d. opt d) opts
     \<lparr>d_cm = ConnManager_New, d_store = (\<lambda>_. any_server), d_nservers = 0, d_requests = Map.empty,
      d_chans = (\<lambda>_. any_chan), d_nchans = 0, d_serverOpts = [], d_tlsConfig = None, d_cancel = False, d_cancelled = False,
      d_watched = []\<rparr>"

definition Dialer_WithUserPassAuth :: "(string \<Rightarrow> string \<Rightarrow> bool) option \<Rightarrow> 'ses dialer_option" where
  "Dialer_WithUserPassAuth auth d = d\<lparr>d_serverOpts := d_serverOpts d @ [WithUserPassAuth auth]\<rparr>"

text \<open>TLS configurations are named by numbers.\<close>

definition WithDialerTLSConfig :: "nat \<Rightarrow> 'ses dialer_option" where
  "WithDialerTLSConfig config d = d\<lparr>d_tlsConfig := Some config\<rparr>"

text \<open>\<open>listen\<close> gives the outcome of \<open>tls.Listen\<close> with a configuration and, on \<open>None\<close>, of \<open>net.Listen\<close>.\<close>

definition Dialer_Start :: "(nat option \<Rightarrow> unit res) \<Rightarrow> 'ses dialer \<Rightarrow> unit res \<times> 'ses dialer" where
  "Dialer_Start listen d =
     (let d = d\<lparr>d_cancel := True, d_cancelled := False\<rparr> in
      case listen (d_tlsConfig d) of
        Inl e \<Rightarrow> (Inl (Wrap ''failed to listen'' e), d)
      | Inr _ \<Rightarrow> (Inr (), d))"

section \<open>Requests\<close>

definition Dialer_addRequest :: "uuid \<Rightarrow> 'ses dialer \<Rightarrow> nat \<times> 'ses dialer" where
  "Dialer_addRequest uid d =
     (let ch = d_nchans d in
      (ch, d\<lparr>d_nchans := Suc ch, d_chans := (d_chans d)(ch := \<lparr>ch_buf = [], ch_for = uid\<rparr>),
            d_requests := (d_requests d)(uid \<mapsto> ch)\<rparr>))"

definition Dialer_removeRequest :: "uuid \<Rightarrow> 'ses dialer \<Rightarrow> nat option \<times> 'ses dialer" where
  "Dialer_removeRequest uid d =
     (case d_requests d uid of
        None \<Rightarrow> (None, d)
      | Some ch \<Rightarrow> (Some ch, d\<lparr>d_requests := (d_requests d)(uid := None)\<rparr>))"

definition chan_send :: "nat \<Rightarrow> uuid \<times> conn \<Rightarrow> 'ses dialer \<Rightarrow> 'ses dialer" where
  "chan_send ch x d = d\<lparr>d_chans := (d_chans d)(ch := (d_chans d ch)\<lparr>ch_buf := ch_buf (d_chans d ch) @ [x]\<rparr>)\<rparr>"

text \<open>
  The end of both handlers of bound connections: find the request and offer the connection. \<open>expired\<close>: a
  branch of the \<open>select\<close> other than the send is taken. The result says whether the connection was sent.
\<close>

definition Dialer_deliver :: "bool \<Rightarrow> uuid \<Rightarrow> conn \<Rightarrow> 'ses dialer \<Rightarrow> bool \<times> 'ses dialer" where
  "Dialer_deliver expired uid conn d =
     (case Dialer_removeRequest uid d of
        (None, d) \<Rightarrow> (False, d)
      | (Some ch, d) \<Rightarrow> if expired then (False, d) else (True, chan_send ch (uid, conn) d))"

definition Dialer_RemoveConnection :: "'ses yamux \<Rightarrow> uuid \<Rightarrow> 'ses dialer \<Rightarrow> 'ses dialer" where
  "Dialer_RemoveConnection y uid d =
     (case ConnManager_RemoveConnection server2_ID_at (server2_Close_at y) uid (d_store d) (d_cm d) of
        (w, cm) \<Rightarrow> d\<lparr>d_store := w, d_cm := cm\<rparr>)"

section \<open>Dialing\<close>

text \<open>\<open>DialContext\<close> up to its \<open>select\<close>: the channel it waits on, or its error.\<close>

definition Dialer_DialContext :: "'ses yamux \<Rightarrow> uuid \<Rightarrow> 'ses dialer \<Rightarrow> nat res outcome \<times> 'ses dialer" where
  "Dialer_DialContext y uid d =
     (case ConnManager_GetConn (d_cm d) of
        (Panic m, cm) \<Rightarrow> (Panic m, d)
      | (Return None, cm) \<Rightarrow> (Return (Inl (Errorf ''no connection is available'' [])), d\<lparr>d_cm := cm\<rparr>)
      | (Return (Some r), cm) \<Rightarrow>
     (let d = d\<lparr>d_cm := cm\<rparr> in
      if Server_State (s2_Server (d_store d r)) \<noteq> StateRegistered
      then (Return (Inl (Errorf ''no connection is available'' [])), d)
      else case Dialer_addRequest uid d of
        (ch, d) \<Rightarrow>
     (case ServerV2_SendConnectCommand uid (d_store d r) of
        (Inl e, s) \<Rightarrow>
          (let d = Dialer_RemoveConnection y (Server_ID (s2_Server s)) (d\<lparr>d_store := (d_store d)(r := s)\<rparr>)
           in (Return (Inl (Wrap ''failed to request connection'' e)), snd (Dialer_removeRequest uid d)))
      | (Inr _, s) \<Rightarrow> (Return (Inr ch), d\<lparr>d_store := (d_store d)(r := s)\<rparr>))))"

text \<open>
  The \<open>select\<close> and the deferred \<open>removeRequest\<close>: \<open>Some e\<close> when the branch of the context is taken, with the error
  \<open>ctx.Err()\<close> gives, otherwise the receive from the channel. \<open>None\<close>: the select blocks.
\<close>

definition Dialer_DialContext_wait ::
    "err option \<Rightarrow> uuid \<Rightarrow> nat \<Rightarrow> 'ses dialer \<Rightarrow> (conn res \<times> 'ses dialer) option" where
  "Dialer_DialContext_wait expired uid ch d =
     (case expired of
        Some e \<Rightarrow> Some (Inl e, snd (Dialer_removeRequest uid d))
      | None \<Rightarrow>
     (case ch_buf (d_chans d ch) of
        [] \<Rightarrow> None
      | (_, conn) # rest \<Rightarrow>
          Some (Inr conn, snd (Dialer_removeRequest uid
            (d\<lparr>d_chans := (d_chans d)(ch := (d_chans d ch)\<lparr>ch_buf := rest\<rparr>)\<rparr>)))))"

definition Dialer_SendEvent ::
    "'ses yamux \<Rightarrow> (custom_event \<Rightarrow> bytes res) \<Rightarrow> string \<Rightarrow> bytes res \<Rightarrow> 'ses dialer
       \<Rightarrow> unit res outcome \<times> 'ses dialer" where
  "Dialer_SendEvent y json_Marshal name payload d =
     (case ConnManager_GetConn (d_cm d) of
        (Panic m, cm) \<Rightarrow> (Panic m, d)
      | (Return None, cm) \<Rightarrow> (Return (Inl (Errorf ''no connection is available'' [])), d\<lparr>d_cm := cm\<rparr>)
      | (Return (Some r), cm) \<Rightarrow>
     (let d = d\<lparr>d_cm := cm\<rparr> in
      if Server_State (s2_Server (d_store d r)) \<noteq> StateRegistered
      then (Return (Inl (Errorf ''no connection is available'' [])), d)
      else case ServerV2_SendCustomEvent json_Marshal name payload (d_store d r) of
        (Inl e, s) \<Rightarrow>
          (Return (Inl (Wrap ''failed to send event'' e)),
           Dialer_RemoveConnection y (Server_ID (s2_Server s)) (d\<lparr>d_store := (d_store d)(r := s)\<rparr>))
      | (Inr _, s) \<Rightarrow> (Return (Inr ()), d\<lparr>d_store := (d_store d)(r := s)\<rparr>)))"

section \<open>Incoming connections\<close>

text \<open>
  \<open>handleV1RegisteredConnection\<close> and \<open>handleV2RegisteredConnection\<close> begin alike: the connection is added
  and a goroutine started that will remove it by the identifier it has now.
\<close>

definition Dialer_handleRegisteredConnection :: "'ses yamux \<Rightarrow> nat \<Rightarrow> 'ses dialer \<Rightarrow> 'ses dialer" where
  "Dialer_handleRegisteredConnection y r d =
     (case ConnManager_AddConnection server2_ID_at (server2_Close_at y) r (d_store d) (d_cm d) of
        (w, cm) \<Rightarrow> d\<lparr>d_store := w, d_cm := cm, d_watched := d_watched d @ [server2_ID_at w r]\<rparr>)"

text \<open>
  \<open>expired\<close>: the branch of the request's context is taken instead of the send. A connection that ends
  up nowhere is closed by the goroutine that watches the handshake, and is gone.
\<close>

definition Dialer_handleConnection ::
    "'ses yamux \<Rightarrow> (bytes \<Rightarrow> uuid res) \<Rightarrow> bool \<Rightarrow> conn \<Rightarrow> 'ses dialer \<Rightarrow> 'ses dialer" where
  "Dialer_handleConnection y from_bytes expired conn d =
     (case ServerV2_Process y from_bytes (NewServerV2 conn (d_serverOpts d) []) of
        (Inl e, s) \<Rightarrow> d
      | (Inr _, s) \<Rightarrow>
          (case Server_State (s2_Server s) of
             StateRegistered \<Rightarrow>
               (let r = d_nservers d in
                Dialer_handleRegisteredConnection y r
                  (d\<lparr>d_nservers := Suc r, d_store := (d_store d)(r := s)\<rparr>))
           | StateBound \<Rightarrow>
               snd (Dialer_deliver expired (Server_ID (s2_Server s)) (s_conn (s2_Server s)) d)
           | _ \<Rightarrow> d))"

definition Dialer_handleV2Stream ::
    "(bytes \<Rightarrow> uuid res) \<Rightarrow> bool \<Rightarrow> conn \<Rightarrow> 'ses dialer \<Rightarrow> conn \<times> 'ses dialer" where
  "Dialer_handleV2Stream from_bytes expired stream d =
     (let close = (\<lambda>c. snd (conn_Close c)) in
      case conn_Read 2 stream of
        (Inl e, stream) \<Rightarrow> (close stream, d)
      | (Inr got, stream) \<Rightarrow>
     (let buf = fill_buf 2 got in
      if buf ! 0 \<noteq> VersionV1 then (close stream, d)
      else if buf ! 1 \<noteq> CmdBind then (close stream, d)
      else case conn_Read 16 stream of
        (Inl e, stream) \<Rightarrow> (close stream, d)
      | (Inr got, stream) \<Rightarrow>
     (case from_bytes (fill_buf 16 got) of
        Inl e \<Rightarrow> (close stream, d)
      | Inr uid \<Rightarrow>
     (case conn_Write [VersionV1, ResSuccess] stream of
        (Inl e, stream) \<Rightarrow> (close stream, d)
      | (Inr _, stream) \<Rightarrow>
     (case Dialer_deliver expired uid stream d of
        (sent, d) \<Rightarrow> (if sent then stream else close stream, d))))))"

text \<open>
  The goroutine of a registered connection. V1: it waits for the dialer's context. V2: it accepts
  streams until that fails. Both end with \<open>RemoveConnection\<close>.
\<close>

definition Dialer_watcher_exit :: "'ses yamux \<Rightarrow> uuid \<Rightarrow> 'ses dialer \<Rightarrow> 'ses dialer" where
  "Dialer_watcher_exit y uid d = Dialer_RemoveConnection y uid (d\<lparr>d_watched := remove1 uid (d_watched d)\<rparr>)"

definition Dialer_acceptStream ::
    "'ses yamux \<Rightarrow> (bytes \<Rightarrow> uuid res) \<Rightarrow> bool \<Rightarrow> nat \<Rightarrow> uuid \<Rightarrow> 'ses dialer \<Rightarrow> 'ses dialer" where
  "Dialer_acceptStream y from_bytes expired r uid d =
     (case ServerV2_AcceptStream y (d_store d r) of
        (Inl e, s) \<Rightarrow> Dialer_watcher_exit y uid (d\<lparr>d_store := (d_store d)(r := s)\<rparr>)
      | (Inr stream, s) \<Rightarrow> snd (Dialer_handleV2Stream from_bytes expired stream (d\<lparr>d_store := (d_store d)(r := s)\<rparr>)))"

text \<open>\<open>Stop\<close> cancels the context and waits until the goroutines of all registered connections have ended.\<close>

definition Dialer_Stop :: "'ses yamux \<Rightarrow> 'ses dialer \<Rightarrow> unit res \<times> 'ses dialer" where
  "Dialer_Stop y d =
     (if \<not> d_cancel d then (Inr (), d)
      else (Inr (), fold (Dialer_watcher_exit y) (d_watched d) (d\<lparr>d_cancelled := True\<rparr>)))"

section \<open>Requests and channels\<close>

text \<open>
  Every pending request has a channel of its own, which is empty, and what a channel holds was
  bound with the identifier the channel was made for. A channel never holds more than it has room for.
\<close>

definition chan_ok :: "chan \<Rightarrow> bool" where
  "chan_ok c \<longleftrightarrow> length (ch_buf c) \<le> 1 \<and> (\<forall>x \<in> set (ch_buf c). fst x = ch_for c)"

definition request_ok :: "'ses dialer \<Rightarrow> uuid \<Rightarrow> nat \<Rightarrow> bool" where
  "request_ok d uid ch \<longleftrightarrow> ch < d_nchans d \<and> ch_for (d_chans d ch) = uid \<and> ch_buf (d_chans d ch) = []"

definition dialer_inv :: "'ses dialer \<Rightarrow> bool" where
  "dialer_inv d \<longleftrightarrow> (\<forall>uid ch. d_requests d uid = Some ch \<longrightarrow> request_ok d uid ch) \<and>
     (\<forall>ch < d_nchans d. chan_ok (d_chans d ch))"

lemma dialer_inv_request: "dialer_inv d \<Longrightarrow> d_requests d uid = Some ch \<Longrightarrow> request_ok d uid ch"
  by (simp add: dialer_inv_def)

lemma dialer_inv_cong:
  "d_requests d' = d_requests d \<Longrightarrow> d_chans d' = d_chans d \<Longrightarrow> d_nchans d' = d_nchans d \<Longrightarrow>
     dialer_inv d' = dialer_inv d"
  by (simp add: dialer_inv_def request_ok_def)

lemma RemoveConnection_fields [simp]:
  "d_requests (Dialer_RemoveConnection y uid d) = d_requests d"
  "d_chans (Dialer_RemoveConnection y uid d) = d_chans d"
  "d_nchans (Dialer_RemoveConnection y uid d) = d_nchans d"
  "d_watched (Dialer_RemoveConnection y uid d) = d_watched d"
  by (simp_all add: Dialer_RemoveConnection_def split: prod.splits)

lemma addRequest_inv: "dialer_inv d \<Longrightarrow> dialer_inv (snd (Dialer_addRequest uid d))"
  by (auto simp: dialer_inv_def request_ok_def chan_ok_def Dialer_addRequest_def Let_def less_Suc_eq)

lemma removeRequest_inv: "dialer_inv d \<Longrightarrow> dialer_inv (snd (Dialer_removeRequest uid d))"
  by (auto simp: dialer_inv_def request_ok_def Dialer_removeRequest_def split: option.splits)

lemma deliver_inv:
  assumes "Dialer_deliver expired uid conn d = (sent, d')" "dialer_inv d"
  shows "dialer_inv d'"
proof (cases "d_requests d uid")
  case (Some ch)
  have other: "d_requests d u = Some c \<Longrightarrow> u \<noteq> uid \<Longrightarrow> c \<noteq> ch" for u c
    using dialer_inv_request [OF assms(2)] Some by (auto simp: request_ok_def)
  have ok: "request_ok d uid ch"
    using dialer_inv_request [OF assms(2) Some] .
  let ?d = "d\<lparr>d_requests := (d_requests d)(uid := None)\<rparr>"
  have "dialer_inv ?d"
    using removeRequest_inv [OF assms(2), of uid] Some by (simp add: Dialer_removeRequest_def)
  moreover have "dialer_inv (chan_send ch (uid, conn) ?d)"
    unfolding dialer_inv_def
  proof (intro conjI allI impI)
    fix u c
    assume "d_requests (chan_send ch (uid, conn) ?d) u = Some c"
    then have "d_requests d u = Some c" "c \<noteq> ch"
      using other by (auto simp: chan_send_def split: if_splits)
    with dialer_inv_request [OF assms(2)] show "request_ok (chan_send ch (uid, conn) ?d) u c"
      by (simp add: request_ok_def chan_send_def)
  next
    fix c
    assume "c < d_nchans (chan_send ch (uid, conn) ?d)"
    with assms(2) ok show "chan_ok (d_chans (chan_send ch (uid, conn) ?d) c)"
      by (simp add: dialer_inv_def chan_send_def request_ok_def chan_ok_def)
  qed
  ultimately show ?thesis
    using assms(1) Some by (auto simp: Dialer_deliver_def Dialer_removeRequest_def split: if_splits)
qed (use assms in \<open>simp add: Dialer_deliver_def Dialer_removeRequest_def\<close>)

lemma wait_inv:
  assumes "dialer_inv d" "Dialer_DialContext_wait expired uid ch d = Some (r, d')" "ch < d_nchans d"
  shows "dialer_inv d'"
proof (cases expired)
  case (Some e)
  with assms show ?thesis
    using removeRequest_inv [OF assms(1), of uid] by (auto simp: Dialer_DialContext_wait_def)
next
  case None
  then obtain x rest where buf: "ch_buf (d_chans d ch) = x # rest"
    and d': "d' = snd (Dialer_removeRequest uid (d\<lparr>d_chans := (d_chans d)(ch := (d_chans d ch)\<lparr>ch_buf := rest\<rparr>)\<rparr>))"
    using assms(2) by (auto simp: Dialer_DialContext_wait_def split: list.splits option.splits)
  have "dialer_inv (d\<lparr>d_chans := (d_chans d)(ch := (d_chans d ch)\<lparr>ch_buf := rest\<rparr>)\<rparr>)"
    using assms(1,3) buf by (auto simp: dialer_inv_def request_ok_def chan_ok_def)
  then show ?thesis
    unfolding d' by (rule removeRequest_inv)
qed

lemma ID_update:
  "s_id (s2_Server s) = s_id (s2_Server (w r)) \<Longrightarrow> server2_ID_at (w(r := s)) = server2_ID_at w"
  by (rule ext) (simp add: server2_ID_at_def Server_ID_def)

lemma GetConn_connections: "ConnManager_GetConn b = (g, b') \<Longrightarrow> cm_connections b' = cm_connections b"
  by (auto simp: ConnManager_GetConn_def split: if_splits)

lemma only_conn_refl [simp]: "only_conn s s"
  by (simp add: only_conn_def)

lemma send2_only_conn:
  "ServerV2_SendConnectCommand uid s = (r, s') \<Longrightarrow> only_conn (s2_Server s) (s2_Server s')"
  "ServerV2_SendCustomEvent jm name data s = (r, s') \<Longrightarrow> only_conn (s2_Server s) (s2_Server s')"
  "ServerV2_AcceptStream y s = (r2, s') \<Longrightarrow> only_conn (s2_Server s) (s2_Server s')"
  by (auto simp: ServerV2_SendConnectCommand_def SendConnectCommandV2_def ServerV2_SendCustomEvent_def
      ServerV2_AcceptStream_def split: if_splits prod.splits sum.splits option.splits
      dest!: on_serverD on_conn_only_conn send_only_conn)

lemma send_ID:
  "ServerV2_SendConnectCommand uid s = (r, s') \<Longrightarrow> s_id (s2_Server s') = s_id (s2_Server s)"
  "ServerV2_SendCustomEvent jm name data s = (r, s') \<Longrightarrow> s_id (s2_Server s') = s_id (s2_Server s)"
  "ServerV2_AcceptStream y s = (r2, s') \<Longrightarrow> s_id (s2_Server s') = s_id (s2_Server s)"
  by (auto dest!: send2_only_conn simp: only_conn_def)

text \<open>Servers of which no more than the connection has changed.\<close>

definition same_servers :: "'ses store2 \<Rightarrow> 'ses store2 \<Rightarrow> bool" where
  "same_servers w w' \<longleftrightarrow> (\<forall>r. only_conn (s2_Server (w r)) (s2_Server (w' r)))"

lemma same_servers_refl [simp]: "same_servers w w"
  by (simp add: same_servers_def)

lemma same_servers_update:
  "only_conn (s2_Server (w r)) (s2_Server s) \<Longrightarrow> same_servers w (w(r := s))"
  by (simp add: same_servers_def)

lemma DialContext_cases:
  assumes "Dialer_DialContext y uid d = (res, d')"
  obtains (stop) cm where "d' = d \<or> d' = d\<lparr>d_cm := cm\<rparr>" "\<forall>ch. res \<noteq> Return (Inr ch)"
      "cm_connections cm = cm_connections (d_cm d)"
  | (failed) cm w i e where "cm_connections cm = cm_connections (d_cm d)"
      "server2_ID_at w = server2_ID_at (d_store d)" "res = Return (Inl e)" "d' = snd (Dialer_removeRequest uid
        (Dialer_RemoveConnection y i ((snd (Dialer_addRequest uid (d\<lparr>d_cm := cm\<rparr>)))\<lparr>d_store := w\<rparr>)))"
      "same_servers (d_store d) w"
  | (asked) cm w where "cm_connections cm = cm_connections (d_cm d)"
      "server2_ID_at w = server2_ID_at (d_store d)" "res = Return (Inr (d_nchans d))"
      "d' = (snd (Dialer_addRequest uid (d\<lparr>d_cm := cm\<rparr>)))\<lparr>d_store := w\<rparr>" "same_servers (d_store d) w"
proof -
  obtain g cm where get: "ConnManager_GetConn (d_cm d) = (g, cm)" by fastforce
  let ?d = "d\<lparr>d_cm := cm\<rparr>"
  have ch: "fst (Dialer_addRequest uid ?d) = d_nchans d" "d_store (snd (Dialer_addRequest uid ?d)) = d_store d"
    by (simp_all add: Dialer_addRequest_def Let_def)
  note conns = GetConn_connections [OF get]
  show thesis
  proof (cases "\<exists>r. g = Return (Some r) \<and> Server_State (s2_Server (d_store d r)) = StateRegistered")
    case True
    then obtain r where r: "g = Return (Some r)" "Server_State (s2_Server (d_store d r)) = StateRegistered" by blast
    obtain q s where send: "ServerV2_SendConnectCommand uid (d_store d r) = (q, s)"
      by fastforce
    have ids: "server2_ID_at ((d_store d)(r := s)) = server2_ID_at (d_store d)"
      by (rule ID_update) (rule send_ID(1) [OF send])
    have same: "same_servers (d_store d) ((d_store d)(r := s))"
      by (rule same_servers_update) (rule send2_only_conn(1) [OF send])
    show thesis
    proof (cases q)
      case (Inl e)
      then have "res = Return (Inl (Wrap ''failed to request connection'' e))"
        "d' = snd (Dialer_removeRequest uid (Dialer_RemoveConnection y (Server_ID (s2_Server s))
          ((snd (Dialer_addRequest uid ?d))\<lparr>d_store := (d_store d)(r := s)\<rparr>)))"
        using assms get r ch send by (simp_all add: Dialer_DialContext_def Let_def case_prod_unfold)
      then show thesis by (rule failed [OF conns ids _ _ same])
    next
      case (Inr u)
      then have "res = Return (Inr (d_nchans d))"
        "d' = (snd (Dialer_addRequest uid ?d))\<lparr>d_store := (d_store d)(r := s)\<rparr>"
        using assms get r ch send by (simp_all add: Dialer_DialContext_def Let_def case_prod_unfold)
      then show thesis by (rule asked [OF conns ids _ _ same])
    qed
  next
    case False
    then have "d' = d \<or> d' = ?d" "\<forall>ch. res \<noteq> Return (Inr ch)"
      using assms get by (auto simp: Dialer_DialContext_def Let_def split: outcome.splits option.splits if_splits)
    then show thesis by (rule stop [OF _ _ conns])
  qed
qed

lemma DialContext_inv:
  assumes "dialer_inv d" "Dialer_DialContext y uid d = (res, d')"
  shows "dialer_inv d' \<and> (\<forall>ch. res = Return (Inr ch) \<longrightarrow>
    ch < d_nchans d' \<and> ch_for (d_chans d' ch) = uid \<and> d_requests d' uid = Some ch)"
proof -
  have add: "dialer_inv (snd (Dialer_addRequest uid (d\<lparr>d_cm := cm\<rparr>)))" for cm
    by (rule addRequest_inv) (use assms(1) dialer_inv_cong [of "d\<lparr>d_cm := cm\<rparr>" d] in simp)
  from assms(2) show ?thesis
  proof (cases rule: DialContext_cases)
    case (stop cm)
    with assms(1) show ?thesis
      using dialer_inv_cong [of "d\<lparr>d_cm := cm\<rparr>" d] by auto
  next
    case (failed cm w i e)
    have "dialer_inv (Dialer_RemoveConnection y i ((snd (Dialer_addRequest uid (d\<lparr>d_cm := cm\<rparr>)))\<lparr>d_store := w\<rparr>))"
      using add [of cm] by (subst dialer_inv_cong [of _ "snd (Dialer_addRequest uid (d\<lparr>d_cm := cm\<rparr>))"]) simp_all
    from removeRequest_inv [OF this] failed show ?thesis by simp
  next
    case (asked cm w)
    with add [of cm] dialer_inv_cong [of d' "snd (Dialer_addRequest uid (d\<lparr>d_cm := cm\<rparr>))"] have "dialer_inv d'"
      by simp
    with asked show ?thesis
      by (simp add: Dialer_addRequest_def Let_def)
  qed
qed

lemma handleV2Stream_inv:
  "Dialer_handleV2Stream fb expired stream d = (c, d') \<Longrightarrow> dialer_inv d \<Longrightarrow> dialer_inv d'"
  by (auto simp: Dialer_handleV2Stream_def Let_def split: prod.splits sum.splits if_splits dest: deliver_inv)

lemma handleRegistered_inv:
  "dialer_inv (Dialer_handleRegisteredConnection y r d) = dialer_inv d"
  by (rule dialer_inv_cong) (simp_all add: Dialer_handleRegisteredConnection_def split: prod.splits)

lemma handleConnection_inv:
  assumes "dialer_inv d"
  shows "dialer_inv (Dialer_handleConnection y fb expired conn d)"
proof -
  have "dialer_inv (snd (Dialer_deliver expired uid c d))" for uid c
    using deliver_inv [OF _ assms] by (cases "Dialer_deliver expired uid c d") auto
  moreover have "dialer_inv (d\<lparr>d_nservers := n, d_store := w\<rparr>)" for n w
    using assms dialer_inv_cong [of "d\<lparr>d_nservers := n, d_store := w\<rparr>" d] by simp
  ultimately show ?thesis
    using assms
    by (auto simp: Dialer_handleConnection_def Let_def handleRegistered_inv
        split: prod.splits sum.splits server_state.splits)
qed

lemma watcher_exit_inv: "dialer_inv (Dialer_watcher_exit y uid d) = dialer_inv d"
  by (rule dialer_inv_cong) (simp_all add: Dialer_watcher_exit_def)

lemma acceptStream_inv:
  assumes "dialer_inv d"
  shows "dialer_inv (Dialer_acceptStream y fb expired r uid d)"
proof -
  have upd: "dialer_inv (d\<lparr>d_store := w\<rparr>)" for w
    using assms dialer_inv_cong [of "d\<lparr>d_store := w\<rparr>" d] by simp
  have "dialer_inv (snd (Dialer_handleV2Stream fb expired stream (d\<lparr>d_store := w\<rparr>)))" for stream w
    by (rule handleV2Stream_inv [OF prod.collapse [symmetric] upd])
  with upd show ?thesis
    by (auto simp: Dialer_acceptStream_def watcher_exit_inv split: prod.splits sum.splits)
qed

lemma SendEvent_inv:
  "Dialer_SendEvent y jm name payload d = (r, d') \<Longrightarrow> dialer_inv d' = dialer_inv d"
  by (rule dialer_inv_cong)
     (auto simp: Dialer_SendEvent_def Let_def split: prod.splits outcome.splits option.splits sum.splits if_splits)

subsection \<open>Channels belong to their request for ever\<close>

definition chans_keep :: "'ses dialer \<Rightarrow> 'ses dialer \<Rightarrow> bool" where
  "chans_keep d d' \<longleftrightarrow> d_nchans d \<le> d_nchans d' \<and> (\<forall>ch < d_nchans d. ch_for (d_chans d' ch) = ch_for (d_chans d ch))"

lemma chans_keep_refl [simp]: "d_chans d' = d_chans d \<Longrightarrow> d_nchans d' = d_nchans d \<Longrightarrow> chans_keep d d'"
  by (simp add: chans_keep_def)

lemma chans_keep_removeRequest [simp]:
  "chans_keep q (snd (Dialer_removeRequest uid d)) = chans_keep q d"
  by (auto simp: chans_keep_def Dialer_removeRequest_def split: option.splits)

lemma chans_keep_deliver: "Dialer_deliver expired uid conn d = (sent, d') \<Longrightarrow> chans_keep d d'"
  by (auto simp: Dialer_deliver_def Dialer_removeRequest_def chan_send_def chans_keep_def
      split: option.splits if_splits)

lemma chans_keep_DialContext:
  assumes "Dialer_DialContext y uid d = (res, d')"
  shows "chans_keep d d'"
  using assms
proof (cases rule: DialContext_cases)
  case (stop cm)
  then show ?thesis by auto
next
  case (failed cm w i e)
  then show ?thesis
    by simp (simp add: chans_keep_def Dialer_addRequest_def Let_def)
next
  case (asked cm w)
  then show ?thesis
    by (simp add: chans_keep_def Dialer_addRequest_def Let_def)
qed

lemma chans_keep_wait:
  "Dialer_DialContext_wait expired uid ch d = Some (r, d') \<Longrightarrow> chans_keep d d'"
  by (auto simp: Dialer_DialContext_wait_def chans_keep_def split: option.splits list.splits)
     (auto simp: Dialer_removeRequest_def split: option.splits)

lemma chans_keep_handleV2Stream:
  "Dialer_handleV2Stream fb expired stream d = (c, d') \<Longrightarrow> chans_keep d d'"
  by (auto simp: Dialer_handleV2Stream_def Let_def split: prod.splits sum.splits if_splits dest: chans_keep_deliver)

lemma chans_keep_handleConnection: "chans_keep d (Dialer_handleConnection y fb expired conn d)"
proof -
  have "chans_keep d (snd (Dialer_deliver expired uid c d))" for uid c
    by (rule chans_keep_deliver [OF prod.collapse [symmetric]])
  then show ?thesis
    by (auto simp: Dialer_handleConnection_def Let_def Dialer_handleRegisteredConnection_def
        split: prod.splits sum.splits server_state.splits)
qed

lemma chans_keep_watcher_exit: "chans_keep q (Dialer_watcher_exit y uid d) = chans_keep q d"
  by (simp add: Dialer_watcher_exit_def chans_keep_def)

lemma chans_keep_store [simp]: "chans_keep (d\<lparr>d_store := w\<rparr>) d' = chans_keep d d'"
  by (simp add: chans_keep_def)

lemma chans_keep_acceptStream: "chans_keep d (Dialer_acceptStream y fb expired r uid d)"
proof -
  have "chans_keep (d\<lparr>d_store := w\<rparr>) (snd (Dialer_handleV2Stream fb expired stream (d\<lparr>d_store := w\<rparr>)))" for w stream
    by (rule chans_keep_handleV2Stream [OF prod.collapse [symmetric]])
  then show ?thesis
    by (auto simp: Dialer_acceptStream_def chans_keep_watcher_exit split: prod.splits sum.splits)
qed

lemma chans_keep_SendEvent: "Dialer_SendEvent y jm name payload d = (r, d') \<Longrightarrow> chans_keep d d'"
  by (rule chans_keep_refl)
     (auto simp: Dialer_SendEvent_def Let_def split: prod.splits outcome.splits option.splits sum.splits if_splits)

section \<open>All interleavings\<close>

text \<open>
  The dialer together with the calls of \<open>DialContext\<close> that are waiting, each with its identifier and channel. Every
  rule is one of the operations above, in any order and with any arguments.
\<close>

inductive dialer_step ::
  "'ses yamux \<Rightarrow> (bytes \<Rightarrow> uuid res) \<Rightarrow> (custom_event \<Rightarrow> bytes res)
     \<Rightarrow> 'ses dialer \<times> (uuid \<times> nat) list \<Rightarrow> 'ses dialer \<times> (uuid \<times> nat) list \<Rightarrow> bool"
  for y fb jm where
  dial: "Dialer_DialContext y uid d = (Return (Inr ch), d') \<Longrightarrow> dialer_step y fb jm (d, ws) (d', (uid, ch) # ws)"
| dial_failed: "Dialer_DialContext y uid d = (Return (Inl e), d') \<Longrightarrow> dialer_step y fb jm (d, ws) (d', ws)"
| dial_wait: "(uid, ch) \<in> set ws \<Longrightarrow> Dialer_DialContext_wait expired uid ch d = Some (r, d') \<Longrightarrow>
    dialer_step y fb jm (d, ws) (d', remove1 (uid, ch) ws)"
| connection: "dialer_step y fb jm (d, ws) (Dialer_handleConnection y fb expired conn d, ws)"
| accept_stream: "dialer_step y fb jm (d, ws) (Dialer_acceptStream y fb expired r uid d, ws)"
| send_event: "Dialer_SendEvent y jm name payload d = (r, d') \<Longrightarrow> dialer_step y fb jm (d, ws) (d', ws)"
| watcher_exit: "dialer_step y fb jm (d, ws) (Dialer_watcher_exit y uid d, ws)"

definition waiting_ok :: "'ses dialer \<times> (uuid \<times> nat) list \<Rightarrow> bool" where
  "waiting_ok st \<longleftrightarrow> dialer_inv (fst st) \<and>
     (\<forall>(uid, ch) \<in> set (snd st). ch < d_nchans (fst st) \<and> ch_for (d_chans (fst st) ch) = uid)"

lemma waiting_keep:
  assumes "waiting_ok (d, ws)" "dialer_inv d'" "chans_keep d d'" "set ws' \<subseteq> set ws"
  shows "waiting_ok (d', ws')"
proof -
  have "ch < d_nchans d' \<and> ch_for (d_chans d' ch) = uid" if "(uid, ch) \<in> set ws'" for uid ch
  proof -
    have "(uid, ch) \<in> set ws" using assms(4) that by blast
    then have "ch < d_nchans d" "ch_for (d_chans d ch) = uid"
      using assms(1) by (auto simp: waiting_ok_def)
    with assms(3) show ?thesis by (auto simp: chans_keep_def)
  qed
  with assms(2) show ?thesis by (auto simp: waiting_ok_def)
qed

lemma waiting_ok_inv: "waiting_ok (d, ws) \<Longrightarrow> dialer_inv d"
  by (simp add: waiting_ok_def)

lemma waiting_dial:
  assumes "Dialer_DialContext y uid d = (res, d')" "waiting_ok (d, ws)"
  shows "waiting_ok (d', ws)"
  using waiting_keep [OF assms(2) _ chans_keep_DialContext [OF assms(1)] order_refl]
    DialContext_inv [OF waiting_ok_inv [OF assms(2)] assms(1)] by blast

lemma waiting_ok_step:
  assumes "dialer_step y fb jm st st'" "waiting_ok st"
  shows "waiting_ok st'"
  using assms
proof cases
  case (dial uid d ch d' ws)
  then have ok: "waiting_ok (d, ws)" using assms(2) by simp
  from waiting_dial [OF dial(3) ok] DialContext_inv [OF waiting_ok_inv [OF ok] dial(3)] dial(2) show ?thesis
    by (auto simp: waiting_ok_def)
next
  case (dial_failed uid d e d' ws)
  then show ?thesis
    using assms(2) waiting_dial by blast
next
  case (dial_wait uid ch ws expired d r d')
  then have ok: "waiting_ok (d, ws)" and "ch < d_nchans d"
    using assms(2) by (auto simp: waiting_ok_def)
  then have "dialer_inv d'" "chans_keep d d'"
    using dial_wait(4) wait_inv waiting_ok_inv chans_keep_wait by blast+
  from waiting_keep [OF ok this set_remove1_subset] dial_wait(2) show ?thesis by simp
next
  case (connection d ws expired conn)
  then have ok: "waiting_ok (d, ws)" using assms(2) by simp
  from waiting_keep [OF ok handleConnection_inv [OF waiting_ok_inv [OF ok]] chans_keep_handleConnection order_refl]
  show ?thesis using connection by simp
next
  case (accept_stream d ws expired r uid)
  then have ok: "waiting_ok (d, ws)" using assms(2) by simp
  from waiting_keep [OF ok acceptStream_inv [OF waiting_ok_inv [OF ok]] chans_keep_acceptStream order_refl]
  show ?thesis using accept_stream by simp
next
  case (send_event name payload d r d' ws)
  then have ok: "waiting_ok (d, ws)" using assms(2) by simp
  with SendEvent_inv [OF send_event(3)] have "dialer_inv d'"
    using waiting_ok_inv by blast
  from waiting_keep [OF ok this chans_keep_SendEvent [OF send_event(3)] order_refl] show ?thesis
    using send_event by simp
next
  case (watcher_exit d ws uid)
  then have ok: "waiting_ok (d, ws)" using assms(2) by simp
  have "chans_keep d (Dialer_watcher_exit y uid d)" "dialer_inv (Dialer_watcher_exit y uid d)"
    using waiting_ok_inv [OF ok] by (simp_all add: chans_keep_watcher_exit watcher_exit_inv)
  from waiting_keep [OF ok this(2,1) order_refl] show ?thesis
    using watcher_exit by simp
qed

lemma waiting_ok_run:
  assumes "(dialer_step y fb jm)\<^sup>*\<^sup>* st st'" "waiting_ok st"
  shows "waiting_ok st'"
  using assms by (induction rule: rtranclp_induct) (auto intro: waiting_ok_step)

lemma dialer_start_simps:
  assumes "d = snd (Dialer_Start listen (NewDialer any_server any_chan [Dialer_WithUserPassAuth auth]))"
  shows "d_requests d = Map.empty" "d_nchans d = 0" "d_cancel d" "d_cm d = ConnManager_New" "d_watched d = []"
    "d_serverOpts d = [WithUserPassAuth auth]"
  by (auto simp: assms Dialer_Start_def NewDialer_def Let_def Dialer_WithUserPassAuth_def split: sum.splits)

lemma waiting_ok_New: "d_requests d = Map.empty \<Longrightarrow> d_nchans d = 0 \<Longrightarrow> waiting_ok (d, [])"
  by (simp add: waiting_ok_def dialer_inv_def)


definition example_dialer :: "conn dialer" where
  "example_dialer = snd (Dialer_Start (\<lambda>_. Inr ()) (NewDialer (NewServerV2 (mk_conn []) [] [])
     \<lparr>ch_buf = [], ch_for = []\<rparr> [Dialer_WithUserPassAuth None]))"

text \<open>A client registers and will answer one command; a dial is started; the client binds a connection.\<close>

definition example_registered :: "conn dialer" where
  "example_registered = Dialer_handleConnection example_yamux from_bytes16 False
     (mk_conn [[1, 1, 0], [1, 1] @ replicate 16 9, [1, 0]]) example_dialer"

definition example_dialing :: "conn dialer" where
  "example_dialing = snd (Dialer_DialContext example_yamux (replicate 16 4) example_registered)"

definition example_bound :: "conn dialer" where
  "example_bound = Dialer_handleConnection example_yamux from_bytes16 False
     (mk_conn [[1, 1, 0], [1, 3] @ replicate 16 4, [42]]) example_dialing"

lemma example_dialer_run:
  "(dialer_step example_yamux from_bytes16 (\<lambda>_. Inl EOF))\<^sup>*\<^sup>*
     (example_dialer, []) (example_bound, [(replicate 16 4, 0)])"
proof -
  let ?step = "dialer_step example_yamux from_bytes16 (\<lambda>_. Inl EOF)"
  have 1: "?step (example_dialer, []) (example_registered, [])"
    unfolding example_registered_def by (rule dialer_step.connection)
  have "fst (Dialer_DialContext example_yamux (replicate 16 4) example_registered) = Return (Inr 0)"
    by code_simp
  then have "Dialer_DialContext example_yamux (replicate 16 4) example_registered = (Return (Inr 0), example_dialing)"
    unfolding example_dialing_def by (rule fst_eq_pair)
  then have 2: "?step (example_registered, []) (example_dialing, [(replicate 16 4, 0)])"
    by (rule dialer_step.dial)
  have 3: "?step (example_dialing, [(replicate 16 4, 0)]) (example_bound, [(replicate 16 4, 0)])"
    unfolding example_bound_def by (rule dialer_step.connection)
  from 1 2 3 show ?thesis
    by (meson rtranclp.rtrancl_into_rtrancl rtranclp.rtrancl_refl)
qed

lemma example_registered_run:
  "(dialer_step example_yamux from_bytes16 (\<lambda>_. Inl EOF))\<^sup>*\<^sup>* (example_dialer, []) (example_registered, [])"
  unfolding example_registered_def by (rule r_into_rtranclp) (rule dialer_step.connection)

lemma example_registered_inv: "dialer_inv example_registered"
proof (rule waiting_ok_inv)
  show "waiting_ok (example_registered, [])"
    by (rule waiting_ok_run [OF example_registered_run])
       (simp add: waiting_ok_New example_dialer_def dialer_start_simps [OF refl])
qed

lemma example_dialing_inv: "dialer_inv example_dialing"
  unfolding example_dialing_def
  by (rule DialContext_inv [OF example_registered_inv prod.collapse [symmetric], THEN conjunct1])

lemma example_dialing_request: "d_requests example_dialing (replicate 16 4) = Some 0"
  by code_simp


section \<open>A cancelled dial\<close>

text \<open>When a connection has been delivered and the context of the call is done as well, the \<open>select\<close> may take
  the branch of the context. The call then fails, and the delivered connection stays open in a channel
  that no request and no later call refers to.\<close>

theorem Dial_cancelled_leaks:
  assumes "dialer_inv d" "d_requests d uid = Some ch" "\<not> c_closed conn"
    and "Dialer_deliver False uid conn d = (True, d1)"
  shows "\<exists>d2. Dialer_DialContext_wait (Some e) uid ch d1 = Some (Inl e, d2) \<and>
    ch_buf (d_chans d2 ch) = [(uid, conn)] \<and> \<not> c_closed conn \<and> ch \<notin> ran (d_requests d2)"
proof -
  let ?d = "chan_send ch (uid, conn) (d\<lparr>d_requests := (d_requests d)(uid := None)\<rparr>)"
  have d1: "d1 = ?d"
    using assms(2,4) by (simp add: Dialer_deliver_def Dialer_removeRequest_def)
  have "ch_buf (d_chans d ch) = []"
    using dialer_inv_request [OF assms(1,2)] by (simp add: request_ok_def)
  moreover have "ch \<notin> ran (d_requests ?d)"
    using dialer_inv_request [OF assms(1)] dialer_inv_request [OF assms(1,2)]
    by (auto simp: ran_def chan_send_def request_ok_def split: if_splits)
  ultimately show ?thesis
    using assms(3) by (simp add: d1 Dialer_DialContext_wait_def Dialer_removeRequest_def chan_send_def)
qed

theorem Dial_cancelled_leaks_witness:
  "\<exists>d1 d2. Dialer_deliver False (replicate 16 4) (mk_conn []) example_dialing = (True, d1) \<and>
     Dialer_DialContext_wait (Some (Errorf ''context canceled'' [])) (replicate 16 4) 0 d1 = Some (Inl (Errorf ''context canceled'' []), d2) \<and>
     ch_buf (d_chans d2 0) = [(replicate 16 4, mk_conn [])]"
proof -
  obtain d1 where del: "Dialer_deliver False (replicate 16 4) (mk_conn []) example_dialing = (True, d1)"
    using example_dialing_request by (simp add: Dialer_deliver_def Dialer_removeRequest_def)
  from Dial_cancelled_leaks [OF example_dialing_inv example_dialing_request _ del] del show ?thesis by auto
qed

section \<open>Stopping\<close>

text \<open>
  The manager's connections have different identifiers and belong to goroutines that are
  running: what \<open>Stop\<close> relies on.
\<close>

definition registered_ok :: "'ses dialer \<Rightarrow> bool" where
  "registered_ok d \<longleftrightarrow> cm_inv server2_ID_at (d_store d) (d_cm d) \<and>
     (\<forall>r \<in> set (cm_connections (d_cm d)). r < d_nservers d \<and> server2_ID_at (d_store d) r \<in> set (d_watched d))"

lemma RemoveConnection_registered:
  assumes "cm_inv server2_ID_at (d_store d) (d_cm d)" "d' = Dialer_RemoveConnection y uid d"
  shows "cm_inv server2_ID_at (d_store d') (d_cm d') \<and> server2_ID_at (d_store d') = server2_ID_at (d_store d) \<and>
    set (cm_connections (d_cm d')) = {r \<in> set (cm_connections (d_cm d)). server2_ID_at (d_store d) r \<noteq> uid} \<and>
    d_nservers d' = d_nservers d"
proof -
  obtain w cm where rem: "ConnManager_RemoveConnection server2_ID_at (server2_Close_at y) uid (d_store d) (d_cm d) = (w, cm)"
    by fastforce
  note M = srv2.RemoveConnection_map [OF assms(1) rem]
  have "set (cm_connections cm) = {r \<in> set (cm_connections (d_cm d)). server2_ID_at (d_store d) r \<noteq> uid}"
  proof -
    have ran: "r \<in> set (cm_connections b) \<longleftrightarrow> cm_map ID v b (ID v r) = Some r"
      if "cm_inv ID v b" for ID v r and b :: "nat conn_manager"
      using that by (auto simp: cm_inv_def cm_map_def map_of_eq_Some_iff comp_def dest: map_of_SomeD)
    show ?thesis
      using ran [of server2_ID_at w cm] ran [OF assms(1)] M by (auto split: if_splits)
  qed
  with M rem assms(2) show ?thesis
    by (simp add: Dialer_RemoveConnection_def)
qed

lemma registered_cong:
  assumes "d_nservers d' = d_nservers d" "d_watched d' = d_watched d"
    and "cm_connections (d_cm d') = cm_connections (d_cm d)" "server2_ID_at (d_store d') = server2_ID_at (d_store d)"
  shows "registered_ok d' = registered_ok d"
  using assms by (simp add: registered_ok_def cm_inv_def)

lemma registered_RemoveConnection:
  assumes "registered_ok d"
  shows "registered_ok (Dialer_RemoveConnection y uid d)"
  using assms RemoveConnection_registered [of d _ y uid, OF _ refl] by (auto simp: registered_ok_def)

lemma registered_watcher_exit:
  assumes "registered_ok d"
  shows "registered_ok (Dialer_watcher_exit y uid d)"
proof -
  let ?d = "d\<lparr>d_watched := remove1 uid (d_watched d)\<rparr>"
  have "cm_inv server2_ID_at (d_store ?d) (d_cm ?d)"
    using assms by (simp add: registered_ok_def)
  from RemoveConnection_registered [OF this refl, of y uid] assms show ?thesis
    by (auto simp: registered_ok_def Dialer_watcher_exit_def)
qed

lemma registered_removeRequest [simp]:
  "registered_ok (snd (Dialer_removeRequest uid d)) = registered_ok d"
  by (rule registered_cong) (auto simp: Dialer_removeRequest_def split: option.splits)

lemma registered_deliver:
  "Dialer_deliver expired uid conn d = (sent, d') \<Longrightarrow> registered_ok d' = registered_ok d"
  by (rule registered_cong)
     (auto simp: Dialer_deliver_def Dialer_removeRequest_def chan_send_def split: option.splits if_splits)

lemma registered_handleRegistered:
  assumes "registered_ok d" "r = d_nservers d"
  shows "registered_ok (Dialer_handleRegisteredConnection y r (d\<lparr>d_nservers := Suc r, d_store := (d_store d)(r := s)\<rparr>))"
proof -
  let ?w = "(d_store d)(r := s)"
  have old: "\<forall>q \<in> set (cm_connections (d_cm d)). q < r \<and> server2_ID_at ?w q = server2_ID_at (d_store d) q"
    using assms by (auto simp: registered_ok_def server2_ID_at_def)
  then have ids: "map (server2_ID_at ?w) (cm_connections (d_cm d)) = map (server2_ID_at (d_store d)) (cm_connections (d_cm d))"
    by simp
  have inv: "cm_inv server2_ID_at ?w (d_cm d)"
    unfolding cm_inv_def ids using assms by (simp add: registered_ok_def cm_inv_def)
  obtain w' b' where add: "ConnManager_AddConnection server2_ID_at (server2_Close_at y) r ?w (d_cm d) = (w', b')"
    by fastforce
  have "set (cm_connections b') \<subseteq> insert r (set (cm_connections (d_cm d)))"
    using add set_update_subset_insert by (fastforce simp: ConnManager_AddConnection_def split: option.splits)
  then have "q < Suc r \<and> server2_ID_at w' q \<in> insert (server2_ID_at w' r) (set (d_watched d))"
    if "q \<in> set (cm_connections b')" for q
    using that old assms srv2.AddConnection_map [OF inv add] by (fastforce simp: registered_ok_def)
  with srv2.AddConnection_map [OF inv add] add show ?thesis
    by (simp add: registered_ok_def Dialer_handleRegisteredConnection_def)
qed

lemma registered_handleConnection:
  assumes "registered_ok d"
  shows "registered_ok (Dialer_handleConnection y fb expired conn d)"
proof -
  have "registered_ok (snd (Dialer_deliver expired uid c d))" for uid c
    using registered_deliver [OF prod.collapse [symmetric]] assms by blast
  then show ?thesis
    using assms registered_handleRegistered [OF assms refl]
    by (auto simp: Dialer_handleConnection_def Let_def split: prod.splits sum.splits server_state.splits)
qed

lemma registered_DialContext:
  assumes "registered_ok d" "Dialer_DialContext y uid d = (res, d')"
  shows "registered_ok d'"
  using assms(2)
proof (cases rule: DialContext_cases)
  case (stop cm)
  with assms(1) registered_cong [of "d\<lparr>d_cm := cm\<rparr>" d] show ?thesis by auto
next
  case (failed cm w i e)
  let ?d = "(snd (Dialer_addRequest uid (d\<lparr>d_cm := cm\<rparr>)))\<lparr>d_store := w\<rparr>"
  have "registered_ok ?d"
    using failed(1,2) assms(1) registered_cong [of ?d d] by (simp add: Dialer_addRequest_def Let_def)
  then show ?thesis
    using failed(4) registered_RemoveConnection by simp
next
  case (asked cm w)
  then show ?thesis
    using assms(1) registered_cong [of d' d] by (simp add: Dialer_addRequest_def Let_def)
qed

lemma registered_wait:
  "Dialer_DialContext_wait expired uid ch d = Some (r, d') \<Longrightarrow> registered_ok d' = registered_ok d"
  by (rule registered_cong)
     (auto simp: Dialer_DialContext_wait_def Dialer_removeRequest_def split: if_splits list.splits option.splits)

lemma registered_SendEvent:
  assumes "registered_ok d" "Dialer_SendEvent y jm name payload d = (r, d')"
  shows "registered_ok d'"
proof -
  obtain g cm where get: "ConnManager_GetConn (d_cm d) = (g, cm)" by fastforce
  have cm: "registered_ok (d\<lparr>d_cm := cm\<rparr>)"
    using assms(1) registered_cong [of "d\<lparr>d_cm := cm\<rparr>" d] GetConn_connections [OF get] by simp
  have "registered_ok (d\<lparr>d_cm := cm, d_store := (d_store d)(r := s)\<rparr>)"
    if "ServerV2_SendCustomEvent jm name payload (d_store d r) = (q, s)" for r q s
    using cm registered_cong [of "d\<lparr>d_cm := cm, d_store := (d_store d)(r := s)\<rparr>" "d\<lparr>d_cm := cm\<rparr>"]
      ID_update [of s "d_store d" r] send_ID(2) [OF that] by simp
  with cm show ?thesis
    using assms get
    by (auto simp: Dialer_SendEvent_def Let_def split: outcome.splits option.splits sum.splits if_splits prod.splits
        intro!: registered_RemoveConnection)
qed

lemma registered_acceptStream:
  assumes "registered_ok d"
  shows "registered_ok (Dialer_acceptStream y fb expired r uid d)"
proof -
  have upd: "registered_ok (d\<lparr>d_store := (d_store d)(r := s)\<rparr>)" if "ServerV2_AcceptStream y (d_store d r) = (q, s)" for q s
    using assms registered_cong [of "d\<lparr>d_store := (d_store d)(r := s)\<rparr>" d]
      ID_update [of s "d_store d" r] send_ID(3) [OF that] by simp
  have "registered_ok d'' = registered_ok d'" if "Dialer_handleV2Stream fb expired c d' = (c', d'')" for c c' d' d''
    using that by (auto simp: Dialer_handleV2Stream_def Let_def split: prod.splits sum.splits if_splits
        dest: registered_deliver)
  then have "registered_ok (snd (Dialer_handleV2Stream fb expired c d')) = registered_ok d'" for c and d' :: "'a dialer"
    by (metis prod.collapse)
  with upd show ?thesis
    by (auto simp: Dialer_acceptStream_def split: prod.splits sum.splits intro!: registered_watcher_exit)
qed

lemma registered_step:
  "dialer_step y fb jm st st' \<Longrightarrow> registered_ok (fst st) \<Longrightarrow> registered_ok (fst st')"
  by (induction rule: dialer_step.induct)
     (auto intro: registered_DialContext registered_handleConnection registered_acceptStream
       registered_SendEvent registered_watcher_exit simp: registered_wait)

lemma registered_run:
  assumes "(dialer_step y fb jm)\<^sup>*\<^sup>* st st'" "registered_ok (fst st)"
  shows "registered_ok (fst st')"
  using assms by (induction rule: rtranclp_induct) (auto intro: registered_step)

definition closed_at :: "'ses dialer \<Rightarrow> nat \<Rightarrow> bool" where
  "closed_at d r \<longleftrightarrow> s_state (s2_Server (d_store d r)) = StateDisconnected \<and> c_closed (s_conn (s2_Server (d_store d r)))"

lemma RemoveConnection_store:
  assumes "d' = Dialer_RemoveConnection y uid d"
  shows "(r \<in> set (cm_connections (d_cm d)) \<longrightarrow> r \<notin> set (cm_connections (d_cm d')) \<longrightarrow> closed_at d' r) \<and>
    (r \<notin> set (cm_connections (d_cm d)) \<longrightarrow> d_store d' r = d_store d r)"
proof (cases "find_conn (\<lambda>conn. server2_ID_at (d_store d) conn = uid) (cm_connections (d_cm d))")
  case (Some i)
  let ?cs = "cm_connections (d_cm d)"
  define q where "q = ?cs ! i"
  note F = find_conn_Some [OF Some]
  have w: "d_store d' = (d_store d)(q := snd (ServerV2_Close y (d_store d q)))"
    and cs: "cm_connections (d_cm d') = remove_at i ?cs"
    using Some assms
    by (simp_all add: Dialer_RemoveConnection_def ConnManager_RemoveConnection_def server2_Close_at_snd q_def)
  have split: "?cs = take i ?cs @ q # drop (Suc i) ?cs"
    using F by (simp add: id_take_nth_drop q_def)
  have "set ?cs = insert q (set (remove_at i ?cs))"
    by (subst split) (simp add: remove_at_def)
  moreover have "closed_at d' q"
    using ServerV2_Close_fields [of y "d_store d q"] by (simp add: closed_at_def w)
  ultimately show ?thesis
    using w cs by auto
qed (simp add: assms Dialer_RemoveConnection_def ConnManager_RemoveConnection_def)

lemma stop_fold:
  assumes "cm_inv server2_ID_at (d_store d) (d_cm d)" "d' = fold (Dialer_watcher_exit y) us d"
  shows "set (cm_connections (d_cm d')) = {r \<in> set (cm_connections (d_cm d)). server2_ID_at (d_store d) r \<notin> set us} \<and>
    (r \<in> set (cm_connections (d_cm d)) \<longrightarrow> r \<notin> set (cm_connections (d_cm d')) \<longrightarrow> closed_at d' r) \<and>
    (r \<notin> set (cm_connections (d_cm d)) \<longrightarrow> d_store d' r = d_store d r)"
  using assms
proof (induction us arbitrary: d)
  case (Cons u us)
  let ?q = "d\<lparr>d_watched := remove1 u (d_watched d)\<rparr>"
  let ?d = "Dialer_watcher_exit y u d"
  have q: "cm_inv server2_ID_at (d_store ?q) (d_cm ?q)" "?d = Dialer_RemoveConnection y u ?q"
    using Cons.prems(1) by (simp_all add: Dialer_watcher_exit_def)
  note R = RemoveConnection_registered [OF q] and S = RemoveConnection_store [OF q(2), of r]
  have "d' = fold (Dialer_watcher_exit y) us ?d"
    using Cons.prems(2) by simp
  note IH = Cons.IH [OF R [THEN conjunct1] this]
  from IH R have "set (cm_connections (d_cm d')) =
      {r \<in> set (cm_connections (d_cm d)). server2_ID_at (d_store d) r \<notin> set (u # us)}" by auto
  moreover from IH S have "r \<notin> set (cm_connections (d_cm d)) \<Longrightarrow> d_store d' r = d_store d r"
    using R by auto
  moreover have "closed_at d' r" if r: "r \<in> set (cm_connections (d_cm d))" "r \<notin> set (cm_connections (d_cm d'))"
  proof (cases "r \<in> set (cm_connections (d_cm ?d))")
    case True
    with IH r show ?thesis by blast
  next
    case False
    with IH S r have "d_store d' r = d_store ?d r" "closed_at ?d r" by auto
    then show ?thesis by (simp add: closed_at_def)
  qed
  ultimately show ?case by blast
qed simp

text \<open>C11 \<open>Dialer_Stop_closes\<close>. In every run of a started dialer, \<open>Stop\<close> disconnects and closes every registered client connection and
  leaves the manager empty: each of them has a goroutine that will remove it, whatever replacements,
  failed sends and closed sessions happened before.\<close>

theorem Dialer_Stop_closes:
  assumes "(dialer_step y fb jm)\<^sup>*\<^sup>*
      (snd (Dialer_Start listen (NewDialer any_server any_chan [Dialer_WithUserPassAuth auth])), []) (d, ws)"
    and "d_cancel d" "Dialer_Stop y d = (res, d')"
  shows "res = Inr () \<and> cm_connections (d_cm d') = [] \<and>
    (\<forall>r \<in> set (cm_connections (d_cm d)).
       s_state (s2_Server (d_store d' r)) = StateDisconnected \<and> c_closed (s_conn (s2_Server (d_store d' r))))"
proof -
  have "registered_ok (snd (Dialer_Start listen (NewDialer any_server any_chan [Dialer_WithUserPassAuth auth])))"
    by (simp add: registered_ok_def cm_inv_def dialer_start_simps [OF refl] ConnManager_New_def)
  then have "registered_ok d"
    using registered_run [OF assms(1)] by simp
  then have inv: "cm_inv server2_ID_at (d_store d) (d_cm d)"
    and watched: "\<forall>r \<in> set (cm_connections (d_cm d)). server2_ID_at (d_store d) r \<in> set (d_watched d)"
    by (simp_all add: registered_ok_def)
  have res: "res = Inr ()" "d' = fold (Dialer_watcher_exit y) (d_watched d) (d\<lparr>d_cancelled := True\<rparr>)"
    using assms(2,3) by (simp_all add: Dialer_Stop_def)
  have "cm_inv server2_ID_at (d_store (d\<lparr>d_cancelled := True\<rparr>)) (d_cm (d\<lparr>d_cancelled := True\<rparr>))"
    using inv by simp
  note F = stop_fold [OF this res(2)]
  from F [of 0] watched have "set (cm_connections (d_cm d')) = {}"
    by auto
  then have "cm_connections (d_cm d') = []" by simp
  moreover have "closed_at d' r" if "r \<in> set (cm_connections (d_cm d))" for r
    using F [of r] that \<open>cm_connections (d_cm d') = []\<close> by simp
  ultimately show ?thesis
    using res(1) by (simp add: closed_at_def)
qed

theorem Dialer_Stop_closes_witness:
  "let d = snd (Dialer_Stop example_yamux example_registered)
   in cm_connections (d_cm example_registered) = [0] \<and> cm_connections (d_cm d) = [] \<and>
      c_closed (s_conn (s2_Server (d_store d 0)))"
proof -
  have "d_cancel example_registered" by code_simp
  note S = Dialer_Stop_closes [OF example_registered_run [unfolded example_dialer_def] this prod.collapse [symmetric]]
  have "cm_connections (d_cm example_registered) = [0]" by code_simp
  with S show ?thesis by (simp add: Let_def)
qed

end
