(* ===== verification/Dialer_Clients.thy ===== *)
theory Dialer_Clients
  imports Dialer
begin

text \<open>
  What can be said of the clients the dialer manages, in every run: anything the handshake establishes
  for a registered client and a change of the connection keeps. The locale \<open>client_guard\<close> proves it
  once for all runs; it is interpreted on the state and identifier of a server, and on the
  authentication of its client.
\<close>

section \<open>Operations that add no client\<close>

text \<open>The clients of \<open>d'\<close> are among those of \<open>d\<close>, and differ from them in their connections only.\<close>

definition keeps_clients :: "'ses dialer \<Rightarrow> 'ses dialer \<Rightarrow> bool" where
  "keeps_clients d d' \<longleftrightarrow> d_serverOpts d' = d_serverOpts d \<and>
     (\<forall>r \<in> set (cm_connections (d_cm d')). r \<in> set (cm_connections (d_cm d)) \<and>
        only_conn (s2_Server (d_store d r)) (s2_Server (d_store d' r)))"

lemma only_conn_trans: "only_conn s s' \<Longrightarrow> only_conn s' s'' \<Longrightarrow> only_conn s s''"
  by (simp add: only_conn_def)

lemma keeps_trans: "keeps_clients d d' \<Longrightarrow> keeps_clients d' d'' \<Longrightarrow> keeps_clients d d''"
  unfolding keeps_clients_def by (metis only_conn_trans)

lemma keeps_same:
  "d_serverOpts d' = d_serverOpts d \<Longrightarrow> cm_connections (d_cm d') = cm_connections (d_cm d) \<Longrightarrow>
     same_servers (d_store d) (d_store d') \<Longrightarrow> keeps_clients d d'"
  by (simp add: keeps_clients_def same_servers_def)

lemma keeps_refl [simp]: "keeps_clients d d"
  by (rule keeps_same) simp_all

lemma keeps_watched [simp]: "keeps_clients d (d\<lparr>d_watched := us\<rparr>)"
  by (rule keeps_same) simp_all

lemma keeps_removeRequest: "keeps_clients d (snd (Dialer_removeRequest uid d))"
  by (rule keeps_same) (auto simp: Dialer_removeRequest_def split: option.splits)

lemma keeps_deliver: "Dialer_deliver expired uid conn d = (sent, d') \<Longrightarrow> keeps_clients d d'"
  by (rule keeps_same)
     (auto simp: Dialer_deliver_def Dialer_removeRequest_def chan_send_def split: option.splits if_splits)

lemma keeps_wait: "Dialer_DialContext_wait expired uid ch d = Some (r, d') \<Longrightarrow> keeps_clients d d'"
  by (rule keeps_same)
     (auto simp: Dialer_DialContext_wait_def Dialer_removeRequest_def split: if_splits list.splits option.splits)

lemma keeps_handleV2Stream:
  "Dialer_handleV2Stream fb expired stream d = (c, d') \<Longrightarrow> keeps_clients d d'"
  by (auto simp: Dialer_handleV2Stream_def Let_def split: prod.splits sum.splits if_splits dest: keeps_deliver)

text \<open>The connection that is removed is the only one that is closed, for identifiers are unique.\<close>

lemma keeps_RemoveConnection:
  assumes inv: "cm_inv server2_ID_at (d_store d) (d_cm d)"
  shows "keeps_clients d (Dialer_RemoveConnection y uid d)"
proof (cases "find_conn (\<lambda>conn. server2_ID_at (d_store d) conn = uid) (cm_connections (d_cm d))")
  case None
  then show ?thesis
    by (intro keeps_same) (simp_all add: Dialer_RemoveConnection_def ConnManager_RemoveConnection_def)
next
  case (Some i)
  let ?d = "Dialer_RemoveConnection y uid d" and ?q = "cm_connections (d_cm d) ! i"
  note R = RemoveConnection_registered [OF inv refl, of y uid]
  have "d_store ?d = (d_store d)(?q := snd (ServerV2_Close y (d_store d ?q)))" "d_serverOpts ?d = d_serverOpts d"
    using Some by (simp_all add: Dialer_RemoveConnection_def ConnManager_RemoveConnection_def server2_Close_at_snd)
  moreover have "server2_ID_at (d_store d) ?q = uid"
    using find_conn_Some [OF Some] by simp
  ultimately show ?thesis
    using R by (auto simp: keeps_clients_def)
qed

lemma keeps_watcher_exit: "registered_ok d \<Longrightarrow> keeps_clients d (Dialer_watcher_exit y uid d)"
  unfolding Dialer_watcher_exit_def
  by (rule keeps_trans [OF _ keeps_RemoveConnection])
     (auto simp: registered_ok_def)

lemma keeps_SendEvent:
  assumes "registered_ok d" "Dialer_SendEvent y jm name payload d = (r, d')"
  shows "keeps_clients d d'"
proof -
  obtain g cm where get: "ConnManager_GetConn (d_cm d) = (g, cm)" by fastforce
  note conns = GetConn_connections [OF get]
  have upd: "keeps_clients d (d\<lparr>d_cm := cm, d_store := (d_store d)(q := s)\<rparr>) \<and>
      cm_inv server2_ID_at ((d_store d)(q := s)) cm"
    if send: "ServerV2_SendCustomEvent jm name payload (d_store d q) = (res, s)" for q res s
  proof
    show "keeps_clients d (d\<lparr>d_cm := cm, d_store := (d_store d)(q := s)\<rparr>)"
      using conns same_servers_update [of "d_store d" q s, OF send2_only_conn(2) [OF send]] by (intro keeps_same) simp_all
    show "cm_inv server2_ID_at ((d_store d)(q := s)) cm"
      using assms(1) conns ID_update [of s "d_store d" q, OF send_ID(2) [OF send]] by (simp add: registered_ok_def cm_inv_def)
  qed
  have rem: "keeps_clients d (Dialer_RemoveConnection y i (d\<lparr>d_cm := cm, d_store := (d_store d)(q := s)\<rparr>))"
    if "ServerV2_SendCustomEvent jm name payload (d_store d q) = (res, s)" for i q res s
    using upd [OF that] by (intro keeps_trans [OF _ keeps_RemoveConnection]) simp_all
  have "keeps_clients d (d\<lparr>d_cm := cm\<rparr>)" "keeps_clients d d"
    using conns by (auto intro!: keeps_same)
  with upd rem show ?thesis
    using assms(2) get
    by (auto simp: Dialer_SendEvent_def Let_def split: outcome.splits option.splits sum.splits if_splits prod.splits)
qed

lemma keeps_DialContext:
  assumes "registered_ok d" "Dialer_DialContext y uid d = (res, d')"
  shows "keeps_clients d d'"
  using assms(2)
proof (cases rule: DialContext_cases)
  case (stop cm)
  then show ?thesis by (auto intro!: keeps_same)
next
  case (failed cm w i e)
  let ?d = "(snd (Dialer_addRequest uid (d\<lparr>d_cm := cm\<rparr>)))\<lparr>d_store := w\<rparr>"
  have "keeps_clients d ?d"
    using failed(1,5) by (intro keeps_same) (simp_all add: Dialer_addRequest_def Let_def)
  moreover have "keeps_clients ?d (Dialer_RemoveConnection y i ?d)"
    using failed(1,2) assms(1)
    by (intro keeps_RemoveConnection) (simp add: registered_ok_def cm_inv_def Dialer_addRequest_def Let_def)
  ultimately show ?thesis
    unfolding failed(4) by (metis keeps_trans keeps_removeRequest)
next
  case (asked cm w)
  then show ?thesis
    by (intro keeps_same) (simp_all add: Dialer_addRequest_def Let_def)
qed

lemma keeps_acceptStream:
  assumes "registered_ok d"
  shows "keeps_clients d (Dialer_acceptStream y fb expired r uid d)"
proof -
  obtain res s where acc: "ServerV2_AcceptStream y (d_store d r) = (res, s)" by fastforce
  let ?d = "d\<lparr>d_store := (d_store d)(r := s)\<rparr>"
  have upd: "keeps_clients d ?d"
    using same_servers_update [of "d_store d" r s, OF send2_only_conn(3) [OF acc]] by (intro keeps_same) simp_all
  have "registered_ok ?d"
    using assms registered_cong [of ?d d] ID_update [of s "d_store d" r, OF send_ID(3) [OF acc]] by simp
  then have "keeps_clients ?d (Dialer_watcher_exit y uid ?d)"
    by (rule keeps_watcher_exit)
  moreover have "keeps_clients ?d (snd (Dialer_handleV2Stream fb expired stream ?d))" for stream
    by (rule keeps_handleV2Stream [OF prod.collapse [symmetric]])
  ultimately show ?thesis
    using acc keeps_trans [OF upd] by (auto simp: Dialer_acceptStream_def split: sum.splits)
qed

section \<open>The one that does\<close>

text \<open>A registered client is new, or replaces the client that had its identifier.\<close>

lemma handleRegistered_clients:
  assumes "registered_ok d" "r = d_nservers d"
    and "d' = Dialer_handleRegisteredConnection y r (d\<lparr>d_nservers := Suc r, d_store := (d_store d)(r := s)\<rparr>)"
  shows "d_serverOpts d' = d_serverOpts d \<and> d_store d' r = s \<and>
    (\<forall>q \<in> set (cm_connections (d_cm d')) - {r}. q \<in> set (cm_connections (d_cm d)) \<and> d_store d' q = d_store d q)"
proof -
  let ?w = "(d_store d)(r := s)" and ?cs = "cm_connections (d_cm d)"
  have fresh: "r \<notin> set ?cs"
    using assms(1,2) by (auto simp: registered_ok_def)
  have dist: "distinct ?cs"
    using assms(1) by (auto simp: registered_ok_def cm_inv_def distinct_map)
  show ?thesis
  proof (cases "find_conn (\<lambda>conn. server2_ID_at ?w conn = server2_ID_at ?w r) ?cs")
    case None
    then show ?thesis
      using assms(3) by (auto simp: Dialer_handleRegisteredConnection_def ConnManager_AddConnection_def)
  next
    case (Some i)
    then have i: "i < length ?cs"
      using find_conn_Some by blast
    with fresh have "?cs ! i \<noteq> r" by (metis nth_mem)
    moreover have "q \<in> set ?cs \<and> q \<noteq> ?cs ! i" if "q \<in> set (?cs[i := r])" "q \<noteq> r" for q
      using that dist i by (auto simp: in_set_conv_nth nth_list_update distinct_conv_nth split: if_splits)
    ultimately show ?thesis
      using Some assms(3)
      by (auto simp: Dialer_handleRegisteredConnection_def ConnManager_AddConnection_def server2_Close_at_snd)
  qed
qed

section \<open>Whatever the handshake establishes\<close>

locale client_guard =
  fixes y :: "'ses yamux" and fb :: "bytes \<Rightarrow> uuid res" and opts :: "server_option list"
    and good :: "server \<Rightarrow> bool"
  assumes good_registered: "ServerV2_Process y fb (NewServerV2 conn opts []) = (Inr u, s) \<Longrightarrow>
      s_state (s2_Server s) = StateRegistered \<Longrightarrow> good (s2_Server s)"
    and good_only_conn: "only_conn sv sv' \<Longrightarrow> good sv \<Longrightarrow> good sv'"
begin

definition managed :: "'ses dialer \<Rightarrow> bool" where
  "managed d \<longleftrightarrow> registered_ok d \<and> d_serverOpts d = opts \<and>
     (\<forall>r \<in> set (cm_connections (d_cm d)). good (s2_Server (d_store d r)))"

lemma managed_keeps: "managed d \<Longrightarrow> keeps_clients d d' \<Longrightarrow> registered_ok d' \<Longrightarrow> managed d'"
  using good_only_conn unfolding managed_def keeps_clients_def by metis

lemma managed_registers:
  assumes "managed d" "r = d_nservers d" "good (s2_Server s)"
  shows "managed (Dialer_handleRegisteredConnection y r (d\<lparr>d_nservers := Suc r, d_store := (d_store d)(r := s)\<rparr>))"
proof -
  have ok: "registered_ok d" and opts: "d_serverOpts d = opts"
    and old: "\<forall>r \<in> set (cm_connections (d_cm d)). good (s2_Server (d_store d r))"
    using assms(1) by (simp_all add: managed_def)
  from handleRegistered_clients [OF ok assms(2) refl] opts old assms(3)
    registered_handleRegistered [OF ok assms(2)] show ?thesis
    unfolding managed_def by (metis Diff_iff singletonD)
qed

lemma managed_handleConnection:
  assumes "managed d"
  shows "managed (Dialer_handleConnection y fb expired conn d)"
proof -
  obtain r s where run: "ServerV2_Process y fb (NewServerV2 conn (d_serverOpts d) []) = (r, s)"
    by fastforce
  have ok: "registered_ok d" and opts: "d_serverOpts d = opts"
    using assms by (simp_all add: managed_def)
  have "keeps_clients d (snd (Dialer_deliver expired uid c d))"
    "registered_ok (snd (Dialer_deliver expired uid c d))" for uid c
    using keeps_deliver [OF prod.collapse [symmetric]] registered_deliver [OF prod.collapse [symmetric]] ok by blast+
  then have "managed (snd (Dialer_deliver expired uid c d))" for uid c
    using managed_keeps [OF assms] by blast
  moreover have "good (s2_Server s)" if "r = Inr u" "s_state (s2_Server s) = StateRegistered" for u
    using good_registered run opts that by blast
  ultimately show ?thesis
    using run assms managed_registers [OF assms refl]
    by (auto simp: Dialer_handleConnection_def Let_def Server_State_def
        split: sum.splits server_state.splits)
qed

lemma managed_step:
  assumes "dialer_step y fb jm st st'" "managed (fst st)"
  shows "managed (fst st')"
proof -
  have ok: "registered_ok (fst st)" "registered_ok (fst st')"
    using assms(2) registered_step [OF assms(1)] by (simp_all add: managed_def)
  from assms(1) show ?thesis
  proof cases
    case (connection d ws expired conn)
    then show ?thesis using assms(2) managed_handleConnection by simp
  qed (use ok assms(2) in \<open>auto intro!: managed_keeps [OF assms(2)]
      intro: keeps_DialContext keeps_wait keeps_acceptStream keeps_SendEvent keeps_watcher_exit\<close>)
qed

lemma managed_run:
  assumes "(dialer_step y fb jm)\<^sup>*\<^sup>* st st'" "managed (fst st)"
  shows "managed (fst st')"
  using assms by (induction rule: rtranclp_induct) (auto intro: managed_step)

lemma managed_New:
  assumes "d_cm d = ConnManager_New" "d_serverOpts d = opts"
  shows "managed d"
  using assms by (simp add: managed_def registered_ok_def cm_inv_def ConnManager_New_def)

end

section \<open>State and identifier\<close>

lemma handleRegister_id:
  assumes "Server_handleRegister fb s = (Inr u, s')" "uuid_FromBytes_ok fb"
  shows "length (s_id s') = 16"
  using assms unfolding Server_handleRegister_def
  by (auto split: prod.splits sum.splits if_splits dest!: on_conn_only_conn simp: only_conn_def)

lemma processV2_control_id:
  "processV2_control fb ctl s = (Inr u, s') \<Longrightarrow> uuid_FromBytes_ok fb \<Longrightarrow> length (s_id (s2_Server s')) = 16"
  by (auto simp: processV2_control_def Let_def split: prod.splits sum.splits if_splits)

lemma handleBind_bound: "Server_handleBind fb s = (Inr u, s') \<Longrightarrow> s_state s' = StateBound"
  by (auto simp: Server_handleBind_def split: prod.splits sum.splits if_splits)

lemma registered_id:
  assumes "ServerV2_Process y fb s = (Inr u, s')" "s_state (s2_Server s') = StateRegistered" "uuid_FromBytes_ok fb"
  shows "length (s_id (s2_Server s')) = 16"
  using assms
  by (auto simp: ServerV2_Process_def processV2AfterAuth_def Let_def split: prod.splits sum.splits if_splits
      dest: processV2_control_id dest!: on_serverD handleRegister_id handleBind_bound)

definition client_typed :: "(bytes \<Rightarrow> uuid res) \<Rightarrow> server \<Rightarrow> bool" where
  "client_typed fb s \<longleftrightarrow> s_state s = StateRegistered \<and> (uuid_FromBytes_ok fb \<longrightarrow> length (s_id s) = 16)"

interpretation typed: client_guard y fb opts "client_typed fb" for y fb opts
  by unfold_locales (auto simp: client_typed_def only_conn_def registered_id)



section \<open>Authentication\<close>

definition client_accepted :: "(string \<Rightarrow> string \<Rightarrow> bool) \<Rightarrow> server \<Rightarrow> bool" where
  "client_accepted auth s \<longleftrightarrow> (\<exists>user pass. auth user pass \<and> user \<noteq> [] \<and> pass \<noteq> [])"

interpretation accepted: client_guard y fb "[WithUserPassAuth (Some auth)]" "client_accepted auth" for y fb auth
proof unfold_locales
  fix conn u and s :: "'a server2"
  let ?new = "NewServerV2 conn [WithUserPassAuth (Some auth)] [] :: 'a server2"
  assume "ServerV2_Process y fb ?new = (Inr u, s)"
  moreover have "\<not> s_noAuth (s2_Server ?new)" "\<not> s2_isV2 ?new" "s_userPassAuth (s2_Server ?new) = Some auth"
    by (simp_all add: NewServerV2_def NewServer_def WithUserPassAuth_def)
  ultimately show "client_accepted auth (s2_Server s)"
    using ServerV2_accepted [of y fb ?new "Inr u" s] by (auto simp: client_accepted_def)
qed (simp add: client_accepted_def)

text \<open>C5 \<open>Dialer_clients_authenticated\<close>. A dialer with an authentication function manages no client, and starts no
  dial, unless that function accepted a non-empty user name and password: in every run, over both versions of the
  protocol and whatever arrives on the connections, \<open>DialContext\<close> can only report that there is no
  connection.\<close>

theorem Dialer_clients_authenticated:
  assumes "(dialer_step y fb jm)\<^sup>*\<^sup>*
      (snd (Dialer_Start listen (NewDialer any_server any_chan [Dialer_WithUserPassAuth (Some auth)])), []) (d, ws)"
    and "\<And>user pass. auth user pass \<Longrightarrow> user = [] \<or> pass = []"
  shows "cm_connections (d_cm d) = [] \<and>
    Dialer_DialContext y uid d = (Return (Inl (Errorf ''no connection is available'' [])), d) \<and>
    (\<forall>jm name payload. Dialer_SendEvent y jm name payload d =
      (Return (Inl (Errorf ''no connection is available'' [])), d))"
proof -
  have "accepted.managed auth (fst (d, ws))"
    by (rule accepted.managed_run [OF assms(1)]) (simp add: accepted.managed_New dialer_start_simps [OF refl])
  then have "\<forall>r \<in> set (cm_connections (d_cm d)). client_accepted auth (s2_Server (d_store d r))"
    by (simp add: accepted.managed_def)
  with assms(2) have "cm_connections (d_cm d) = []"
    by (auto simp: client_accepted_def)
  then show ?thesis
    by (simp add: Dialer_DialContext_def Dialer_SendEvent_def ConnManager_GetConn_def)
qed

text \<open>A client with the wrong password does not get in.\<close>

theorem Dialer_clients_authenticated_witness:
  "let d = snd (Dialer_Start (\<lambda>_. Inr ()) (NewDialer (NewServerV2 (mk_conn []) [] [])
       \<lparr>ch_buf = [], ch_for = []\<rparr> [Dialer_WithUserPassAuth (Some (\<lambda>_ _. False))]))
   in cm_connections (d_cm (Dialer_handleConnection example_yamux from_bytes16 False
        (mk_conn [[1, 1, 2], [1, 1, 117, 1, 112], [1, 1] @ replicate 16 9]) d)) = []"
proof -
  let ?d = "snd (Dialer_Start (\<lambda>_. Inr ()) (NewDialer (NewServerV2 (mk_conn []) [] [])
       \<lparr>ch_buf = [], ch_for = []\<rparr> [Dialer_WithUserPassAuth (Some (\<lambda>_ _. False))]))"
  let ?c = "mk_conn [[1, 1, 2], [1, 1, 117, 1, 112], [1, 1] @ replicate 16 9]"
  have "(dialer_step example_yamux from_bytes16 (\<lambda>_. Inl EOF))\<^sup>*\<^sup>* (?d, [])
      (Dialer_handleConnection example_yamux from_bytes16 False ?c ?d, [])"
    by (rule r_into_rtranclp) (rule dialer_step.connection)
  from Dialer_clients_authenticated [OF this] show ?thesis by (simp add: Let_def)
qed

end
