(* ===== verification/Dialer_Handshake.thy ===== *)
theory Dialer_Handshake
  imports Go_Prelude
begin

text \<open>
  The two goroutines of \<open>handleConnection\<close> in \<open>dialer.go\<close> beside the dialer's context: the handler, which
  hands the connection over or gives it up, and the watcher it starts first, which closes the connection
  when the context ends unless the channel \<open>done\<close> is closed. What the handler does with the connection is in
  the theory of the dialer; here only the order of the channel operations counts.
\<close>

section \<open>The goroutines\<close>

text \<open>
  The handler is in the handshake (\<open>Processing\<close>), has sent the connection to the request (\<open>Sent\<close>), has closed
  \<open>done\<close> (\<open>Over\<close>), is about to return without having handed the connection over (\<open>Failing\<close>), or has
  run its deferred \<open>cancel\<close> (\<open>Returned\<close>).
\<close>

datatype handler_pc = Processing | Sent | Over | Failing | Returned

text \<open>
  The watcher has not come to its \<open>select\<close> yet, waits in it, or has left it through the branch of the context
  (\<open>ClosedConn\<close>) or through that of \<open>done\<close> (\<open>Ended\<close>).
\<close>

datatype watch_pc = Starting | Parked | ClosedConn | Ended

text \<open>
  \<open>h_kept\<close>: the connection has been handed over. \<open>h_stopped\<close>: the context of the dialer ended. \<open>h_late\<close>: the
  watcher had not come to its \<open>select\<close> when \<open>done\<close> was closed. The three only record what happened.
\<close>

record handshake =
  h_pc :: handler_pc
  h_watch :: watch_pc
  h_done :: bool
  h_ctx :: bool
  h_conn_closed :: bool
  h_kept :: bool
  h_stopped :: bool
  h_late :: bool

definition handshake_init :: handshake where
  "handshake_init = \<lparr>h_pc = Processing, h_watch = Starting, h_done = False, h_ctx = False,
     h_conn_closed = False, h_kept = False, h_stopped = False, h_late = False\<rparr>"

text \<open>
  A goroutine that waits in a \<open>select\<close> is woken by the first channel that becomes ready, with that branch; one that
  comes to it later takes any branch that is ready by then.
\<close>

definition close_done :: "handshake \<Rightarrow> handshake" where
  "close_done h = h\<lparr>h_done := True, h_late := (h_watch h = Starting),
     h_watch := (if h_watch h = Parked then Ended else h_watch h)\<rparr>"

definition end_ctx :: "handshake \<Rightarrow> handshake" where
  "end_ctx h = h\<lparr>h_ctx := True,
     h_conn_closed := (h_conn_closed h \<or> h_watch h = Parked),
     h_watch := (if h_watch h = Parked then ClosedConn else h_watch h)\<rparr>"

inductive handshake_step :: "handshake \<Rightarrow> handshake \<Rightarrow> bool" where
  registered: "h_pc h = Processing \<Longrightarrow> handshake_step h (close_done (h\<lparr>h_pc := Over, h_kept := True\<rparr>))"
| send: "h_pc h = Processing \<Longrightarrow> handshake_step h (h\<lparr>h_pc := Sent, h_kept := True\<rparr>)"
| sent: "h_pc h = Sent \<Longrightarrow> handshake_step h (close_done (h\<lparr>h_pc := Over\<rparr>))"
| fail: "h_pc h = Processing \<Longrightarrow> handshake_step h (h\<lparr>h_pc := Failing\<rparr>)"
| return: "h_pc h \<in> {Over, Failing} \<Longrightarrow> handshake_step h (end_ctx (h\<lparr>h_pc := Returned\<rparr>))"
| stop: "handshake_step h (end_ctx (h\<lparr>h_stopped := True\<rparr>))"
| park: "h_watch h = Starting \<Longrightarrow> \<not> h_ctx h \<Longrightarrow> \<not> h_done h \<Longrightarrow> handshake_step h (h\<lparr>h_watch := Parked\<rparr>)"
| take_ctx: "h_watch h = Starting \<Longrightarrow> h_ctx h \<Longrightarrow>
    handshake_step h (h\<lparr>h_watch := ClosedConn, h_conn_closed := True\<rparr>)"
| take_done: "h_watch h = Starting \<Longrightarrow> h_done h \<Longrightarrow> handshake_step h (h\<lparr>h_watch := Ended\<rparr>)"

section \<open>Who closes the connection\<close>

definition handshake_inv :: "handshake \<Rightarrow> bool" where
  "handshake_inv h \<longleftrightarrow>
     (h_watch h = Parked \<longrightarrow> \<not> h_ctx h \<and> \<not> h_done h) \<and>
     (h_watch h = Ended \<longrightarrow> h_done h) \<and>
     (h_watch h = ClosedConn \<longrightarrow> h_ctx h) \<and>
     (h_conn_closed h \<longleftrightarrow> h_watch h = ClosedConn) \<and>
     (h_pc h = Returned \<longrightarrow> h_ctx h) \<and>
     (h_ctx h \<longrightarrow> h_stopped h \<or> h_pc h = Returned) \<and>
     (h_done h \<longrightarrow> h_kept h \<and> h_pc h \<in> {Over, Returned}) \<and>
     (h_kept h \<longrightarrow> h_pc h \<in> {Sent, Over, Returned}) \<and>
     (h_pc h \<in> {Sent, Over} \<longrightarrow> h_kept h) \<and>
     (h_kept h \<longrightarrow> h_pc h \<in> {Over, Returned} \<longrightarrow> h_done h) \<and>
     (h_conn_closed h \<longrightarrow> h_kept h \<longrightarrow> \<not> h_stopped h \<longrightarrow> h_late h) \<and>
     (h_watch h = Starting \<longrightarrow> h_done h \<longrightarrow> h_late h)"

lemma handshake_inv_step: "handshake_step h h' \<Longrightarrow> handshake_inv h \<Longrightarrow> handshake_inv h'"
  by (cases "h_pc h"; cases "h_watch h"; erule handshake_step.cases;
      simp add: handshake_inv_def close_done_def end_ctx_def; blast)

lemma handshake_inv_run: "handshake_step\<^sup>*\<^sup>* handshake_init h \<Longrightarrow> handshake_inv h"
proof (induction rule: rtranclp_induct)
  case base
  show ?case by (simp add: handshake_inv_def handshake_init_def)
qed (rule handshake_inv_step)

text \<open>Both channels are ready when the watcher looks, and it takes the wrong one.\<close>

lemma late_watcher:
  "handshake_step\<^sup>*\<^sup>* handshake_init (handshake_init\<lparr>h_pc := Returned, h_watch := ClosedConn, h_done := True, h_ctx := True,
     h_conn_closed := True, h_kept := True, h_late := True\<rparr>)"
proof -
  let ?h1 = "handshake_init\<lparr>h_pc := Sent, h_kept := True\<rparr>"
  let ?h2 = "close_done (?h1\<lparr>h_pc := Over\<rparr>)"
  let ?h3 = "end_ctx (?h2\<lparr>h_pc := Returned\<rparr>)"
  let ?h4 = "?h3\<lparr>h_watch := ClosedConn, h_conn_closed := True\<rparr>"
  have "handshake_step handshake_init ?h1" "handshake_step ?h1 ?h2" "handshake_step ?h2 ?h3" "handshake_step ?h3 ?h4"
    by (rule handshake_step.send handshake_step.sent handshake_step.return handshake_step.take_ctx;
        simp add: handshake_init_def close_done_def end_ctx_def)+
  then have "handshake_step\<^sup>*\<^sup>* handshake_init ?h4"
    by (meson rtranclp.rtrancl_into_rtrancl rtranclp.rtrancl_refl)
  then show ?thesis
    by (simp add: handshake_init_def close_done_def end_ctx_def)
qed

text \<open>C18 \<open>handshake_watcher\<close>. When the handler of an incoming connection has returned, its watcher is not left waiting, and a connection
  that was not handed over is closed once the watcher has ended. A connection that was handed over is closed by the
  watcher only if the dialer was stopped or if the watcher came to its \<open>select\<close> after \<open>done\<close> had been closed. The
  latter happens: the deferred \<open>cancel\<close> makes both branches ready, and the connection a dial
  has received is closed.\<close>

theorem handshake_watcher:
  "(\<forall>h. handshake_step\<^sup>*\<^sup>* handshake_init h \<longrightarrow>
      (h_pc h = Returned \<longrightarrow> h_watch h \<noteq> Parked) \<and>
      (h_pc h = Returned \<longrightarrow> \<not> h_kept h \<longrightarrow> h_watch h \<noteq> Starting \<longrightarrow> h_conn_closed h) \<and>
      (h_kept h \<longrightarrow> h_conn_closed h \<longrightarrow> h_stopped h \<or> h_late h)) \<and>
   (\<exists>h. handshake_step\<^sup>*\<^sup>* handshake_init h \<and> h_kept h \<and> h_conn_closed h \<and> \<not> h_stopped h)"
proof (intro conjI allI impI)
  show "\<exists>h. handshake_step\<^sup>*\<^sup>* handshake_init h \<and> h_kept h \<and> h_conn_closed h \<and> \<not> h_stopped h"
    using late_watcher by (intro exI conjI) (assumption, simp_all add: handshake_init_def)
next
  fix h
  assume "handshake_step\<^sup>*\<^sup>* handshake_init h"
  then have inv: "handshake_inv h"
    by (rule handshake_inv_run)
  show "h_pc h = Returned \<Longrightarrow> h_watch h \<noteq> Parked" "h_kept h \<Longrightarrow> h_conn_closed h \<Longrightarrow> h_stopped h \<or> h_late h"
    using inv by (auto simp: handshake_inv_def)
  show "h_pc h = Returned \<Longrightarrow> \<not> h_kept h \<Longrightarrow> h_watch h \<noteq> Starting \<Longrightarrow> h_conn_closed h"
    using inv by (cases "h_watch h") (auto simp: handshake_inv_def)
qed

theorem handshake_watcher_witness:
  "let h = handshake_init\<lparr>h_pc := Returned, h_watch := ClosedConn, h_done := True, h_ctx := True,
     h_conn_closed := True, h_kept := True, h_late := True\<rparr>
   in handshake_step\<^sup>*\<^sup>* handshake_init h \<and> h_watch h \<noteq> Parked \<and> (h_stopped h \<or> h_late h)"
  using handshake_watcher late_watcher by (simp add: Let_def)

end
