(* ===== verification/Pool_Metrics.thy ===== *)
theory Pool_Metrics
  imports Go_Prelude "HOL-Library.Signed_Division"
begin

text \<open>
  \<open>pool/metrics.go\<close>: the atomic counters of the pool and of its connections. A signed counter is an
  \<open>int\<close> that is wrapped to its width after every addition; the byte counters are unsigned words.
  Every method is one atomic operation per counter. Times and durations are nanoseconds; \<open>now\<close> stands
  for \<open>time.Now()\<close>.
\<close>

section \<open>Signed machine integers\<close>

definition wrap64 :: "int \<Rightarrow> int" where
  "wrap64 i = signed_take_bit 63 i"

definition wrap32 :: "int \<Rightarrow> int" where
  "wrap32 i = signed_take_bit 31 i"

lemma wrap64_small: "- (2 ^ 63) \<le> i \<Longrightarrow> i < 2 ^ 63 \<Longrightarrow> wrap64 i = i"
  by (simp add: wrap64_def signed_take_bit_int_eq_self)

lemma wrap32_small: "- (2 ^ 31) \<le> i \<Longrightarrow> i < 2 ^ 31 \<Longrightarrow> wrap32 i = i"
  by (simp add: wrap32_def signed_take_bit_int_eq_self)

text \<open>Go's \<open>/\<close> on \<open>int64\<close> truncates towards zero.\<close>

definition div64 :: "int \<Rightarrow> int \<Rightarrow> int" where
  "div64 a b = wrap64 (a sdiv b)"

lemma div64_nonneg: "0 \<le> a \<Longrightarrow> 0 < b \<Longrightarrow> a < 2 ^ 63 \<Longrightarrow> div64 a b = a div b"
proof -
  assume a: "0 \<le> a" "0 < b" "a < 2 ^ 63"
  then have "a sdiv b = a div b"
    by (auto simp: signed_divide_int_def sgn_if)
  moreover have "0 \<le> a div b"
    using a by (simp add: pos_imp_zdiv_nonneg_iff)
  moreover have "a div b \<le> a div 1"
    using a by (intro zdiv_mono2) auto
  ultimately show ?thesis
    using a by (simp add: div64_def wrap64_small)
qed

section \<open>Pool metrics\<close>

record metrics =
  m_activeStreams :: int
  m_totalStreams :: int
  m_connectionCount :: int
  m_bytesSent :: "64 word"
  m_bytesReceived :: "64 word"
  m_latencySum :: int
  m_latencyCount :: int

definition NewMetrics :: metrics where
  "NewMetrics = \<lparr>m_activeStreams = 0, m_totalStreams = 0, m_connectionCount = 0, m_bytesSent = 0,
     m_bytesReceived = 0, m_latencySum = 0, m_latencyCount = 0\<rparr>"

definition Metrics_ActiveStreams :: "metrics \<Rightarrow> int" where
  "Metrics_ActiveStreams m = m_activeStreams m"

definition Metrics_IncrementActiveStreams :: "metrics \<Rightarrow> metrics" where
  "Metrics_IncrementActiveStreams m =
     m\<lparr>m_activeStreams := wrap64 (m_activeStreams m + 1), m_totalStreams := wrap64 (m_totalStreams m + 1)\<rparr>"

definition Metrics_DecrementActiveStreams :: "metrics \<Rightarrow> metrics" where
  "Metrics_DecrementActiveStreams m = m\<lparr>m_activeStreams := wrap64 (m_activeStreams m - 1)\<rparr>"

definition Metrics_TotalStreams :: "metrics \<Rightarrow> int" where
  "Metrics_TotalStreams m = m_totalStreams m"

definition Metrics_ConnectionCount :: "metrics \<Rightarrow> int" where
  "Metrics_ConnectionCount m = m_connectionCount m"

definition Metrics_SetConnectionCount :: "int \<Rightarrow> metrics \<Rightarrow> metrics" where
  "Metrics_SetConnectionCount count m = m\<lparr>m_connectionCount := wrap32 count\<rparr>"

definition Metrics_BytesSent :: "metrics \<Rightarrow> 64 word" where
  "Metrics_BytesSent m = m_bytesSent m"

definition Metrics_AddBytesSent :: "64 word \<Rightarrow> metrics \<Rightarrow> metrics" where
  "Metrics_AddBytesSent n m = m\<lparr>m_bytesSent := m_bytesSent m + n\<rparr>"

definition Metrics_BytesReceived :: "metrics \<Rightarrow> 64 word" where
  "Metrics_BytesReceived m = m_bytesReceived m"

definition Metrics_AddBytesReceived :: "64 word \<Rightarrow> metrics \<Rightarrow> metrics" where
  "Metrics_AddBytesReceived n m = m\<lparr>m_bytesReceived := m_bytesReceived m + n\<rparr>"

definition Metrics_RecordLatency :: "int \<Rightarrow> metrics \<Rightarrow> metrics" where
  "Metrics_RecordLatency d m =
     m\<lparr>m_latencySum := wrap64 (m_latencySum m + d), m_latencyCount := wrap64 (m_latencyCount m + 1)\<rparr>"

definition Metrics_AvgLatency :: "metrics \<Rightarrow> int" where
  "Metrics_AvgLatency m =
     (if m_latencyCount m = 0 then 0 else div64 (m_latencySum m) (m_latencyCount m))"

definition Metrics_ResetLatency :: "metrics \<Rightarrow> metrics" where
  "Metrics_ResetLatency m = m\<lparr>m_latencySum := 0, m_latencyCount := 0\<rparr>"

section \<open>Connection metrics\<close>

record conn_metrics =
  cm_createdAt :: int
  cm_totalStreams :: int
  cm_activeStreams :: int

definition NewConnMetrics :: "int \<Rightarrow> conn_metrics" where
  "NewConnMetrics now = \<lparr>cm_createdAt = now, cm_totalStreams = 0, cm_activeStreams = 0\<rparr>"

definition ConnMetrics_ActiveStreams :: "conn_metrics \<Rightarrow> int" where
  "ConnMetrics_ActiveStreams c = cm_activeStreams c"

definition ConnMetrics_IncrementActiveStreams :: "conn_metrics \<Rightarrow> conn_metrics" where
  "ConnMetrics_IncrementActiveStreams c =
     c\<lparr>cm_activeStreams := wrap32 (cm_activeStreams c + 1), cm_totalStreams := wrap64 (cm_totalStreams c + 1)\<rparr>"

definition ConnMetrics_DecrementActiveStreams :: "conn_metrics \<Rightarrow> conn_metrics" where
  "ConnMetrics_DecrementActiveStreams c = c\<lparr>cm_activeStreams := wrap32 (cm_activeStreams c - 1)\<rparr>"

definition ConnMetrics_TotalStreams :: "conn_metrics \<Rightarrow> int" where
  "ConnMetrics_TotalStreams c = cm_totalStreams c"

definition ConnMetrics_Age :: "int \<Rightarrow> conn_metrics \<Rightarrow> int" where
  "ConnMetrics_Age now c = now - cm_createdAt c"

section \<open>The latency window\<close>

lemma record_latencies:
  assumes "\<forall>d \<in> set ds. 0 \<le> d" "0 \<le> m_latencySum m" "0 \<le> m_latencyCount m"
    and "m_latencySum m + sum_list ds < 2 ^ 63" "m_latencyCount m + int (length ds) < 2 ^ 63"
  shows "fold Metrics_RecordLatency ds m =
    m\<lparr>m_latencySum := m_latencySum m + sum_list ds, m_latencyCount := m_latencyCount m + int (length ds)\<rparr>"
  using assms
proof (induction ds arbitrary: m)
  case (Cons d ds)
  have pos: "0 \<le> sum_list ds"
    using Cons.prems(1) by (intro sum_list_nonneg) simp
  let ?m = "m\<lparr>m_latencySum := m_latencySum m + d, m_latencyCount := m_latencyCount m + 1\<rparr>"
  have "Metrics_RecordLatency d m = ?m"
    using Cons.prems pos by (simp add: Metrics_RecordLatency_def wrap64_small)
  moreover have "fold Metrics_RecordLatency ds ?m =
    ?m\<lparr>m_latencySum := m_latencySum ?m + sum_list ds, m_latencyCount := m_latencyCount ?m + int (length ds)\<rparr>"
    using Cons.prems pos by (intro Cons.IH) simp_all
  ultimately show ?case by (simp add: ac_simps)
qed simp

lemma sum_list_bounds:
  "\<forall>d \<in> set ds. lo \<le> d \<and> d \<le> (hi :: int) \<Longrightarrow>
     int (length ds) * lo \<le> sum_list ds \<and> sum_list ds \<le> int (length ds) * hi"
  by (induction ds) (auto simp: algebra_simps)

text \<open>C40 \<open>AvgLatency_window\<close>. After a reset, the average is that of the latencies recorded since, rounded
  down, as long as their sum fits into 64 bits: what was recorded before the reset has no influence,
  and the average lies between the smallest and the largest latency of the window. An empty window
  reports 0 instead of dividing by it.\<close>

theorem AvgLatency_window:
  assumes "ds \<noteq> []" "\<forall>d \<in> set ds. lo \<le> d \<and> d \<le> hi" "0 \<le> lo" "sum_list ds < 2 ^ 63" "length ds < 2 ^ 63"
  shows "Metrics_AvgLatency (fold Metrics_RecordLatency ds (Metrics_ResetLatency m)) =
      sum_list ds div int (length ds) \<and>
    lo \<le> Metrics_AvgLatency (fold Metrics_RecordLatency ds (Metrics_ResetLatency m)) \<and>
    Metrics_AvgLatency (fold Metrics_RecordLatency ds (Metrics_ResetLatency m)) \<le> hi \<and>
    Metrics_AvgLatency (Metrics_ResetLatency m) = 0"
proof -
  let ?n = "int (length ds)"
  have n: "0 < ?n" "?n < 2 ^ 63"
    using assms(1,5) by simp_all
  have B: "?n * lo \<le> sum_list ds" "sum_list ds \<le> ?n * hi"
    using sum_list_bounds [OF assms(2)] by simp_all
  have s: "0 \<le> sum_list ds"
    using assms(2,3) by (intro sum_list_nonneg) auto
  have "fold Metrics_RecordLatency ds (Metrics_ResetLatency m) =
      m\<lparr>m_latencySum := sum_list ds, m_latencyCount := ?n\<rparr>"
    using assms n by (subst record_latencies) (auto simp: Metrics_ResetLatency_def)
  then have avg: "Metrics_AvgLatency (fold Metrics_RecordLatency ds (Metrics_ResetLatency m)) =
      sum_list ds div ?n"
    using n s assms(4) by (simp add: Metrics_AvgLatency_def div64_nonneg)
  have "lo \<le> sum_list ds div ?n"
    using zdiv_mono1 [OF B(1) n(1)] n by (simp add: mult.commute)
  moreover have "sum_list ds div ?n \<le> hi"
    using zdiv_mono1 [OF B(2) n(1)] n by (simp add: mult.commute)
  ultimately show ?thesis
    by (simp add: avg) (simp add: Metrics_AvgLatency_def Metrics_ResetLatency_def)
qed

theorem AvgLatency_window_witness:
  "Metrics_AvgLatency (fold Metrics_RecordLatency [10, 21] (Metrics_ResetLatency NewMetrics)) = 15"
  using AvgLatency_window [of "[10, 21]" 10 21 NewMetrics] by simp

end
