(* ===== verification/Pool_MuxConn.thy ===== *)
theory Pool_MuxConn
  imports Pool_Metrics Go_Conn
begin

text \<open>
  \<open>pool/mux_conn.go\<close> and \<open>pool/selector.go\<close>: multiplexed connections, the streams opened on them and the
  choice of a connection for the next stream.

  The pool compares connections by address and the streams keep a pointer to the counters of the
  connection they were opened on, so the \<open>MuxConn\<close> objects live in a heap \<open>muxs\<close> and are passed by
  reference. \<open>yamux.Session\<close> is outside the repository: a session is a value of any type \<open>'ses\<close>, and the
  methods the code calls on it are the parameters \<open>ses_Open\<close>, \<open>ses_Accept\<close> and \<open>ses_Close\<close>. A stream
  is a \<open>conn\<close>, seen from this end.
\<close>

section \<open>Objects\<close>

record 'ses mux_conn =
  mx_session :: 'ses
  mx_control :: "conn option"
  mx_metrics :: conn_metrics
  mx_closed :: bool

type_synonym 'ses muxs = "nat \<Rightarrow> 'ses mux_conn"

text \<open>\<open>ts_once\<close>: the stream's \<open>sync.Once\<close> has run; \<open>ts_owner\<close>: whose counter \<open>onClose\<close> decrements.\<close>

record tracked_stream =
  ts_Conn :: conn
  ts_owner :: nat
  ts_once :: bool

definition NewMuxConn :: "int \<Rightarrow> 'ses \<Rightarrow> conn option \<Rightarrow> 'ses mux_conn" where
  "NewMuxConn now session control =
     \<lparr>mx_session = session, mx_control = control, mx_metrics = NewConnMetrics now, mx_closed = False\<rparr>"

definition MuxConn_OpenStream ::
    "('ses \<Rightarrow> conn res \<times> 'ses) \<Rightarrow> nat \<Rightarrow> 'ses muxs \<Rightarrow> tracked_stream res \<times> 'ses muxs" where
  "MuxConn_OpenStream ses_Open m h =
     (if mx_closed (h m) then (Inl (Errorf ''connection is closed'' []), h)
      else case ses_Open (mx_session (h m)) of
        (Inl e, ses) \<Rightarrow> (Inl (Wrap ''failed to open stream'' e), h(m := (h m)\<lparr>mx_session := ses\<rparr>))
      | (Inr stream, ses) \<Rightarrow>
          (Inr \<lparr>ts_Conn = stream, ts_owner = m, ts_once = False\<rparr>,
           h(m := (h m)\<lparr>mx_session := ses,
                mx_metrics := ConnMetrics_IncrementActiveStreams (mx_metrics (h m))\<rparr>)))"

definition MuxConn_AcceptStream ::
    "('ses \<Rightarrow> conn res \<times> 'ses) \<Rightarrow> nat \<Rightarrow> 'ses muxs \<Rightarrow> tracked_stream res \<times> 'ses muxs" where
  "MuxConn_AcceptStream ses_Accept m h =
     (if mx_closed (h m) then (Inl (Errorf ''connection is closed'' []), h)
      else case ses_Accept (mx_session (h m)) of
        (Inl e, ses) \<Rightarrow> (Inl (Wrap ''failed to accept stream'' e), h(m := (h m)\<lparr>mx_session := ses\<rparr>))
      | (Inr stream, ses) \<Rightarrow>
          (Inr \<lparr>ts_Conn = stream, ts_owner = m, ts_once = False\<rparr>,
           h(m := (h m)\<lparr>mx_session := ses,
                mx_metrics := ConnMetrics_IncrementActiveStreams (mx_metrics (h m))\<rparr>)))"

definition MuxConn_NumStreams :: "nat \<Rightarrow> 'ses muxs \<Rightarrow> int" where
  "MuxConn_NumStreams m h = ConnMetrics_ActiveStreams (mx_metrics (h m))"

definition MuxConn_Control :: "nat \<Rightarrow> 'ses muxs \<Rightarrow> conn option" where
  "MuxConn_Control m h = mx_control (h m)"

definition MuxConn_Session :: "nat \<Rightarrow> 'ses muxs \<Rightarrow> 'ses" where
  "MuxConn_Session m h = mx_session (h m)"

definition MuxConn_Metrics :: "nat \<Rightarrow> 'ses muxs \<Rightarrow> conn_metrics" where
  "MuxConn_Metrics m h = mx_metrics (h m)"

definition MuxConn_IsClosed :: "nat \<Rightarrow> 'ses muxs \<Rightarrow> bool" where
  "MuxConn_IsClosed m h = mx_closed (h m)"

definition MuxConn_Close ::
    "('ses \<Rightarrow> unit res \<times> 'ses) \<Rightarrow> nat \<Rightarrow> 'ses muxs \<Rightarrow> unit res \<times> 'ses muxs" where
  "MuxConn_Close ses_Close m h =
     (if mx_closed (h m) then (Inr (), h)
      else case ses_Close (mx_session (h m)) of
        (Inl e, ses) \<Rightarrow> (Inl (Wrap ''failed to close session'' e),
           h(m := (h m)\<lparr>mx_closed := True, mx_session := ses\<rparr>))
      | (Inr _, ses) \<Rightarrow> (Inr (), h(m := (h m)\<lparr>mx_closed := True, mx_session := ses\<rparr>)))"

definition trackedStream_Close ::
    "tracked_stream \<Rightarrow> 'ses muxs \<Rightarrow> unit res \<times> tracked_stream \<times> 'ses muxs" where
  "trackedStream_Close t h =
     (let m = ts_owner t;
          h = (if ts_once t then h
               else h(m := (h m)\<lparr>mx_metrics := ConnMetrics_DecrementActiveStreams (mx_metrics (h m))\<rparr>))
      in case conn_Close (ts_Conn t) of (r, c) \<Rightarrow> (r, t\<lparr>ts_Conn := c, ts_once := True\<rparr>, h))"

section \<open>The selector\<close>

text \<open>The loop over \<open>conns[1:]\<close> with the best connection so far and its number of streams.\<close>

fun select_loop :: "'ses muxs \<Rightarrow> nat \<Rightarrow> int \<Rightarrow> nat list \<Rightarrow> nat" where
  "select_loop h best minStreams [] = best"
| "select_loop h best minStreams (conn # conns) =
     (let n = MuxConn_NumStreams conn h in
      if n < minStreams then select_loop h conn n conns else select_loop h best minStreams conns)"

fun LeastStreamsSelector_Select :: "'ses muxs \<Rightarrow> nat list \<Rightarrow> nat option" where
  "LeastStreamsSelector_Select h [] = None"
| "LeastStreamsSelector_Select h (best # conns) =
     Some (select_loop h best (MuxConn_NumStreams best h) conns)"

text \<open>The first position at which \<open>f\<close> is smallest.\<close>

definition first_min :: "('a \<Rightarrow> int) \<Rightarrow> 'a list \<Rightarrow> nat \<Rightarrow> bool" where
  "first_min f xs i \<longleftrightarrow> i < length xs \<and> (\<forall>x \<in> set xs. f (xs ! i) \<le> f x) \<and> (\<forall>j < i. f (xs ! i) < f (xs ! j))"

lemma first_min_unique:
  assumes "first_min f xs i" "first_min f xs j"
  shows "i = j"
proof (rule ccontr)
  assume "i \<noteq> j"
  then consider "i < j" | "j < i" by linarith
  then show False
    using assms nth_mem [of i xs] nth_mem [of j xs] unfolding first_min_def
    by cases (meson leD)+
qed

lemma first_min_Cons_0: "first_min f (x # xs) 0 \<longleftrightarrow> (\<forall>y \<in> set xs. f x \<le> f y)"
  by (auto simp: first_min_def)

lemma first_min_Cons_Suc: "first_min f xs i \<Longrightarrow> f (xs ! i) < f x \<Longrightarrow> first_min f (x # xs) (Suc i)"
  by (auto simp: first_min_def less_Suc_eq_0_disj)

lemma first_min_skip:
  assumes "first_min f (x # xs) i" "f x \<le> f y"
  shows "first_min f (x # y # xs) (if i = 0 then 0 else Suc i)"
  using assms
  by (cases i) (auto simp: first_min_def less_Suc_eq_0_disj)

lemma select_loop_first_min:
  "\<exists>i. first_min (\<lambda>r. MuxConn_NumStreams r h) (best # conns) i \<and>
     select_loop h best (MuxConn_NumStreams best h) conns = (best # conns) ! i"
proof (induction conns arbitrary: best)
  case Nil
  have "first_min (\<lambda>r. MuxConn_NumStreams r h) [best] 0"
    by (simp add: first_min_Cons_0)
  then show ?case by force
next
  case (Cons c conns)
  let ?f = "\<lambda>r. MuxConn_NumStreams r h"
  show ?case
  proof (cases "?f c < ?f best")
    case True
    obtain i where i: "first_min ?f (c # conns) i" "select_loop h c (?f c) conns = (c # conns) ! i"
      using Cons.IH by blast
    then have "?f ((c # conns) ! i) < ?f best"
      using True by (auto simp: first_min_def)
    with i True show ?thesis
      by (intro exI [of _ "Suc i"]) (simp add: first_min_Cons_Suc)
  next
    case False
    obtain i where i: "first_min ?f (best # conns) i"
        "select_loop h best (?f best) conns = (best # conns) ! i"
      using Cons.IH by blast
    with False show ?thesis
      using first_min_skip [OF i(1), of c]
      by (intro exI [of _ "if i = 0 then 0 else Suc i"]) (cases i; simp)
  qed
qed

lemma LeastStreams_first_min:
  "conns \<noteq> [] \<Longrightarrow> \<exists>i. first_min (\<lambda>r. MuxConn_NumStreams r h) conns i \<and>
     LeastStreamsSelector_Select h conns = Some (conns ! i)"
  using select_loop_first_min by (cases conns) auto

text \<open>C30 \<open>Select_least_streams\<close>. The selector returns nothing exactly when there is no connection; otherwise
  the connection at the first position with the fewest active streams, so that ties go to
  the oldest connection.\<close>

theorem Select_least_streams:
  "(LeastStreamsSelector_Select h conns = None \<longleftrightarrow> conns = []) \<and>
   (LeastStreamsSelector_Select h conns = Some r \<longleftrightarrow>
     (\<exists>i. first_min (\<lambda>r. MuxConn_NumStreams r h) conns i \<and> conns ! i = r))"
proof (cases "conns = []")
  case False
  then obtain i where i: "first_min (\<lambda>r. MuxConn_NumStreams r h) conns i"
    "LeastStreamsSelector_Select h conns = Some (conns ! i)"
    using LeastStreams_first_min by blast
  then have "first_min (\<lambda>r. MuxConn_NumStreams r h) conns j \<longleftrightarrow> j = i" for j
    using first_min_unique by blast
  with i False show ?thesis by simp
qed (simp add: first_min_def)

section \<open>What the pool needs of a selector\<close>

text \<open>The interface \<open>Selector\<close>: whatever the strategy, a connection of the slice, or none if it is empty.\<close>

locale selector =
  fixes Select :: "'ses muxs \<Rightarrow> nat list \<Rightarrow> nat option"
  assumes Select_Nil: "Select h [] = None"
    and Select_in: "conns \<noteq> [] \<Longrightarrow> \<exists>r \<in> set conns. Select h conns = Some r"
begin

lemma Select_None_iff: "Select h conns = None \<longleftrightarrow> conns = []"
  using Select_Nil Select_in [of conns h] by (cases "conns = []") auto

lemma Select_mem: "Select h conns = Some r \<Longrightarrow> r \<in> set conns"
  using Select_in [of conns h] Select_Nil [of h] by (cases "conns = []") auto

end

interpretation least: selector LeastStreamsSelector_Select
proof
  show "\<exists>r \<in> set conns. LeastStreamsSelector_Select h conns = Some r" if "conns \<noteq> []" for h conns
    using LeastStreams_first_min [OF that, of h] by (auto simp: first_min_def)
qed simp

section \<open>Closing\<close>

text \<open>\<open>Close\<close> marks the connection closed whether or not the session closes without
  an error, and the session is closed only once: closing again reports success and changes nothing,
  and no stream is opened or accepted afterwards. No other connection is touched and the counters stay.\<close>

theorem MuxConn_Close_once:
  "let h' = snd (MuxConn_Close ses_Close m h) in
   MuxConn_IsClosed m h' \<and> MuxConn_Close ses_Close2 m h' = (Inr (), h') \<and>
   MuxConn_OpenStream ses_Open m h' = (Inl (Errorf ''connection is closed'' []), h') \<and>
   MuxConn_AcceptStream ses_Accept m h' = (Inl (Errorf ''connection is closed'' []), h') \<and>
   h' = h(m := h' m) \<and> MuxConn_NumStreams m h' = MuxConn_NumStreams m h"
  by (auto simp: MuxConn_Close_def MuxConn_IsClosed_def MuxConn_OpenStream_def MuxConn_NumStreams_def
      MuxConn_AcceptStream_def Let_def split: prod.splits sum.splits)

end
