(* ===== verification/Pool_Scaler.thy ===== *)
theory Pool_Scaler
  imports Pool_Metrics
begin

text \<open>
  The pool's configuration (\<open>pool/pool.go\<close>) and the auto-scaler that decides from the metrics when a
  connection is added or removed (\<open>pool/scaler.go\<close>). \<open>now\<close> is the time of the call.
\<close>

section \<open>Configuration\<close>

record pool_config =
  pc_MinConnections :: int
  pc_MaxConnections :: int
  pc_ScaleUpThreshold :: int
  pc_ScaleDownThreshold :: int
  pc_LatencyThreshold :: int
  pc_ScaleCooldown :: int
  pc_MonitorInterval :: int

definition pool_DefaultConfig :: pool_config where
  "pool_DefaultConfig =
     \<lparr>pc_MinConnections = 1, pc_MaxConnections = 10, pc_ScaleUpThreshold = 800,
      pc_ScaleDownThreshold = 200, pc_LatencyThreshold = 100 * 1000000,
      pc_ScaleCooldown = 30 * 1000000000, pc_MonitorInterval = 10 * 1000000000\<rparr>"

definition pool_Validate :: "pool_config \<Rightarrow> unit res \<times> pool_config" where
  "pool_Validate c =
     (let c = (if pc_MinConnections c < 1 then c\<lparr>pc_MinConnections := 1\<rparr> else c);
          c = (if pc_MaxConnections c < pc_MinConnections c
               then c\<lparr>pc_MaxConnections := pc_MinConnections c\<rparr> else c);
          c = (if pc_ScaleUpThreshold c = 0 then c\<lparr>pc_ScaleUpThreshold := 800\<rparr> else c);
          c = (if pc_ScaleDownThreshold c = 0 then c\<lparr>pc_ScaleDownThreshold := 200\<rparr> else c)
      in if pc_ScaleDownThreshold c \<ge> pc_ScaleUpThreshold c
         then (Inl (Errorf ''scale down threshold must be less than scale up threshold'' []), c)
         else
           let c = (if pc_ScaleCooldown c = 0 then c\<lparr>pc_ScaleCooldown := 30 * 1000000000\<rparr> else c);
               c = (if pc_MonitorInterval c = 0 then c\<lparr>pc_MonitorInterval := 10 * 1000000000\<rparr> else c)
           in (Inr (), c))"

text \<open>What a pool may rely on once its configuration has been accepted.\<close>

definition pool_config_ok :: "pool_config \<Rightarrow> bool" where
  "pool_config_ok c \<longleftrightarrow> 1 \<le> pc_MinConnections c \<and> pc_MinConnections c \<le> pc_MaxConnections c \<and>
     pc_ScaleDownThreshold c < pc_ScaleUpThreshold c \<and> pc_ScaleUpThreshold c \<noteq> 0 \<and>
     pc_ScaleDownThreshold c \<noteq> 0 \<and> pc_ScaleCooldown c \<noteq> 0 \<and> pc_MonitorInterval c \<noteq> 0"

lemma pool_Validate_ok: "pool_config_ok c \<Longrightarrow> pool_Validate c = (Inr (), c)"
  by (simp add: pool_config_ok_def pool_Validate_def)

lemma pool_Validate_Inr: "fst (pool_Validate c) = Inr () \<Longrightarrow> pool_config_ok (snd (pool_Validate c))"
  by (auto simp: pool_Validate_def pool_config_ok_def Let_def split: if_splits)

text \<open>C38 \<open>pool_Validate_spec\<close>. \<open>Validate\<close> accepts a configuration exactly when its thresholds, with zero
  standing for the defaults, are in order. An accepted configuration has at least one and at most
  \<open>MaxConnections\<close> connections to keep, non-zero intervals, and is accepted unchanged when validated
  again; positive limits in order are not touched. The default configuration is accepted as it is.\<close>

theorem pool_Validate_spec:
  "(fst (pool_Validate c) = Inr () \<longleftrightarrow>
     (if pc_ScaleDownThreshold c = 0 then 200 else pc_ScaleDownThreshold c) <
     (if pc_ScaleUpThreshold c = 0 then 800 else pc_ScaleUpThreshold c)) \<and>
   (fst (pool_Validate c) = Inr () \<longrightarrow> pool_config_ok (snd (pool_Validate c)) \<and>
     pool_Validate (snd (pool_Validate c)) = (Inr (), snd (pool_Validate c))) \<and>
   pc_MinConnections (snd (pool_Validate c)) = max 1 (pc_MinConnections c) \<and>
   pc_MaxConnections (snd (pool_Validate c)) = max (max 1 (pc_MinConnections c)) (pc_MaxConnections c) \<and>
   pool_Validate pool_DefaultConfig = (Inr (), pool_DefaultConfig)"
proof -
  have "pool_Validate pool_DefaultConfig = (Inr (), pool_DefaultConfig)"
    by (rule pool_Validate_ok) (simp add: pool_config_ok_def pool_DefaultConfig_def)
  moreover have "pc_MinConnections (snd (pool_Validate c)) = max 1 (pc_MinConnections c)"
    "pc_MaxConnections (snd (pool_Validate c)) = max (max 1 (pc_MinConnections c)) (pc_MaxConnections c)"
    by (auto simp: pool_Validate_def Let_def)
  moreover have "fst (pool_Validate c) = Inr () \<longleftrightarrow>
     (if pc_ScaleDownThreshold c = 0 then 200 else pc_ScaleDownThreshold c) <
     (if pc_ScaleUpThreshold c = 0 then 800 else pc_ScaleUpThreshold c)"
    by (auto simp: pool_Validate_def Let_def)
  ultimately show ?thesis
    using pool_Validate_Inr [of c] pool_Validate_ok by blast
qed

theorem pool_Validate_spec_witness:
  "pool_config_ok (snd (pool_Validate pool_DefaultConfig)) \<and>
   fst (pool_Validate (pool_DefaultConfig\<lparr>pc_ScaleDownThreshold := 900\<rparr>)) \<noteq> Inr ()"
  using pool_Validate_spec [of pool_DefaultConfig]
    pool_Validate_spec [of "pool_DefaultConfig\<lparr>pc_ScaleDownThreshold := 900\<rparr>"]
  by (auto simp: pool_DefaultConfig_def pool_config_ok_def)

section \<open>The scaler\<close>

datatype scale_action = ScaleNone | ScaleUp | ScaleDown

record auto_scaler =
  as_config :: pool_config
  as_lastScaleTime :: int

definition NewAutoScaler :: "int \<Rightarrow> pool_config \<Rightarrow> auto_scaler" where
  "NewAutoScaler now config = \<lparr>as_config = config, as_lastScaleTime = now\<rparr>"

definition AutoScaler_Evaluate :: "int \<Rightarrow> metrics \<Rightarrow> auto_scaler \<Rightarrow> scale_action" where
  "AutoScaler_Evaluate now metrics s =
     (let config = as_config s; connCount = Metrics_ConnectionCount metrics in
      if now - as_lastScaleTime s < pc_ScaleCooldown config then ScaleNone
      else if connCount = 0 then (if pc_MinConnections config > 0 then ScaleUp else ScaleNone)
      else
        let activeStreams = Metrics_ActiveStreams metrics;
            avgStreamsPerConn = div64 activeStreams connCount
        in if connCount < pc_MaxConnections config \<and>
              (avgStreamsPerConn > pc_ScaleUpThreshold config \<or>
               pc_LatencyThreshold config > 0 \<and> Metrics_AvgLatency metrics > pc_LatencyThreshold config)
           then ScaleUp
           else if connCount > pc_MinConnections config \<and>
              avgStreamsPerConn < pc_ScaleDownThreshold config \<and>
              (pc_LatencyThreshold config = 0 \<or>
               Metrics_AvgLatency metrics < div64 (pc_LatencyThreshold config) 2)
           then ScaleDown
           else ScaleNone)"

definition AutoScaler_RecordScale :: "int \<Rightarrow> auto_scaler \<Rightarrow> auto_scaler" where
  "AutoScaler_RecordScale now s = s\<lparr>as_lastScaleTime := now\<rparr>"

lemma Evaluate_ScaleUp:
  assumes "AutoScaler_Evaluate now m s = ScaleUp" "pool_config_ok (as_config s)"
  shows "m_connectionCount m < pc_MaxConnections (as_config s) \<and>
    pc_ScaleCooldown (as_config s) \<le> now - as_lastScaleTime s"
  using assms
  by (auto simp: AutoScaler_Evaluate_def Let_def pool_config_ok_def Metrics_ConnectionCount_def
      split: if_splits)

lemma Evaluate_ScaleDown:
  assumes "AutoScaler_Evaluate now m s = ScaleDown"
  shows "pc_MinConnections (as_config s) < m_connectionCount m \<and> m_connectionCount m \<noteq> 0 \<and>
    div64 (m_activeStreams m) (m_connectionCount m) < pc_ScaleDownThreshold (as_config s) \<and>
    pc_ScaleCooldown (as_config s) \<le> now - as_lastScaleTime s"
  using assms
  by (auto simp: AutoScaler_Evaluate_def Let_def Metrics_ConnectionCount_def
      Metrics_ActiveStreams_def split: if_splits)

text \<open>C31 \<open>Evaluate_within_limits\<close>. With an accepted configuration the scaler recommends to add a connection
  only below the maximum and to remove one only above the minimum, and neither within the
  cooldown after the last scaling action, whatever the metrics say.\<close>

theorem Evaluate_within_limits:
  assumes "pool_config_ok (as_config s)"
  shows "(AutoScaler_Evaluate now m s = ScaleUp \<longrightarrow> m_connectionCount m < pc_MaxConnections (as_config s)) \<and>
    (AutoScaler_Evaluate now m s = ScaleDown \<longrightarrow> pc_MinConnections (as_config s) < m_connectionCount m) \<and>
    (now - t < pc_ScaleCooldown (as_config s) \<longrightarrow>
       AutoScaler_Evaluate now m (AutoScaler_RecordScale t s) = ScaleNone)"
  using assms Evaluate_ScaleUp Evaluate_ScaleDown
  by (auto simp: AutoScaler_Evaluate_def AutoScaler_RecordScale_def Let_def)

theorem Evaluate_within_limits_witness:
  "let s = NewAutoScaler 0 pool_DefaultConfig;
       m = NewMetrics\<lparr>m_connectionCount := 1, m_activeStreams := 900\<rparr>
   in AutoScaler_Evaluate 40000000000 m s = ScaleUp \<and>
      m_connectionCount m < pc_MaxConnections (as_config s) \<and>
      AutoScaler_Evaluate 40000000000 m (AutoScaler_RecordScale 39000000000 s) = ScaleNone"
proof -
  let ?s = "NewAutoScaler 0 pool_DefaultConfig"
  let ?m = "NewMetrics\<lparr>m_connectionCount := 1, m_activeStreams := 900\<rparr>"
  have "pool_config_ok (as_config ?s)"
    by (simp add: NewAutoScaler_def pool_config_ok_def pool_DefaultConfig_def)
  note E = Evaluate_within_limits [OF this, of 40000000000 ?m 39000000000]
  have "AutoScaler_Evaluate 40000000000 ?m ?s = ScaleUp"
    by (simp add: AutoScaler_Evaluate_def NewAutoScaler_def pool_DefaultConfig_def NewMetrics_def
        Metrics_ConnectionCount_def Metrics_ActiveStreams_def Let_def div64_nonneg)
  with E show ?thesis
    by (simp add: Let_def NewAutoScaler_def pool_DefaultConfig_def)
qed

lemma div_less_int:
  assumes "0 < (n :: int)"
  shows "a div n < d \<longleftrightarrow> a < d * n"
proof
  assume "a div n < d"
  then have "(a div n + 1) * n \<le> d * n"
    using assms by (intro mult_right_mono) simp_all
  moreover have "a < (a div n + 1) * n"
    unfolding distrib_right using div_mult_mod_eq [of a n] pos_mod_bound [OF assms, of a] by linarith
  ultimately show "a < d * n" by simp
next
  assume "a < d * n"
  moreover have "a div n * n \<le> a"
    using div_mult_mod_eq [of a n] pos_mod_sign [OF assms, of a] by linarith
  ultimately have "a div n * n < d * n" by simp
  then show "a div n < d"
    using assms by simp
qed

lemma div_fewer:
  assumes "0 \<le> a" "2 \<le> (n :: int)" "a div n < d" "0 \<le> d"
  shows "a div (n - 1) < 2 * d"
proof -
  have "a < d * n"
    using assms(2,3) by (simp add: div_less_int)
  moreover have "n * d \<le> 2 * (n - 1) * d"
    using assms(2,4) by (intro mult_right_mono) simp_all
  ultimately have "a < (2 * d) * (n - 1)"
    by (simp add: algebra_simps)
  then show ?thesis
    using assms(2) by (simp add: div_less_int)
qed

text \<open>C32 \<open>Evaluate_no_oscillation\<close>. When the upper threshold is at least twice the lower one, as in the
  default configuration, removing a connection because the streams are few never makes the scaler ask
  for it back: with one connection less, the same streams and the latency window reset, it does not
  recommend to scale up, at whatever time it is asked.\<close>

theorem Evaluate_no_oscillation:
  assumes "AutoScaler_Evaluate now m s = ScaleDown" "pool_config_ok (as_config s)"
    and "2 * pc_ScaleDownThreshold (as_config s) \<le> pc_ScaleUpThreshold (as_config s)"
    and "0 \<le> m_activeStreams m" "m_activeStreams m < 2 ^ 63"
  shows "AutoScaler_Evaluate later
      (Metrics_ResetLatency (m\<lparr>m_connectionCount := m_connectionCount m - 1\<rparr>)) (s\<lparr>as_lastScaleTime := t\<rparr>)
    \<noteq> ScaleUp"
proof -
  let ?n = "m_connectionCount m" and ?d = "pc_ScaleDownThreshold (as_config s)"
  note D = Evaluate_ScaleDown [OF assms(1)]
  from D assms(2) have n: "2 \<le> ?n"
    by (simp add: pool_config_ok_def)
  then have avg: "m_activeStreams m div ?n < ?d"
    using D assms(4,5) by (simp add: div64_nonneg)
  moreover have "0 \<le> m_activeStreams m div ?n"
    using assms(4) n by (simp add: pos_imp_zdiv_nonneg_iff)
  ultimately have "m_activeStreams m div (?n - 1) < 2 * ?d"
    using n assms(4) by (intro div_fewer) simp_all
  then have "div64 (m_activeStreams m) (?n - 1) \<le> pc_ScaleUpThreshold (as_config s)"
    using assms(3-5) n by (simp add: div64_nonneg)
  then show ?thesis
    using n by (auto simp: AutoScaler_Evaluate_def Let_def Metrics_ConnectionCount_def
        Metrics_ActiveStreams_def Metrics_ResetLatency_def Metrics_AvgLatency_def)
qed

theorem Evaluate_no_oscillation_witness:
  "let s = NewAutoScaler 0 pool_DefaultConfig;
       m = NewMetrics\<lparr>m_connectionCount := 2, m_activeStreams := 398\<rparr>
   in AutoScaler_Evaluate 40000000000 m s = ScaleDown \<and>
      AutoScaler_Evaluate 80000000000
        (Metrics_ResetLatency (m\<lparr>m_connectionCount := 1\<rparr>)) (s\<lparr>as_lastScaleTime := 40000000000\<rparr>) \<noteq> ScaleUp"
proof -
  let ?s = "NewAutoScaler 0 pool_DefaultConfig"
  let ?m = "NewMetrics\<lparr>m_connectionCount := 2, m_activeStreams := 398\<rparr>"
  have run: "AutoScaler_Evaluate 40000000000 ?m ?s = ScaleDown"
    by (simp add: AutoScaler_Evaluate_def NewAutoScaler_def pool_DefaultConfig_def NewMetrics_def
        Metrics_ConnectionCount_def Metrics_ActiveStreams_def Metrics_AvgLatency_def Let_def div64_nonneg)
  have "pool_config_ok (as_config ?s)"
    by (simp add: NewAutoScaler_def pool_config_ok_def pool_DefaultConfig_def)
  from Evaluate_no_oscillation [OF run this, of 80000000000 40000000000] run show ?thesis
    by (simp add: NewAutoScaler_def pool_DefaultConfig_def NewMetrics_def)
qed

end
