(* ===== verification/Pool.thy ===== *)
theory Pool
  imports Pool_MuxConn Pool_Scaler
begin

text \<open>
  \<open>pool/pool.go\<close>: the pool of multiplexed connections a listener keeps. The pool's methods run under
  its mutex, except that \<open>OpenStream\<close> opens the stream after the choice of the connection and \<open>scaleUp\<close>
  creates the connection between two critical sections; what other goroutines do in the meantime
  is the parameter \<open>env\<close> of \<open>Pool_scaleUp\<close>. Log messages are left out.
  \<open>p_cancel\<close> says that \<open>Start\<close> has been called, \<open>p_cancelled\<close> that its context is cancelled; the monitor
  goroutine and the locking of \<open>Close\<close> are the subject of the theory \<open>Pool_Monitor\<close>.
\<close>

section \<open>Model\<close>

record 'ses pool =
  p_selector :: "'ses muxs \<Rightarrow> nat list \<Rightarrow> nat option"
  p_config :: pool_config
  p_metrics :: metrics
  p_scaler :: auto_scaler
  p_onNewConn :: "('ses muxs \<Rightarrow> nat res \<times> 'ses muxs) option"
  p_cancel :: bool
  p_cancelled :: bool
  p_connections :: "nat list"

record pool_stream =
  ps_Conn :: tracked_stream
  ps_once :: bool

definition Pool_New :: "int \<Rightarrow> pool_config option \<Rightarrow> 'ses pool outcome" where
  "Pool_New now config =
     (case pool_Validate (case config of None \<Rightarrow> pool_DefaultConfig | Some c \<Rightarrow> c) of
        (Inl e, _) \<Rightarrow> Panic ''invalid pool config''
      | (Inr _, config) \<Rightarrow> Return
          \<lparr>p_selector = LeastStreamsSelector_Select, p_config = config, p_metrics = NewMetrics,
           p_scaler = NewAutoScaler now config, p_onNewConn = None, p_cancel = False,
           p_cancelled = False, p_connections = []\<rparr>)"

definition Pool_Start :: "('ses muxs \<Rightarrow> nat res \<times> 'ses muxs) \<Rightarrow> 'ses pool \<Rightarrow> 'ses pool" where
  "Pool_Start onNewConn p = p\<lparr>p_cancel := True, p_cancelled := False, p_onNewConn := Some onNewConn\<rparr>"

definition Pool_set_connections :: "nat list \<Rightarrow> 'ses pool \<Rightarrow> 'ses pool" where
  "Pool_set_connections conns p =
     p\<lparr>p_connections := conns, p_metrics := Metrics_SetConnectionCount (int (length conns)) (p_metrics p)\<rparr>"

definition Pool_AddConnection :: "nat \<Rightarrow> 'ses pool \<Rightarrow> unit res \<times> 'ses pool" where
  "Pool_AddConnection conn p =
     (if int (length (p_connections p)) \<ge> pc_MaxConnections (p_config p)
      then (Inl (Errorf ''pool is at maximum capacity'' []), p)
      else (Inr (), Pool_set_connections (p_connections p @ [conn]) p))"

definition Pool_RemoveConnection ::
    "('ses \<Rightarrow> unit res \<times> 'ses) \<Rightarrow> nat \<Rightarrow> 'ses muxs \<Rightarrow> 'ses pool \<Rightarrow> unit res \<times> 'ses muxs \<times> 'ses pool" where
  "Pool_RemoveConnection ses_Close conn h p =
     (case find_conn (\<lambda>c. c = conn) (p_connections p) of
        None \<Rightarrow> (Inl (Errorf ''connection not found in pool'' []), h, p)
      | Some i \<Rightarrow>
          (Inr (), snd (MuxConn_Close ses_Close conn h),
           Pool_set_connections (remove_at i (p_connections p)) p))"

definition Pool_OpenStream ::
    "('ses \<Rightarrow> conn res \<times> 'ses) \<Rightarrow> 'ses muxs \<Rightarrow> 'ses pool \<Rightarrow> pool_stream res \<times> 'ses muxs \<times> 'ses pool" where
  "Pool_OpenStream ses_Open h p =
     (case p_selector p h (p_connections p) of
        None \<Rightarrow> (Inl (Errorf ''no connections available in pool'' []), h, p)
      | Some conn \<Rightarrow>
     (case MuxConn_OpenStream ses_Open conn h of
        (Inl e, h) \<Rightarrow> (Inl (Wrap ''failed to open stream'' e), h, p)
      | (Inr stream, h) \<Rightarrow>
          (Inr \<lparr>ps_Conn = stream, ps_once = False\<rparr>, h,
           p\<lparr>p_metrics := Metrics_IncrementActiveStreams (p_metrics p)\<rparr>)))"

definition Pool_Connections :: "'ses pool \<Rightarrow> nat list" where
  "Pool_Connections p = p_connections p"

definition Pool_metrics :: "'ses pool \<Rightarrow> metrics" where
  "Pool_metrics p = p_metrics p"

text \<open>\<open>Close\<close>, once the monitor has ended.\<close>

definition Pool_Close ::
    "('ses \<Rightarrow> unit res \<times> 'ses) \<Rightarrow> 'ses muxs \<Rightarrow> 'ses pool \<Rightarrow> unit res \<times> 'ses muxs \<times> 'ses pool" where
  "Pool_Close ses_Close h p =
     (Inr (), fold (\<lambda>conn h. snd (MuxConn_Close ses_Close conn h)) (p_connections p) h,
      Pool_set_connections [] (if p_cancel p then p\<lparr>p_cancelled := True\<rparr> else p))"

definition Pool_scaleUp ::
    "('ses muxs \<times> 'ses pool \<Rightarrow> 'ses muxs \<times> 'ses pool) \<Rightarrow> 'ses muxs \<Rightarrow> 'ses pool
       \<Rightarrow> unit res \<times> 'ses muxs \<times> 'ses pool" where
  "Pool_scaleUp env h p =
     (let currentCount = int (length (p_connections p)) in
      if currentCount \<ge> pc_MaxConnections (p_config p)
      then (Inl (Errorf ''already at maximum connections'' []), h, p)
      else case p_onNewConn p of
        None \<Rightarrow> (Inl (Errorf ''no connection factory configured'' []), h, p)
      | Some onNewConn \<Rightarrow>
     (case onNewConn h of (r, h) \<Rightarrow>
     (case env (h, p) of (h, p) \<Rightarrow>
     (case r of
        Inl e \<Rightarrow> (Inl (Wrap ''failed to create new connection'' e), h, p)
      | Inr conn \<Rightarrow> (case Pool_AddConnection conn p of (r, p) \<Rightarrow> (r, h, p))))))"

text \<open>The loop of \<open>scaleDown\<close>: index, \<open>minStreams\<close>, and \<open>target\<close> with \<open>targetIdx\<close> once there is one.\<close>

fun scaleDown_loop :: "'ses muxs \<Rightarrow> nat \<Rightarrow> int \<Rightarrow> (nat \<times> nat) option \<Rightarrow> nat list \<Rightarrow> (nat \<times> nat) option" where
  "scaleDown_loop h i minStreams target [] = target"
| "scaleDown_loop h i minStreams target (conn # conns) =
     (let streams = MuxConn_NumStreams conn h in
      if minStreams = -1 \<or> streams < minStreams
      then scaleDown_loop h (Suc i) streams (Some (conn, i)) conns
      else scaleDown_loop h (Suc i) minStreams target conns)"

definition Pool_scaleDown ::
    "('ses \<Rightarrow> unit res \<times> 'ses) \<Rightarrow> 'ses muxs \<Rightarrow> 'ses pool \<Rightarrow> unit res \<times> 'ses muxs \<times> 'ses pool" where
  "Pool_scaleDown ses_Close h p =
     (if int (length (p_connections p)) \<le> pc_MinConnections (p_config p)
      then (Inl (Errorf ''already at minimum connections'' []), h, p)
      else case scaleDown_loop h 0 (-1) None (p_connections p) of
        None \<Rightarrow> (Inl (Errorf ''no connection to remove'' []), h, p)
      | Some (target, targetIdx) \<Rightarrow>
          (Inr (), snd (MuxConn_Close ses_Close target h),
           Pool_set_connections (remove_at targetIdx (p_connections p)) p))"

text \<open>\<open>later\<close> is the time at which the scaling is recorded.\<close>

definition Pool_evaluateScaling ::
    "('ses \<Rightarrow> unit res \<times> 'ses) \<Rightarrow> ('ses muxs \<times> 'ses pool \<Rightarrow> 'ses muxs \<times> 'ses pool) \<Rightarrow> int \<Rightarrow> int
       \<Rightarrow> 'ses muxs \<Rightarrow> 'ses pool \<Rightarrow> 'ses muxs \<times> 'ses pool" where
  "Pool_evaluateScaling ses_Close env now later h p =
     (let record = (\<lambda>(r, h, p). case r of
            Inl e \<Rightarrow> (h, p)
          | Inr _ \<Rightarrow> (h, p\<lparr>p_scaler := AutoScaler_RecordScale later (p_scaler p)\<rparr>));
          (h, p) = (case AutoScaler_Evaluate now (p_metrics p) (p_scaler p) of
            ScaleUp \<Rightarrow> record (Pool_scaleUp env h p)
          | ScaleDown \<Rightarrow> record (Pool_scaleDown ses_Close h p)
          | ScaleNone \<Rightarrow> (h, p))
      in (h, p\<lparr>p_metrics := Metrics_ResetLatency (p_metrics p)\<rparr>))"

definition poolTrackedStream_Close ::
    "pool_stream \<Rightarrow> 'ses muxs \<Rightarrow> 'ses pool \<Rightarrow> unit res \<times> pool_stream \<times> 'ses muxs \<times> 'ses pool" where
  "poolTrackedStream_Close s h p =
     (let p = (if ps_once s then p
               else p\<lparr>p_metrics := Metrics_DecrementActiveStreams (p_metrics p)\<rparr>)
      in case trackedStream_Close (ps_Conn s) h of
        (r, t, h) \<Rightarrow> (r, s\<lparr>ps_Conn := t, ps_once := True\<rparr>, h, p))"

section \<open>Limits\<close>

text \<open>What every critical section of the pool keeps. The counter of connections has 32 bits.\<close>

definition pool_inv :: "'ses pool \<Rightarrow> bool" where
  "pool_inv p \<longleftrightarrow> pool_config_ok (p_config p) \<and> as_config (p_scaler p) = p_config p \<and>
     pc_MaxConnections (p_config p) < 2 ^ 31 \<and>
     int (length (p_connections p)) \<le> pc_MaxConnections (p_config p) \<and>
     m_connectionCount (p_metrics p) = int (length (p_connections p))"

lemma Pool_New_inv:
  assumes "Pool_New now config = Return p" "pc_MaxConnections (p_config p) < 2 ^ 31"
  shows "pool_inv p \<and> p_connections p = [] \<and> p_metrics p = NewMetrics \<and> p_selector p = LeastStreamsSelector_Select"
proof -
  let ?c = "case config of None \<Rightarrow> pool_DefaultConfig | Some c \<Rightarrow> c"
  have c: "fst (pool_Validate ?c) = Inr ()"
    and p: "p_config p = snd (pool_Validate ?c)" "p_connections p = []" "p_metrics p = NewMetrics"
      "p_scaler p = NewAutoScaler now (p_config p)" "p_selector p = LeastStreamsSelector_Select"
    using assms(1) by (auto simp: Pool_New_def split: prod.splits sum.splits)
  then have "pool_config_ok (p_config p)"
    using pool_Validate_Inr [of ?c] by simp
  with p assms(2) show ?thesis
    by (auto simp: pool_inv_def NewAutoScaler_def NewMetrics_def pool_config_ok_def)
qed

lemma set_connections_inv:
  assumes "pool_inv p" "int (length conns) \<le> pc_MaxConnections (p_config p)"
  shows "pool_inv (Pool_set_connections conns p)"
  using assms by (auto simp: pool_inv_def Pool_set_connections_def Metrics_SetConnectionCount_def wrap32_small)

lemma AddConnection_inv: "pool_inv p \<Longrightarrow> pool_inv (snd (Pool_AddConnection conn p))"
  by (auto simp: Pool_AddConnection_def intro!: set_connections_inv)

lemma remove_at_inv:
  "pool_inv p \<Longrightarrow> i < length (p_connections p) \<Longrightarrow>
     pool_inv (Pool_set_connections (remove_at i (p_connections p)) p)"
  by (rule set_connections_inv) (auto simp: pool_inv_def)

lemma RemoveConnection_inv:
  "pool_inv p \<Longrightarrow> pool_inv (snd (snd (Pool_RemoveConnection ses_Close conn h p)))"
  by (auto simp: Pool_RemoveConnection_def split: option.splits dest!: find_conn_Some intro!: remove_at_inv)

lemma metrics_inv:
  "pool_inv p \<Longrightarrow> m_connectionCount m = m_connectionCount (p_metrics p) \<Longrightarrow> pool_inv (p\<lparr>p_metrics := m\<rparr>)"
  by (simp add: pool_inv_def)

lemma OpenStream_inv: "pool_inv p \<Longrightarrow> pool_inv (snd (snd (Pool_OpenStream ses_Open h p)))"
  by (auto simp: Pool_OpenStream_def Metrics_IncrementActiveStreams_def split: option.splits prod.splits
      sum.splits intro!: metrics_inv)

lemma Close_inv: "pool_inv p \<Longrightarrow> pool_inv (snd (snd (Pool_Close ses_Close h p)))"
  unfolding Pool_Close_def snd_conv
  by (rule set_connections_inv) (auto simp: pool_inv_def pool_config_ok_def)

lemma stream_Close_inv: "pool_inv p \<Longrightarrow> pool_inv (snd (snd (snd (poolTrackedStream_Close s h p))))"
  by (auto simp: poolTrackedStream_Close_def Metrics_DecrementActiveStreams_def split: prod.splits
      intro!: metrics_inv)

lemma scaleUp_inv:
  assumes "pool_inv p" "\<And>h p. pool_inv p \<Longrightarrow> pool_inv (snd (env (h, p)))"
  shows "pool_inv (snd (snd (Pool_scaleUp env h p)))"
proof -
  have "pool_inv p'" if "env (h', p) = (h'', p')" for h' h'' p'
    using assms(2) [OF assms(1), of h'] that by simp
  moreover have "pool_inv p''" if "Pool_AddConnection conn p' = (r, p'')" "pool_inv p'" for conn p' r p''
    using AddConnection_inv [OF that(2), of conn] that(1) by simp
  ultimately show ?thesis
    using assms(1)
    by (auto simp: Pool_scaleUp_def Let_def split: option.splits prod.splits sum.splits) blast
qed

text \<open>The loop of \<open>scaleDown\<close> finds what the selector would choose, as long as no counter is negative:
  \<open>minStreams == -1\<close> then means that no target has been chosen.\<close>

lemma scaleDown_loop_select:
  assumes "0 \<le> MuxConn_NumStreams best h" "\<forall>r \<in> set conns. 0 \<le> MuxConn_NumStreams r h"
  shows "map_option fst (scaleDown_loop h i (MuxConn_NumStreams best h) (Some (best, k)) conns) =
    Some (select_loop h best (MuxConn_NumStreams best h) conns)"
  using assms by (induction conns arbitrary: best i k) (auto simp: Let_def)

lemma scaleDown_loop_index:
  "scaleDown_loop h i mn (Some (best, k)) conns = Some (t, j) \<Longrightarrow>
     (t, j) = (best, k) \<or> (i \<le> j \<and> j < i + length conns \<and> conns ! (j - i) = t)"
proof (induction conns arbitrary: best i k mn)
  case (Cons c conns)
  have "scaleDown_loop h (Suc i) mn' (Some (best', k')) conns = Some (t, j) \<Longrightarrow>
     (best', k') = (best, k) \<or> (best', k') = (c, i) \<Longrightarrow> ?case" for mn' best' k'
    using Cons.IH [of "Suc i" mn' best' k'] by (auto simp: nth_Cons')
  then show ?case
    using Cons.prems by (auto simp: Let_def split: if_splits)
qed simp

lemma scaleDown_loop_found:
  assumes "conns \<noteq> []" "\<forall>r \<in> set conns. 0 \<le> MuxConn_NumStreams r h"
  obtains t j where "scaleDown_loop h 0 (-1) None conns = Some (t, j)" "j < length conns" "conns ! j = t"
    "LeastStreamsSelector_Select h conns = Some t"
proof -
  obtain c cs where conns: "conns = c # cs"
    using assms(1) by (cases conns) auto
  have "map_option fst (scaleDown_loop h 0 (-1) None conns) = LeastStreamsSelector_Select h conns"
    using scaleDown_loop_select [of c h cs "Suc 0" 0] assms(2) by (simp add: conns Let_def)
  then obtain t j where loop: "scaleDown_loop h 0 (-1) None conns = Some (t, j)"
    and t: "LeastStreamsSelector_Select h conns = Some t"
    by (cases "scaleDown_loop h 0 (-1) None conns") (auto simp: conns)
  have "(t, j) = (c, 0) \<or> (1 \<le> j \<and> j < 1 + length cs \<and> cs ! (j - 1) = t)"
    using loop scaleDown_loop_index [of h "Suc 0" _ c 0 cs t j] by (simp add: conns Let_def)
  then have "j < length conns" "conns ! j = t"
    by (auto simp: conns nth_Cons split: nat.splits)
  then show thesis
    using that loop t by blast
qed

lemma scaleDown_loop_bound:
  "scaleDown_loop h 0 (-1) None conns = Some (t, j) \<Longrightarrow> j < length conns"
  using scaleDown_loop_index [of h "Suc 0" _ _ 0 "tl conns" t j]
  by (cases conns) (fastforce simp: Let_def)+

lemma scaleDown_inv:
  "pool_inv p \<Longrightarrow> pool_inv (snd (snd (Pool_scaleDown ses_Close h p)))"
  by (auto simp: Pool_scaleDown_def split: option.splits dest!: scaleDown_loop_bound intro!: remove_at_inv)

section \<open>Scaling\<close>

text \<open>C29 \<open>scaleDown_removes_least\<close>. Above the minimum, and as long as no stream counter is negative, \<open>scaleDown\<close>
  succeeds: it closes the connection the selector would choose, removes that one entry and keeps
  the others in their order. At or below the minimum it fails and changes nothing.\<close>

theorem scaleDown_removes_least:
  assumes "\<forall>r \<in> set (p_connections p). 0 \<le> MuxConn_NumStreams r h" "0 \<le> pc_MinConnections (p_config p)"
  shows "if int (length (p_connections p)) \<le> pc_MinConnections (p_config p)
    then Pool_scaleDown ses_Close h p = (Inl (Errorf ''already at minimum connections'' []), h, p)
    else \<exists>t j. LeastStreamsSelector_Select h (p_connections p) = Some t \<and>
      j < length (p_connections p) \<and> p_connections p ! j = t \<and>
      Pool_scaleDown ses_Close h p = (Inr (), snd (MuxConn_Close ses_Close t h),
        Pool_set_connections (remove_at j (p_connections p)) p)"
proof (cases "int (length (p_connections p)) \<le> pc_MinConnections (p_config p)")
  case False
  with assms(2) have "p_connections p \<noteq> []" by auto
  then obtain t j where "scaleDown_loop h 0 (-1) None (p_connections p) = Some (t, j)"
    "j < length (p_connections p)" "p_connections p ! j = t"
    "LeastStreamsSelector_Select h (p_connections p) = Some t"
    using scaleDown_loop_found assms(1) by metis
  with False show ?thesis
    by (auto simp: Pool_scaleDown_def)
qed (simp add: Pool_scaleDown_def)

text \<open>A heap of connections that differ in their number of streams, on sessions that always work.\<close>

definition example_muxs :: "unit muxs" where
  "example_muxs m = (NewMuxConn 0 () None)\<lparr>mx_metrics := (NewConnMetrics 0)\<lparr>cm_activeStreams := int (m mod 3)\<rparr>\<rparr>"

definition example_pool :: "nat list \<Rightarrow> unit pool" where
  "example_pool conns =
     (case Pool_New 0 None of Return p \<Rightarrow> Pool_set_connections conns p | Panic m \<Rightarrow> undefined)"

lemma example_pool_simps [simp]:
  "p_connections (example_pool conns) = conns" "p_config (example_pool conns) = pool_DefaultConfig"
  "p_selector (example_pool conns) = LeastStreamsSelector_Select"
  "p_scaler (example_pool conns) = NewAutoScaler 0 pool_DefaultConfig"
  "p_metrics (example_pool conns) = Metrics_SetConnectionCount (int (length conns)) NewMetrics"
  "p_onNewConn (example_pool conns) = None"
  using pool_Validate_ok [of pool_DefaultConfig]
  by (simp_all add: example_pool_def Pool_New_def Pool_set_connections_def pool_config_ok_def
      pool_DefaultConfig_def)

theorem scaleDown_removes_least_witness:
  "p_connections (snd (snd (Pool_scaleDown (\<lambda>s. (Inr (), s)) example_muxs (example_pool [4, 2, 3, 6])))) = [4, 2, 6]"
proof -
  let ?p = "example_pool [4, 2, 3, 6]"
  have sel: "LeastStreamsSelector_Select example_muxs [4, 2, 3, 6] = Some 3"
    by (simp add: MuxConn_NumStreams_def ConnMetrics_ActiveStreams_def example_muxs_def Let_def)
  have "\<forall>r \<in> set (p_connections ?p). 0 \<le> MuxConn_NumStreams r example_muxs"
    "0 \<le> pc_MinConnections (p_config ?p)"
    by (auto simp: MuxConn_NumStreams_def ConnMetrics_ActiveStreams_def example_muxs_def
        pool_DefaultConfig_def)
  from scaleDown_removes_least [OF this, of "\<lambda>s. (Inr (), s)"] sel
  obtain j where j: "j < length [4, 2, 3, 6 :: nat]" "[4, 2, 3, 6] ! j = (3 :: nat)" and run:
    "Pool_scaleDown (\<lambda>s. (Inr (), s)) example_muxs ?p = (Inr (),
       snd (MuxConn_Close (\<lambda>s. (Inr (), s)) 3 example_muxs), Pool_set_connections (remove_at j [4, 2, 3, 6]) ?p)"
    by (fastforce simp: pool_DefaultConfig_def simp del: LeastStreamsSelector_Select.simps)
  from j have "j = 2"
    by (auto simp: less_Suc_eq numeral_eq_Suc)
  with run show ?thesis
    by (simp add: Pool_set_connections_def numeral_2_eq_2)
qed

lemma AddConnection_Inr:
  "Pool_AddConnection conn p = (Inr u, p') \<Longrightarrow> p_connections p' = p_connections p @ [conn]"
  by (auto simp: Pool_AddConnection_def Pool_set_connections_def split: if_splits)

lemma scaleDown_length:
  "length (p_connections (snd (snd (Pool_scaleDown ses_Close h p)))) = length (p_connections p) \<or>
   pc_MinConnections (p_config p) < int (length (p_connections p)) \<and>
   Suc (length (p_connections (snd (snd (Pool_scaleDown ses_Close h p))))) = length (p_connections p)"
  by (auto simp: Pool_scaleDown_def Pool_set_connections_def split: option.splits dest!: scaleDown_loop_bound)

lemma scaleUp_length:
  assumes "pool_inv p"
  shows "length (p_connections (snd (snd (Pool_scaleUp id h p)))) \<in>
     {length (p_connections p), Suc (length (p_connections p))}"
  by (auto simp: Pool_scaleUp_def Pool_AddConnection_def Pool_set_connections_def Let_def
      split: option.splits prod.splits sum.splits)

text \<open>C28 \<open>evaluateScaling_limits\<close>. One round of the monitor keeps the pool within its limits whatever other
  goroutines do while a new connection is being made, if they keep the pool's invariant. Without such
  interference the number of connections changes by at most one, and a pool that has its minimum keeps it.\<close>

theorem evaluateScaling_limits:
  assumes "pool_inv p" "\<And>h p. pool_inv p \<Longrightarrow> pool_inv (snd (env (h, p)))"
  shows "pool_inv (snd (Pool_evaluateScaling ses_Close env now later h p)) \<and>
    (env = id \<longrightarrow>
      \<bar>int (length (p_connections (snd (Pool_evaluateScaling ses_Close env now later h p)))) -
        int (length (p_connections p))\<bar> \<le> 1 \<and>
      (pc_MinConnections (p_config p) \<le> int (length (p_connections p)) \<longrightarrow>
       pc_MinConnections (p_config p) \<le>
         int (length (p_connections (snd (Pool_evaluateScaling ses_Close env now later h p))))))"
proof -
  obtain r1 h1 p1 where up: "Pool_scaleUp env h p = (r1, h1, p1)" by (metis prod_cases3)
  obtain r2 h2 p2 where down: "Pool_scaleDown ses_Close h p = (r2, h2, p2)" by (metis prod_cases3)
  let ?p' = "snd (Pool_evaluateScaling ses_Close env now later h p)"
  have inv: "pool_inv p1" "pool_inv p2"
    using scaleUp_inv [OF assms(1), of env h] assms(2) scaleDown_inv [OF assms(1), of ses_Close h] up down by simp_all
  have upd: "pool_inv (q\<lparr>p_metrics := Metrics_ResetLatency (p_metrics q)\<rparr>)"
    "pool_inv (q\<lparr>p_scaler := AutoScaler_RecordScale later (p_scaler q),
       p_metrics := Metrics_ResetLatency (p_metrics q)\<rparr>)" if "pool_inv q" for q :: "'a pool"
    using that by (auto simp: pool_inv_def Metrics_ResetLatency_def AutoScaler_RecordScale_def)
  have conns: "pool_inv ?p' \<and> p_connections ?p' \<in> {p_connections p, p_connections p1, p_connections p2}"
    using assms(1) inv upd
    by (auto simp: Pool_evaluateScaling_def Let_def up down split: scale_action.splits sum.splits)
  moreover have "env = id \<Longrightarrow> length (p_connections p1) \<in> {length (p_connections p), Suc (length (p_connections p))}"
    using scaleUp_length [OF assms(1), of h] up by auto
  moreover have "length (p_connections p2) = length (p_connections p) \<or>
      pc_MinConnections (p_config p) < int (length (p_connections p)) \<and>
      Suc (length (p_connections p2)) = length (p_connections p)"
    using scaleDown_length [of ses_Close h p] down by simp
  ultimately show ?thesis
    by auto
qed

theorem evaluateScaling_limits_witness:
  "let p' = snd (Pool_evaluateScaling (\<lambda>s. (Inr (), s)) id 40000000000 40000000000 example_muxs (example_pool [4, 2, 3]))
   in length (p_connections p') \<in> {2, 3, 4} \<and> p_connections p' = [4, 2]"
proof -
  let ?p' = "snd (Pool_evaluateScaling (\<lambda>s. (Inr (), s)) id 40000000000 40000000000 example_muxs (example_pool [4, 2, 3]))"
  have "pool_inv (example_pool [4, 2, 3])"
    by (simp add: pool_inv_def pool_DefaultConfig_def pool_config_ok_def NewAutoScaler_def
        Metrics_SetConnectionCount_def wrap32_small)
  from evaluateScaling_limits [OF this, of id "\<lambda>s. (Inr (), s)" 40000000000 40000000000 example_muxs]
  have "length (p_connections ?p') \<in> {2, 3, 4}" by auto
  moreover have "p_connections ?p' = [4, 2]" by code_simp
  ultimately show ?thesis by (simp add: Let_def)
qed

text \<open>\<open>scaleUp\<close> checks the capacity before it makes the connection and adds it after.
  When the last free place is taken in between, the new connection is dropped: the call fails, the
  connection is in no pool and is not closed.\<close>

theorem scaleUp_loses_connection:
  assumes "int (length (p_connections p)) = pc_MaxConnections (p_config p) - 1"
    and "p_onNewConn p = Some onNewConn" "onNewConn h = (Inr m, h1)" "\<not> mx_closed (h1 m)"
    and "other \<noteq> m" "m \<notin> set (p_connections p)"
  shows "\<exists>p'. Pool_scaleUp (\<lambda>(h, p). (h, snd (Pool_AddConnection other p))) h p =
      (Inl (Errorf ''pool is at maximum capacity'' []), h1, p') \<and>
    m \<notin> set (p_connections p') \<and> \<not> MuxConn_IsClosed m h1"
  using assms
  by (simp add: Pool_scaleUp_def Pool_AddConnection_def Pool_set_connections_def MuxConn_IsClosed_def)

theorem scaleUp_loses_connection_witness:
  "\<exists>p'. Pool_scaleUp (\<lambda>(h, p). (h, snd (Pool_AddConnection 20 p))) example_muxs
      (Pool_Start (\<lambda>h. (Inr 21, h)) (example_pool [0..<9])) =
     (Inl (Errorf ''pool is at maximum capacity'' []), example_muxs, p') \<and> 21 \<notin> set (p_connections p')"
proof -
  let ?p = "Pool_Start (\<lambda>h. (Inr 21, h)) (example_pool [0..<9])"
  have "\<exists>p'. Pool_scaleUp (\<lambda>(h, p). (h, snd (Pool_AddConnection 20 p))) example_muxs ?p =
      (Inl (Errorf ''pool is at maximum capacity'' []), example_muxs, p') \<and>
      21 \<notin> set (p_connections p') \<and> \<not> MuxConn_IsClosed 21 example_muxs"
    by (rule scaleUp_loses_connection [where onNewConn = "\<lambda>h. (Inr 21, h)"])
       (simp_all add: Pool_Start_def pool_DefaultConfig_def example_muxs_def NewMuxConn_def)
  then show ?thesis by blast
qed

section \<open>Runs\<close>

text \<open>
  The pool, the heap of connections and the streams handed out so far. An operation is one
  critical section, so a list of operations is an interleaving of calls by any number of goroutines;
  the addition a \<open>scaleUp\<close> ends with is a \<open>PAdd\<close>. A stream is closed by its position in the list.
\<close>

record 'ses pool_state =
  st_pool :: "'ses pool"
  st_muxs :: "'ses muxs"
  st_streams :: "pool_stream list"

datatype pool_op = PAdd nat | PRemove nat | POpen | PStreamClose nat | PScaleDown | PClose

fun pool_exec ::
    "('ses \<Rightarrow> conn res \<times> 'ses) \<Rightarrow> ('ses \<Rightarrow> unit res \<times> 'ses) \<Rightarrow> pool_op \<Rightarrow> 'ses pool_state \<Rightarrow> 'ses pool_state" where
  "pool_exec so sc (PAdd m) st = st\<lparr>st_pool := snd (Pool_AddConnection m (st_pool st))\<rparr>"
| "pool_exec so sc (PRemove m) st =
     (case Pool_RemoveConnection sc m (st_muxs st) (st_pool st) of
        (_, h, p) \<Rightarrow> st\<lparr>st_pool := p, st_muxs := h\<rparr>)"
| "pool_exec so sc POpen st =
     (case Pool_OpenStream so (st_muxs st) (st_pool st) of
        (Inl _, h, p) \<Rightarrow> st\<lparr>st_pool := p, st_muxs := h\<rparr>
      | (Inr s, h, p) \<Rightarrow> st\<lparr>st_pool := p, st_muxs := h, st_streams := st_streams st @ [s]\<rparr>)"
| "pool_exec so sc (PStreamClose i) st =
     (if i < length (st_streams st)
      then case poolTrackedStream_Close (st_streams st ! i) (st_muxs st) (st_pool st) of
        (_, s, h, p) \<Rightarrow> st\<lparr>st_pool := p, st_muxs := h, st_streams := (st_streams st)[i := s]\<rparr>
      else st)"
| "pool_exec so sc PScaleDown st =
     (case Pool_scaleDown sc (st_muxs st) (st_pool st) of (_, h, p) \<Rightarrow> st\<lparr>st_pool := p, st_muxs := h\<rparr>)"
| "pool_exec so sc PClose st =
     (case Pool_Close sc (st_muxs st) (st_pool st) of (_, h, p) \<Rightarrow> st\<lparr>st_pool := p, st_muxs := h\<rparr>)"

lemma pool_exec_inv: "pool_inv (st_pool st) \<Longrightarrow> pool_inv (st_pool (pool_exec so sc op st))"
proof (cases op)
  case (PRemove m)
  then show "pool_inv (st_pool st) \<Longrightarrow> ?thesis"
    using RemoveConnection_inv [of "st_pool st" sc m "st_muxs st"] by (auto split: prod.splits)
next
  case POpen
  then show "pool_inv (st_pool st) \<Longrightarrow> ?thesis"
    using OpenStream_inv [of "st_pool st" so "st_muxs st"] by (auto split: prod.splits sum.splits)
next
  case (PStreamClose i)
  then show "pool_inv (st_pool st) \<Longrightarrow> ?thesis"
    using stream_Close_inv [of "st_pool st" "st_streams st ! i" "st_muxs st"] by (auto split: prod.splits)
next
  case PScaleDown
  then show "pool_inv (st_pool st) \<Longrightarrow> ?thesis"
    using scaleDown_inv [of "st_pool st" sc "st_muxs st"] by (auto split: prod.splits)
next
  case PClose
  then show "pool_inv (st_pool st) \<Longrightarrow> ?thesis"
    using Close_inv [of "st_pool st" sc "st_muxs st"] by (auto split: prod.splits)
qed (simp add: AddConnection_inv)

subsection \<open>Counting streams\<close>

definition count_if :: "('a \<Rightarrow> bool) \<Rightarrow> 'a list \<Rightarrow> int" where
  "count_if P xs = int (length (filter P xs))"

lemma count_if_bounds: "0 \<le> count_if P xs" "count_if P xs \<le> int (length xs)"
  by (simp_all add: count_if_def)

lemma count_if_snoc [simp]: "count_if P (xs @ [x]) = count_if P xs + of_bool (P x)"
  by (simp add: count_if_def)

lemma count_if_update:
  "i < length xs \<Longrightarrow> count_if P (xs[i := y]) = count_if P xs - of_bool (P (xs ! i)) + of_bool (P y)"
proof (induction xs arbitrary: i)
  case (Cons x xs)
  then show ?case
    by (cases i) (auto simp: count_if_def)
qed simp

text \<open>A stream is open until its first \<open>Close\<close>; \<open>open_on m\<close>: opened on the connection \<open>m\<close>.\<close>

definition open_on :: "nat \<Rightarrow> pool_stream \<Rightarrow> bool" where
  "open_on m s \<longleftrightarrow> ts_owner (ps_Conn s) = m \<and> \<not> ts_once (ps_Conn s)"

definition counters_ok :: "'ses pool_state \<Rightarrow> bool" where
  "counters_ok st \<longleftrightarrow>
     m_activeStreams (p_metrics (st_pool st)) = count_if (\<lambda>s. \<not> ps_once s) (st_streams st) \<and>
     (\<forall>m. MuxConn_NumStreams m (st_muxs st) = count_if (open_on m) (st_streams st))"

lemma MuxConn_Close_NumStreams [simp]:
  "MuxConn_NumStreams r (snd (MuxConn_Close sc m h)) = MuxConn_NumStreams r h"
  by (auto simp: MuxConn_Close_def MuxConn_NumStreams_def split: prod.splits sum.splits)

lemma fold_Close_NumStreams [simp]:
  "MuxConn_NumStreams r (fold (\<lambda>m h. snd (MuxConn_Close sc m h)) ms h) = MuxConn_NumStreams r h"
  by (induction ms arbitrary: h) simp_all

lemma set_connections_active [simp]:
  "m_activeStreams (p_metrics (Pool_set_connections conns p)) = m_activeStreams (p_metrics p)"
  by (simp add: Pool_set_connections_def Metrics_SetConnectionCount_def)

lemma wrap_count: "-1 \<le> i \<Longrightarrow> i < 2 ^ 31 \<Longrightarrow> wrap32 i = i \<and> wrap64 i = i"
  by (simp add: wrap32_small wrap64_small)

lemma counters_open:
  assumes "counters_ok st" "int (length (st_streams st)) + 1 < 2 ^ 31"
  shows "counters_ok (pool_exec so sc POpen st)"
proof -
  have bounds: "count_if P (st_streams st) + 1 < 2 ^ 31" "0 \<le> count_if P (st_streams st)" for P
    using count_if_bounds [of P "st_streams st"] assms(2) by simp_all
  have "wrap32 (count_if P (st_streams st) + 1) = count_if P (st_streams st) + 1"
    "wrap64 (count_if P (st_streams st) + 1) = count_if P (st_streams st) + 1" for P
    using bounds [of P] wrap_count [of "count_if P (st_streams st) + 1"] by simp_all
  with assms(1) show ?thesis
    by (auto simp: counters_ok_def Pool_OpenStream_def MuxConn_OpenStream_def MuxConn_NumStreams_def
        ConnMetrics_ActiveStreams_def ConnMetrics_IncrementActiveStreams_def open_on_def
        Metrics_IncrementActiveStreams_def split: option.splits prod.splits sum.splits)
qed

lemma counters_stream_Close:
  assumes "counters_ok st" "int (length (st_streams st)) < 2 ^ 31"
  shows "counters_ok (pool_exec so sc (PStreamClose i) st)"
proof -
  have bounds: "count_if P (st_streams st) < 2 ^ 31" "0 \<le> count_if P (st_streams st)" for P
    using count_if_bounds [of P "st_streams st"] assms(2) by simp_all
  have "wrap32 (count_if P (st_streams st) - 1) = count_if P (st_streams st) - 1"
    "wrap64 (count_if P (st_streams st) - 1) = count_if P (st_streams st) - 1" for P
    using bounds [of P] wrap_count [of "count_if P (st_streams st) - 1"] by simp_all
  with assms(1) show ?thesis
    by (auto simp: counters_ok_def poolTrackedStream_Close_def trackedStream_Close_def MuxConn_NumStreams_def
        ConnMetrics_ActiveStreams_def ConnMetrics_DecrementActiveStreams_def open_on_def count_if_update
        Metrics_DecrementActiveStreams_def Let_def split: prod.splits)
qed

lemma pool_exec_counters:
  assumes "counters_ok st" "int (length (st_streams st)) + 1 < 2 ^ 31"
  shows "counters_ok (pool_exec so sc op st) \<and> length (st_streams (pool_exec so sc op st)) \<le> Suc (length (st_streams st))"
proof (cases op)
  case POpen
  with counters_open [OF assms, of so sc] show ?thesis
    by (auto split: prod.splits sum.splits)
next
  case (PStreamClose i)
  with counters_stream_Close [OF assms(1), of so sc i] assms(2) show ?thesis
    by (auto split: prod.splits)
qed (use assms in \<open>auto simp: counters_ok_def Pool_AddConnection_def Pool_RemoveConnection_def
  Pool_scaleDown_def Pool_Close_def split: option.splits\<close>)

lemma pool_run_ok:
  assumes "pool_inv (st_pool st)" "counters_ok st" "int (length (st_streams st)) + int (length ops) < 2 ^ 31"
  shows "let st' = fold (pool_exec so sc) ops st in pool_inv (st_pool st') \<and> counters_ok st'"
  using assms
proof (induction ops arbitrary: st)
  case (Cons op ops)
  have "pool_inv (st_pool (pool_exec so sc op st))"
    by (rule pool_exec_inv [OF Cons.prems(1)])
  moreover have "counters_ok (pool_exec so sc op st)"
    "length (st_streams (pool_exec so sc op st)) \<le> Suc (length (st_streams st))"
    using pool_exec_counters [OF Cons.prems(2), of so sc op] Cons.prems(3) by simp_all
  ultimately show ?case
    using Cons.IH [of "pool_exec so sc op st"] Cons.prems(3) by simp
qed simp



end
