(* ===== verification/Pool_Monitor.thy ===== *)
theory Pool_Monitor
  imports Pool
begin

text \<open>
  The goroutine \<open>Start\<close> launches (\<open>monitorAndScale\<close>) beside a call of \<open>Close\<close>, at the level of locks: who
  holds the pool's mutex, where each of the two is in its code, and whether the context is
  cancelled. Both \<open>RLock\<close> and \<open>Lock\<close> need the mutex free of the other side. What they do to the
  connections is modelled in the theory \<open>Pool\<close>.
\<close>

datatype pool_lock = Free | HeldByClose | HeldByMonitor

text \<open>\<open>Close\<close>: before \<open>p.mu.Lock()\<close>, before \<open>p.cancel()\<close>, in \<open>p.wg.Wait()\<close>, closing the connections, returned.\<close>

datatype close_pc = CloseCalled | CloseLocked | CloseWaiting | CloseConns | CloseReturned

text \<open>
  The monitor: in its \<open>select\<close>; in \<open>evaluateScaling\<close> before an action; in \<open>scaleUp\<close> before and inside its
  first critical section, in \<open>onNewConn\<close>, before and inside \<open>AddConnection\<close>; before and inside
  \<open>scaleDown\<close>; ended, with \<open>p.wg.Done()\<close>.
\<close>

datatype monitor_pc =
    MonSelect | MonEvaluate
  | UpWantRead | UpReading | UpDial | UpWantAdd | UpAdding
  | DownWant | Downing
  | MonDone

record monitor_state =
  ms_lock :: pool_lock
  ms_cancelled :: bool
  ms_close :: close_pc
  ms_monitor :: monitor_pc

definition monitor_init :: monitor_state where
  "monitor_init = \<lparr>ms_lock = Free, ms_cancelled = False, ms_close = CloseCalled, ms_monitor = MonSelect\<rparr>"

inductive monitor_step :: "monitor_state \<Rightarrow> monitor_state \<Rightarrow> bool" where
  close_lock: "ms_close s = CloseCalled \<Longrightarrow> ms_lock s = Free \<Longrightarrow>
     monitor_step s (s\<lparr>ms_close := CloseLocked, ms_lock := HeldByClose\<rparr>)"
| close_cancel: "ms_close s = CloseLocked \<Longrightarrow>
     monitor_step s (s\<lparr>ms_close := CloseWaiting, ms_cancelled := True\<rparr>)"
| close_waited: "ms_close s = CloseWaiting \<Longrightarrow> ms_monitor s = MonDone \<Longrightarrow>
     monitor_step s (s\<lparr>ms_close := CloseConns\<rparr>)"
| close_return: "ms_close s = CloseConns \<Longrightarrow>
     monitor_step s (s\<lparr>ms_close := CloseReturned, ms_lock := Free\<rparr>)"
| mon_done: "ms_monitor s = MonSelect \<Longrightarrow> ms_cancelled s \<Longrightarrow> monitor_step s (s\<lparr>ms_monitor := MonDone\<rparr>)"
| mon_tick: "ms_monitor s = MonSelect \<Longrightarrow> monitor_step s (s\<lparr>ms_monitor := MonEvaluate\<rparr>)"
| mon_action: "ms_monitor s = MonEvaluate \<Longrightarrow> next \<in> {MonSelect, UpWantRead, DownWant} \<Longrightarrow>
     monitor_step s (s\<lparr>ms_monitor := next\<rparr>)"
| up_rlock: "ms_monitor s = UpWantRead \<Longrightarrow> ms_lock s = Free \<Longrightarrow>
     monitor_step s (s\<lparr>ms_monitor := UpReading, ms_lock := HeldByMonitor\<rparr>)"
| up_runlock: "ms_monitor s = UpReading \<Longrightarrow> next \<in> {MonSelect, UpDial} \<Longrightarrow>
     monitor_step s (s\<lparr>ms_monitor := next, ms_lock := Free\<rparr>)"
| up_dial: "ms_monitor s = UpDial \<Longrightarrow> next \<in> {MonSelect, UpWantAdd} \<Longrightarrow>
     monitor_step s (s\<lparr>ms_monitor := next\<rparr>)"
| up_lock: "ms_monitor s = UpWantAdd \<Longrightarrow> ms_lock s = Free \<Longrightarrow>
     monitor_step s (s\<lparr>ms_monitor := UpAdding, ms_lock := HeldByMonitor\<rparr>)"
| up_unlock: "ms_monitor s = UpAdding \<Longrightarrow> monitor_step s (s\<lparr>ms_monitor := MonSelect, ms_lock := Free\<rparr>)"
| down_lock: "ms_monitor s = DownWant \<Longrightarrow> ms_lock s = Free \<Longrightarrow>
     monitor_step s (s\<lparr>ms_monitor := Downing, ms_lock := HeldByMonitor\<rparr>)"
| down_unlock: "ms_monitor s = Downing \<Longrightarrow> monitor_step s (s\<lparr>ms_monitor := MonSelect, ms_lock := Free\<rparr>)"

inductive_cases monitor_stepE: "monitor_step s s'"

inductive_simps monitor_step_iff: "monitor_step s s'"

definition monitor_reachable :: "monitor_state \<Rightarrow> bool" where
  "monitor_reachable s \<longleftrightarrow> monitor_step\<^sup>*\<^sup>* monitor_init s"

definition wants_lock :: "monitor_pc \<Rightarrow> bool" where
  "wants_lock m \<longleftrightarrow> m \<in> {UpWantRead, UpWantAdd, DownWant}"

definition holds_lock :: "monitor_pc \<Rightarrow> bool" where
  "holds_lock m \<longleftrightarrow> m \<in> {UpReading, UpAdding, Downing}"

text \<open>The mutex is where the program counters say, and \<open>Close\<close> goes on only after the monitor has ended.\<close>

definition monitor_inv :: "monitor_state \<Rightarrow> bool" where
  "monitor_inv s \<longleftrightarrow>
     (ms_lock s = HeldByClose \<longleftrightarrow> ms_close s \<in> {CloseLocked, CloseWaiting, CloseConns}) \<and>
     (ms_lock s = HeldByMonitor \<longleftrightarrow> holds_lock (ms_monitor s)) \<and>
     (ms_cancelled s \<longleftrightarrow> ms_close s \<in> {CloseWaiting, CloseConns, CloseReturned}) \<and>
     (ms_close s \<in> {CloseConns, CloseReturned} \<longrightarrow> ms_monitor s = MonDone)"

lemma monitor_inv_step: "monitor_step s s' \<Longrightarrow> monitor_inv s \<Longrightarrow> monitor_inv s'"
  by (erule monitor_stepE) (auto simp: monitor_inv_def holds_lock_def)

lemma monitor_reachable_inv:
  assumes "monitor_reachable s"
  shows "monitor_inv s"
  using assms unfolding monitor_reachable_def
proof (induction rule: rtranclp_induct)
  case base
  then show ?case by (simp add: monitor_inv_def monitor_init_def holds_lock_def)
qed (rule monitor_inv_step)

text \<open>C20 \<open>Close_joins_monitor\<close>. In every interleaving, by the time \<open>Close\<close> closes the connections the monitor has ended, and
  no step of the monitor is possible from then on: no connection is added to or removed from the pool after \<open>Close\<close>.\<close>

theorem Close_joins_monitor:
  assumes "monitor_reachable s" "ms_close s \<in> {CloseConns, CloseReturned}"
  shows "ms_monitor s = MonDone \<and> (\<forall>s'. monitor_step\<^sup>*\<^sup>* s s' \<longrightarrow> ms_monitor s' = MonDone)"
proof -
  have ended: "ms_monitor s = MonDone"
    using monitor_reachable_inv [OF assms(1)] assms(2) by (auto simp: monitor_inv_def)
  have "monitor_step\<^sup>*\<^sup>* s s' \<Longrightarrow> ms_monitor s' = MonDone" for s'
    by (induction rule: rtranclp_induct) (auto simp: ended elim: monitor_stepE)
  with ended show ?thesis by blast
qed

text \<open>The interleaving in which the monitor wakes up, decides to scale and finds the pool locked.\<close>

definition deadlock_state :: "monitor_pc \<Rightarrow> monitor_state" where
  "deadlock_state m = \<lparr>ms_lock = HeldByClose, ms_cancelled = True, ms_close = CloseWaiting, ms_monitor = m\<rparr>"

lemma monitor_reachable_step: "monitor_reachable s \<Longrightarrow> monitor_step s s' \<Longrightarrow> monitor_reachable s'"
  by (simp add: monitor_reachable_def)

lemma monitor_reachable_init: "monitor_reachable monitor_init"
  by (simp add: monitor_reachable_def)

lemma close_waiting_reachable: "monitor_reachable (deadlock_state MonSelect)"
proof -
  have "monitor_reachable (monitor_init\<lparr>ms_close := CloseLocked, ms_lock := HeldByClose\<rparr>)"
    by (rule monitor_reachable_step [OF monitor_reachable_init close_lock]) (simp_all add: monitor_init_def)
  from monitor_reachable_step [OF this close_cancel] show ?thesis
    by (simp add: deadlock_state_def monitor_init_def)
qed

lemma deadlock_reachable:
  assumes "m \<in> {UpWantRead, DownWant}"
  shows "monitor_reachable (deadlock_state m)"
proof -
  have "monitor_reachable (deadlock_state MonEvaluate)"
    using monitor_reachable_step [OF close_waiting_reachable mon_tick]
    by (simp add: deadlock_state_def)
  from monitor_reachable_step [OF this mon_action, of m] assms show ?thesis
    by (auto simp: deadlock_state_def)
qed

text \<open>The monitor blocked before \<open>AddConnection\<close>: it was already making a connection when \<open>Close\<close> was called.\<close>

lemma deadlock_reachable_add: "monitor_reachable (deadlock_state UpWantAdd)"
proof -
  let ?m = "\<lambda>m. monitor_init\<lparr>ms_monitor := m\<rparr>"
  have "monitor_reachable (?m MonSelect)"
    using monitor_reachable_init by (simp add: monitor_init_def)
  from monitor_reachable_step [OF this mon_tick] have "monitor_reachable (?m MonEvaluate)"
    by simp
  from monitor_reachable_step [OF this mon_action, of UpWantRead] have "monitor_reachable (?m UpWantRead)"
    by simp
  from monitor_reachable_step [OF this up_rlock]
  have "monitor_reachable ((?m UpReading)\<lparr>ms_lock := HeldByMonitor\<rparr>)"
    by (simp add: monitor_init_def)
  from monitor_reachable_step [OF this up_runlock, of UpDial] have "monitor_reachable (?m UpDial)"
    by (simp add: monitor_init_def)
  from monitor_reachable_step [OF this close_lock]
  have "monitor_reachable ((?m UpDial)\<lparr>ms_close := CloseLocked, ms_lock := HeldByClose\<rparr>)"
    by (simp add: monitor_init_def)
  from monitor_reachable_step [OF this close_cancel] have "monitor_reachable (deadlock_state UpDial)"
    by (simp add: monitor_init_def deadlock_state_def)
  from monitor_reachable_step [OF this up_dial, of UpWantAdd] show ?thesis
    by (simp add: deadlock_state_def)
qed

text \<open>C19 \<open>Close_deadlock_iff\<close>. \<open>Close\<close> holds the pool's mutex while it waits for the monitor, and the monitor takes
  the mutex to scale. A reachable state from which nothing can happen is either the one where \<open>Close\<close> has
  returned, or a deadlock: \<open>Close\<close> waits and the monitor is at one of its three lock operations. All three
  deadlocks are reachable.\<close>

theorem Close_deadlock_iff:
  "(\<forall>s. monitor_reachable s \<longrightarrow>
     ((\<nexists>s'. monitor_step s s') \<longleftrightarrow>
       ms_close s = CloseReturned \<or> (ms_close s = CloseWaiting \<and> wants_lock (ms_monitor s)))) \<and>
   (\<forall>m. wants_lock m \<longrightarrow> monitor_reachable (deadlock_state m))"
proof (intro conjI allI impI)
  fix s
  assume "monitor_reachable s"
  then have inv: "monitor_inv s" by (rule monitor_reachable_inv)
  then show "(\<nexists>s'. monitor_step s s') \<longleftrightarrow>
      ms_close s = CloseReturned \<or> (ms_close s = CloseWaiting \<and> wants_lock (ms_monitor s))"
    by (cases "ms_close s"; cases "ms_monitor s"; cases "ms_lock s")
       (auto simp: monitor_step_iff monitor_inv_def wants_lock_def holds_lock_def)
next
  fix m
  assume "wants_lock m"
  then show "monitor_reachable (deadlock_state m)"
    using deadlock_reachable deadlock_reachable_add by (auto simp: wants_lock_def)
qed

theorem Close_deadlock_iff_witness:
  "monitor_reachable (deadlock_state UpWantRead) \<and> (\<nexists>s'. monitor_step (deadlock_state UpWantRead) s')"
proof -
  have "monitor_reachable (deadlock_state UpWantRead)"
    using Close_deadlock_iff by (simp add: wants_lock_def)
  with Close_deadlock_iff show ?thesis
    by (simp add: deadlock_state_def wants_lock_def)
qed

theorem Close_joins_monitor_witness:
  "\<exists>s'. monitor_step ((deadlock_state MonDone)\<lparr>ms_close := CloseConns\<rparr>) s' \<and>
     ms_close s' = CloseReturned \<and> ms_monitor s' = MonDone"
proof -
  let ?s = "(deadlock_state MonDone)\<lparr>ms_close := CloseConns\<rparr>"
  have "monitor_reachable (deadlock_state MonDone)"
    using monitor_reachable_step [OF close_waiting_reachable mon_done] by (simp add: deadlock_state_def)
  from monitor_reachable_step [OF this close_waited] have "monitor_reachable ?s"
    by (simp add: deadlock_state_def)
  from Close_joins_monitor [OF this] have ended: "monitor_step ?s s' \<Longrightarrow> ms_monitor s' = MonDone" for s'
    by auto
  have "monitor_step ?s (?s\<lparr>ms_close := CloseReturned, ms_lock := Free\<rparr>)"
    by (rule close_return) simp
  with ended [OF this] show ?thesis by fastforce
qed

end
