(* ===== verification/Listener.thy ===== *)
theory Listener
  imports Proto_V2 Pool_Monitor
begin

text \<open>
  \<open>listener.go\<close>: the client side of revdial. \<open>Listen\<close> connects to the dialer's server and registers; \<open>Accept\<close>
  serves the commands that arrive until one of them asks for a connection, which is then made and bound.

  The network is a parameter: \<open>resolve\<close> and \<open>dial\<close> are the outcomes of \<open>net.ResolveTCPAddr\<close> and of the
  listener's dialer. Event handlers are named by numbers, and \<open>Accept\<close> returns the calls it
  makes. The pool's \<open>MuxConn\<close> objects live in the heap \<open>l_muxs\<close>. A session that the client and the pool
  share is stored with each of them.
\<close>

section \<open>State and options\<close>

text \<open>\<open>*net.Dialer\<close> with its keep-alive interval, or \<open>*tls.Dialer\<close> with its configuration and, unless nil, its \<open>NetDialer\<close>.\<close>

datatype net_dialer = NetDialer int | TlsDialer "int option" nat

record 'ses listener =
  l_dialer :: net_dialer
  l_cancelled :: bool
  l_client :: "'ses client2 option"
  l_eventHandlers :: "CommandType \<rightharpoonup> nat"
  l_pool :: "'ses pool option"
  l_muxs :: "'ses muxs"
  l_nmuxs :: nat
  l_muxConfig :: "mux_config option"
  l_clientOpts :: "client_option list"
  l_clientV2Opts :: "'ses client2_option list"
  l_useV2 :: bool

type_synonym 'ses listener_option = "'ses listener \<Rightarrow> 'ses listener outcome"

definition ErrListenerClosed :: err where
  "ErrListenerClosed = Sentinel ''listener closed''"

definition Listener_WithUserPass :: "string \<Rightarrow> string \<Rightarrow> 'ses listener_option res" where
  "Listener_WithUserPass username password =
     (case WithUserPass username password of
        Inl e \<Rightarrow> Inl (Wrap ''failed to create user pass auth option'' e)
      | Inr opt \<Rightarrow> Inr (\<lambda>l. Return (l\<lparr>l_clientOpts := l_clientOpts l @ [opt]\<rparr>)))"

definition WithListenerTLSConfig :: "nat \<Rightarrow> 'ses listener_option" where
  "WithListenerTLSConfig config l =
     (let d = (case l_dialer l of NetDialer k \<Rightarrow> Some k | TlsDialer _ _ \<Rightarrow> None)
      in Return (l\<lparr>l_dialer := TlsDialer d config\<rparr>))"

definition WithListenerKeepAlive :: "int \<Rightarrow> 'ses listener_option" where
  "WithListenerKeepAlive interval l =
     Return (l\<lparr>l_dialer := (case l_dialer l of
        NetDialer _ \<Rightarrow> NetDialer interval
      | TlsDialer _ config \<Rightarrow> TlsDialer (Some interval) config)\<rparr>)"

definition WithEventHandler :: "string \<Rightarrow> nat \<Rightarrow> 'ses listener_option res" where
  "WithEventHandler eventName handler =
     (case NewCommandType eventName of
        Inl e \<Rightarrow> Inl (Wrap ''failed to create event handler'' e)
      | Inr cmdType \<Rightarrow> Inr (\<lambda>l. Return (l\<lparr>l_eventHandlers := (l_eventHandlers l)(cmdType \<mapsto> handler)\<rparr>)))"

definition WithPoolConfig :: "int \<Rightarrow> pool_config option \<Rightarrow> 'ses listener_option" where
  "WithPoolConfig now config l =
     (case Pool_New now config of Panic m \<Rightarrow> Panic m | Return p \<Rightarrow> Return (l\<lparr>l_pool := Some p\<rparr>))"

definition Listener_WithMuxConfig :: "mux_config \<Rightarrow> 'ses listener_option" where
  "Listener_WithMuxConfig config l = Return (l\<lparr>l_muxConfig := Some config,
     l_clientV2Opts := l_clientV2Opts l @ [WithMuxConfigClient config]\<rparr>)"

definition WithDisableV2 :: "'ses listener_option" where
  "WithDisableV2 l = Return (l\<lparr>l_useV2 := False\<rparr>)"

definition WithEnableV2 :: "'ses listener_option" where
  "WithEnableV2 l = Return (l\<lparr>l_useV2 := True\<rparr>)"

fun apply_listener_opts :: "'ses listener_option list \<Rightarrow> 'ses listener \<Rightarrow> 'ses listener outcome" where
  "apply_listener_opts [] l = Return l"
| "apply_listener_opts (opt # opts) l =
     (case opt l of Panic m \<Rightarrow> Panic m | Return l \<Rightarrow> apply_listener_opts opts l)"

section \<open>Listening\<close>

text \<open>
  \<open>ref\<close> is the address of the new \<open>MuxConn\<close>. The options were applied to a client once when the listener was
  made, so they do not panic here; the model turns that case into an error.
\<close>

definition Listener_createPoolConnection ::
    "'ses yamux \<Rightarrow> int \<Rightarrow> bool list \<Rightarrow> conn res \<times> uuid \<times> nat \<Rightarrow> 'ses listener \<Rightarrow> 'ses muxs \<Rightarrow> nat res \<times> 'ses muxs" where
  "Listener_createPoolConnection y now ctx world l h =
     (case world of (dial, uid, ref) \<Rightarrow>
     (case dial of
        Inl e \<Rightarrow> (Inl (Wrap ''failed to connect'' e), h)
      | Inr conn \<Rightarrow>
     (case NewClientV2 conn (l_clientOpts l) (l_clientV2Opts l) of
        Panic m \<Rightarrow> (Inl (Errorf m []), h)
      | Return client \<Rightarrow>
     (case ClientV2_Register y ctx uid client of
        (Inl e, client) \<Rightarrow> (Inl (Wrap ''failed to register'' e), h)
      | (Inr _, client) \<Rightarrow>
     (if \<not> ClientV2_IsV2 client then (Inl (Errorf ''server does not support V2'' []), h)
      else case ClientV2_Session client of
        None \<Rightarrow> (Inl (Errorf ''V2 client has no yamux session'' []), h)
      | Some session \<Rightarrow> (Inr ref, h(ref := NewMuxConn now session None)))))))"

text \<open>\<open>world\<close> gives what the pool's own dials will find.\<close>

definition Listen ::
    "'ses yamux \<Rightarrow> int \<Rightarrow> 'ses muxs \<Rightarrow> ('ses muxs \<Rightarrow> conn res \<times> uuid \<times> nat) \<Rightarrow> bool list
       \<Rightarrow> unit res \<Rightarrow> conn res \<Rightarrow> uuid \<Rightarrow> 'ses listener_option list \<Rightarrow> 'ses listener res outcome" where
  "Listen y now muxs world ctx resolve dial uid opts =
     (case resolve of
        Inl e \<Rightarrow> Return (Inl (Wrap ''failed to resolve address'' e))
      | Inr _ \<Rightarrow>
     (case apply_listener_opts opts
          \<lparr>l_dialer = NetDialer 0, l_cancelled = False, l_client = None, l_eventHandlers = Map.empty, l_pool = None,
           l_muxs = muxs, l_nmuxs = 0, l_muxConfig = None, l_clientOpts = [], l_clientV2Opts = [], l_useV2 = False\<rparr> of
        Panic m \<Rightarrow> Panic m
      | Return l \<Rightarrow>
     (let l = (if \<not> l_useV2 l then l\<lparr>l_clientOpts := l_clientOpts l @ [WithDisableV2Fallback]\<rparr> else l) in
      case dial of
        Inl e \<Rightarrow> Return (Inl (Wrap ''failed to connect to dialler server'' e))
      | Inr conn \<Rightarrow>
     (case NewClientV2 conn (l_clientOpts l) (l_clientV2Opts l) of
        Panic m \<Rightarrow> Panic m
      | Return client \<Rightarrow>
     (case ClientV2_Register y ctx uid client of
        (Inl e, client) \<Rightarrow> Return (Inl (Wrap ''failed to register client'' e))
      | (Inr _, client) \<Rightarrow>
     (let l = l\<lparr>l_client := Some client\<rparr> in
      case l_pool l of
        None \<Rightarrow> Return (Inr l)
      | Some p \<Rightarrow>
     (if \<not> ClientV2_IsV2 client then Return (Inr l)
      else case ClientV2_Session client of
        None \<Rightarrow> Return (Inl (Errorf ''V2 client has no yamux session'' []))
      | Some session \<Rightarrow>
     (let m = l_nmuxs l;
          l = l\<lparr>l_nmuxs := Suc m, l_muxs := (l_muxs l)(m := NewMuxConn now session None)\<rparr>
      in case Pool_AddConnection m p of
        (Inl e, p) \<Rightarrow> Return (Inl (Wrap ''failed to add connection to pool'' e))
      | (Inr _, p) \<Rightarrow> Return (Inr (l\<lparr>l_pool :=
          Some (Pool_Start (\<lambda>h. Listener_createPoolConnection y now ctx (world h) l h) p)\<rparr>))))))))))"

section \<open>Accepting\<close>

definition bindStream :: "uuid \<Rightarrow> conn \<Rightarrow> unit res \<times> conn" where
  "bindStream uid stream =
     (case conn_Write ([VersionV1, CmdBind] @ uid) stream of
        (Inl e, stream) \<Rightarrow> (Inl (Wrap ''failed to write bind command'' e), stream)
      | (Inr _, stream) \<Rightarrow>
     (case conn_Read 2 stream of
        (Inl e, stream) \<Rightarrow> (Inl (Wrap ''failed to read bind response'' e), stream)
      | (Inr got, stream) \<Rightarrow>
     (let resp = fill_buf 2 got in
      if resp ! 0 \<noteq> VersionV1 \<or> resp ! 1 \<noteq> ResSuccess
      then (Inl (Errorf ''bind failed: version=%d, result=%d'' [uint (resp ! 0), uint (resp ! 1)]), stream)
      else (Inr (), stream))))"

text \<open>What \<open>Accept\<close> returns: a stream of the pool, a stream of the client's session, or a TCP connection.\<close>

datatype accepted = AcceptedPool pool_stream | AcceptedStream conn | AcceptedConn conn

definition acceptV2Stream :: "'ses yamux \<Rightarrow> uuid \<Rightarrow> 'ses client2 \<Rightarrow> 'ses listener \<Rightarrow> accepted res \<times> 'ses listener" where
  "acceptV2Stream y uid client l =
     (case l_pool l of
        Some p \<Rightarrow>
          (case Pool_OpenStream (yx_OpenStream y) (l_muxs l) p of
             (Inl e, h, p) \<Rightarrow> (Inl (Wrap ''failed to open stream from pool'' e), l\<lparr>l_muxs := h, l_pool := Some p\<rparr>)
           | (Inr stream, h, p) \<Rightarrow>
          (case bindStream uid (ts_Conn (ps_Conn stream)) of
             (Inl e, c) \<Rightarrow>
               (case poolTrackedStream_Close (stream\<lparr>ps_Conn := (ps_Conn stream)\<lparr>ts_Conn := c\<rparr>\<rparr>) h p of
                  (_, _, h, p) \<Rightarrow> (Inl e, l\<lparr>l_muxs := h, l_pool := Some p\<rparr>))
           | (Inr _, c) \<Rightarrow>
               (Inr (AcceptedPool (stream\<lparr>ps_Conn := (ps_Conn stream)\<lparr>ts_Conn := c\<rparr>\<rparr>)),
                l\<lparr>l_muxs := h, l_pool := Some p\<rparr>)))
      | None \<Rightarrow>
     (case ClientV2_Session client of
        None \<Rightarrow> (Inl (Errorf ''no yamux session available'' []), l)
      | Some session \<Rightarrow>
     (case yx_OpenStream y session of
        (Inl e, session) \<Rightarrow> (Inl (Wrap ''failed to open stream'' e), l\<lparr>l_client := Some (client\<lparr>c2_session := Some session\<rparr>)\<rparr>)
      | (Inr stream, session) \<Rightarrow>
     (let l = l\<lparr>l_client := Some (client\<lparr>c2_session := Some session\<rparr>)\<rparr> in
      case bindStream uid stream of
        (Inl e, c) \<Rightarrow> (Inl e, l)
      | (Inr _, c) \<Rightarrow> (Inr (AcceptedStream c), l)))))"

definition acceptV1Connection :: "conn res \<Rightarrow> bool list \<Rightarrow> uuid \<Rightarrow> 'ses listener \<Rightarrow> accepted res outcome \<times> 'ses listener" where
  "acceptV1Connection dial ctx uid l =
     (case dial of
        Inl e \<Rightarrow> (Return (Inl (Wrap ''failed to connect to dialler server'' e)), l\<lparr>l_cancelled := True\<rparr>)
      | Inr conn \<Rightarrow>
     (case NewClient conn (l_clientOpts l) of
        Panic m \<Rightarrow> (Panic m, l)
      | Return client \<Rightarrow>
     (case Client_Bind ctx uid client of
        (Inl e, client) \<Rightarrow> (Return (Inl (Wrap ''failed to bind connection'' e)), l)
      | (Inr _, client) \<Rightarrow> (Return (Inr (AcceptedConn (cl_conn client))), l))))"

text \<open>What the \<open>select\<close> of \<open>Accept\<close> finds: the listener's context done, a command, or the channel closed.\<close>

datatype accept_event = CtxDone | Command command | ChanClosed

text \<open>
  \<open>Accept\<close> on the events that come: its result with the handlers it called and the events it left, or \<open>None\<close> while
  it waits for more. \<open>dial\<close> and \<open>ctx\<close> are for the connection it makes.
\<close>

fun Listener_Accept ::
    "'ses yamux \<Rightarrow> (bytes \<Rightarrow> uuid res) \<Rightarrow> conn res \<Rightarrow> bool list \<Rightarrow> accept_event list \<Rightarrow> 'ses client2 \<Rightarrow> 'ses listener
       \<Rightarrow> (nat \<times> command) list \<times> (accepted res outcome \<times> 'ses listener \<times> accept_event list) option" where
  "Listener_Accept y ju dial ctx [] client l = ([], None)"
| "Listener_Accept y ju dial ctx (CtxDone # evs) client l = ([], Some (Return (Inl ErrListenerClosed), l, evs))"
| "Listener_Accept y ju dial ctx (ChanClosed # evs) client l = ([], Some (Return (Inl ErrListenerClosed), l, evs))"
| "Listener_Accept y ju dial ctx (Command cmd # evs) client l =
     (if command_Type cmd = ConnectCommandType
      then case ParsePayload_uuid ju cmd of
          Inl e \<Rightarrow> ([], Some (Return (Inl (Wrap ''failed to parse command payload'' e)), l, evs))
        | Inr uid \<Rightarrow>
            (if ClientV2_IsV2 client
             then (case acceptV2Stream y uid client l of (r, l) \<Rightarrow> ([], Some (Return r, l, evs)))
             else (case acceptV1Connection dial ctx uid l of (r, l) \<Rightarrow> ([], Some (r, l, evs))))
      else case l_eventHandlers l (command_Type cmd) of
          Some handler \<Rightarrow>
            (case Listener_Accept y ju dial ctx evs client l of (calls, r) \<Rightarrow> ((handler, cmd) # calls, r))
        | None \<Rightarrow> ([], Some (Return (Inl (Errorf ''unexpected command type: %T'' [])), l, evs)))"

definition Listener_Close :: "'ses yamux \<Rightarrow> bool \<Rightarrow> 'ses listener \<Rightarrow> unit res \<times> 'ses listener" where
  "Listener_Close y watcher_first l =
     (let l = l\<lparr>l_cancelled := True\<rparr>;
          l = (case l_pool l of
                 None \<Rightarrow> l
               | Some p \<Rightarrow> (case Pool_Close (yx_Close y) (l_muxs l) p of
                   (_, h, p) \<Rightarrow> l\<lparr>l_muxs := h, l_pool := Some p\<rparr>))
      in case l_client l of
           None \<Rightarrow> (Inr (), l)
         | Some client \<Rightarrow> (case ClientV2_Close y watcher_first client of
             (r, client) \<Rightarrow> (r, l\<lparr>l_client := Some client\<rparr>)))"

section \<open>Dispatch\<close>

lemma Accept_events:
  assumes "list_all (\<lambda>c. command_Type c \<noteq> ConnectCommandType \<and> l_eventHandlers l (command_Type c) \<noteq> None) cmds"
  shows "Listener_Accept y ju dial ctx (map Command cmds @ evs) client l =
    (map (\<lambda>c. (the (l_eventHandlers l (command_Type c)), c)) cmds @ fst (Listener_Accept y ju dial ctx evs client l),
     snd (Listener_Accept y ju dial ctx evs client l))"
  using assms by (induction cmds) (auto split: prod.splits)

text \<open>C21 \<open>Accept_dispatch\<close>. \<open>Accept\<close> calls the handler of every event that arrives before a connect command, once each, in the
  order of arrival and with the event, and then makes exactly the connection that command asks for, with its
  identifier: on a stream in V2 mode, on a new connection otherwise. What arrives later is left for the next
  call.\<close>

theorem Accept_dispatch:
  assumes "list_all (\<lambda>c. command_Type c \<noteq> ConnectCommandType \<and> l_eventHandlers l (command_Type c) \<noteq> None) cmds"
  shows "Listener_Accept y ju dial ctx (map Command cmds @ Command (ConnectCommand \<lparr>cc_ID = uid\<rparr>) # evs) client l =
    (map (\<lambda>c. (the (l_eventHandlers l (command_Type c)), c)) cmds,
     Some (if c2_isV2 client
           then (Return (fst (acceptV2Stream y uid client l)), snd (acceptV2Stream y uid client l), evs)
           else (fst (acceptV1Connection dial ctx uid l), snd (acceptV1Connection dial ctx uid l), evs)))"
  by (simp add: Accept_events [OF assms] ConnectCommand_ParsePayload_def ClientV2_IsV2_def split: prod.splits)

definition example_listener :: "(CommandType \<rightharpoonup> nat) \<Rightarrow> conn listener" where
  "example_listener handlers =
     \<lparr>l_dialer = NetDialer 0, l_cancelled = False, l_client = None, l_eventHandlers = handlers, l_pool = None,
      l_muxs = (\<lambda>_. NewMuxConn 0 (mk_conn []) None), l_nmuxs = 0, l_muxConfig = None, l_clientOpts = [],
      l_clientV2Opts = [], l_useV2 = False\<rparr>"

definition example_client2 :: "conn client2" where
  "example_client2 = \<lparr>c2_Client = example_client [], c2_session = Some (mk_conn []), c2_muxConfig = mux_DefaultConfig,
     c2_isV2 = True\<rparr>"

theorem Accept_dispatch_witness:
  "fst (Listener_Accept example_yamux (\<lambda>_. Inl EOF) (Inl EOF) []
      [Command (CustomEventCommand \<lparr>ce_Name = ''a'', ce_Data = [1]\<rparr>),
       Command (CustomEventCommand \<lparr>ce_Name = ''a'', ce_Data = [2]\<rparr>),
       Command (ConnectCommand \<lparr>cc_ID = replicate 16 3\<rparr>), ChanClosed]
      example_client2 (example_listener [''a'' \<mapsto> 5])) =
   [(5, CustomEventCommand \<lparr>ce_Name = ''a'', ce_Data = [1]\<rparr>), (5, CustomEventCommand \<lparr>ce_Name = ''a'', ce_Data = [2]\<rparr>)]"
proof -
  let ?cmds = "[CustomEventCommand \<lparr>ce_Name = ''a'', ce_Data = [1]\<rparr>, CustomEventCommand \<lparr>ce_Name = ''a'', ce_Data = [2]\<rparr>]"
  have "list_all (\<lambda>c. command_Type c \<noteq> ConnectCommandType \<and>
      l_eventHandlers (example_listener [''a'' \<mapsto> 5]) (command_Type c) \<noteq> None) ?cmds"
    by (simp add: ConnectCommandType_def example_listener_def)
  from Accept_dispatch [OF this, of example_yamux "\<lambda>_. Inl EOF" "Inl EOF" "[]" "replicate 16 3" "[ChanClosed]" example_client2]
  show ?thesis by (simp add: example_listener_def)
qed

text \<open>The keep-alive interval survives TLS in either order: on a listener with a plain dialer both
  orders of the two options give a TLS dialer with the configuration and the interval. A second TLS
  option, however, resets the interval to Go's default.\<close>

theorem Listener_options_commute:
  assumes "l_dialer l = NetDialer k0"
  shows "apply_listener_opts [WithListenerKeepAlive k, WithListenerTLSConfig c] l = Return (l\<lparr>l_dialer := TlsDialer (Some k) c\<rparr>) \<and>
    apply_listener_opts [WithListenerTLSConfig c, WithListenerKeepAlive k] l = Return (l\<lparr>l_dialer := TlsDialer (Some k) c\<rparr>) \<and>
    apply_listener_opts [WithListenerKeepAlive k, WithListenerTLSConfig c, WithListenerTLSConfig c2] l =
      Return (l\<lparr>l_dialer := TlsDialer None c2\<rparr>)"
  using assms by (simp add: WithListenerKeepAlive_def WithListenerTLSConfig_def)

theorem Listener_options_commute_witness:
  "apply_listener_opts [WithListenerTLSConfig 1, WithListenerKeepAlive 30] (example_listener Map.empty) =
     Return ((example_listener Map.empty)\<lparr>l_dialer := TlsDialer (Some 30) 1\<rparr>)"
  using Listener_options_commute [of "example_listener Map.empty" 0 30 1 2] by (simp add: example_listener_def)

section \<open>Binding\<close>

lemma bindStream_live:
  assumes "conn_live c" "c_rx c = [VersionV1, ResSuccess] # segs"
  shows "bindStream uid c = (Inr (), c\<lparr>c_rx := segs, c_tx := c_tx c @ [VersionV1, CmdBind] @ uid\<rparr>)"
  using assms by (simp add: bindStream_def conn_simps)

lemma acceptV1_live:
  assumes "agreed creds sopts copts" "l_clientOpts l = copts @ [WithDisableV2Fallback]" "conn_live conn"
    and "c_rx conn = reception creds @ [versionV1, resSuccess] # segs"
  shows "acceptV1Connection (Inr conn) ctx uid l =
    (Return (Inr (AcceptedConn (conn\<lparr>c_rx := segs,
       c_tx := c_tx conn @ concat (greeting creds) @ [versionV1, cmdBind] @ uid\<rparr>))), l)"
proof -
  obtain cl where cl: "NewClient conn (l_clientOpts l) = Return cl" "cl_conn cl = conn"
      "cl_state cl = client_connected" "speaks creds cl"
    using NewClient_speaks(2) [OF assms(1)] assms(2) by metis
  let ?cl = "cl\<lparr>cl_state := client_processing, cl_cancel := True, cl_sched := ctx\<rparr>"
  have "Client_establish ?cl = (Inr (), ?cl\<lparr>cl_conn := (cl_conn ?cl)\<lparr>c_rx := [versionV1, resSuccess] # segs,
      c_tx := c_tx (cl_conn ?cl) @ concat (greeting creds)\<rparr>\<rparr>)"
    using cl assms(3,4) by (intro establish_greeting) simp_all
  then have "Client_Bind ctx uid cl = (Inr (), ?cl\<lparr>cl_state := client_bound, cl_conn := conn\<lparr>c_rx := segs,
      c_tx := c_tx conn @ concat (greeting creds) @ [versionV1, cmdBind] @ uid\<rparr>\<rparr>)"
    using cl assms(3) by (simp add: Client_Bind_def Client_handleBind_def conn_simps avail_def)
  with cl show ?thesis
    by (simp add: acceptV1Connection_def)
qed

end
