(* ===== verification/Spec2Isabelle.thy ===== *)
theory Spec2Isabelle
  imports Proto_Session Proto_Budget Dialer_Clients Dialer_Handshake Listener
begin

text \<open>
  \<^bold>\<open>revdial\<close>, a Go library for dialing in reverse: a server that cannot reach its clients has them connect to it. The
  clients (\<open>src/listener.go\<close>) register with the server (\<open>src/dialer.go\<close>) on a connection of theirs; when the
  server dials, it sends a connect command with a fresh identifier on that connection, and the client opens a new
  connection, or a stream of a multiplexed one, and binds it with the identifier.

  \<^bold>\<open>Parts and theories\<close>, each in the order of the code and with the names of its functions:

  \<^item> \<open>Go_Prelude\<close>, \<open>Go_Conn\<close>: what the sources use of Go. Errors are values of the type \<open>err\<close>, results are
    \<open>err + 'a\<close>, panics are the constructor \<open>Panic\<close> of \<open>outcome\<close>. Integers that may wrap are words or are wrapped
    explicitly. A connection delivers the peer's bytes in segments, may fail or end at any point, and
    records what is written; \<open>conn_Read\<close> returns at most one segment, \<open>io_ReadFull\<close> loops.
  \<^item> \<open>Proto_Wire\<close> (\<open>proto/static.go\<close>, \<open>proto/conn.go\<close>) and \<open>Proto_Commands\<close> (\<open>proto/commands.go\<close>): the bytes of the
    protocol, \<open>sendRequest\<close>, \<open>readMsg\<close>, the commands a client hands to its user.
  \<^item> \<open>Proto_Server\<close> (\<open>proto/server.go\<close>), \<open>Proto_Client\<close> (\<open>proto/client.go\<close>): version 1 of the protocol. Handlers pass the
    server or client explicitly; contexts are schedules that say what each \<open>select\<close> finds.
    \<open>Proto_Session\<close> runs both ends against each other. \<open>Proto_Budget\<close> bounds what the client's
    command loop costs.
  \<^item> \<open>Proto_V2\<close> (\<open>proto/server_v2.go\<close>, \<open>proto/client_v2.go\<close>): version 2, with multiplexing, around the embedded version 1.
  \<^item> \<open>Conn_Manager\<close> (\<open>connmng/manager.go\<close>): the registered connections, over a store of server objects.
  \<^item> \<open>Mux_Config\<close> (\<open>mux/config.go\<close>).
  \<^item> \<open>Pool_Metrics\<close>, \<open>Pool_Scaler\<close>, \<open>Pool_MuxConn\<close>, \<open>Pool\<close> (\<open>pool/metrics.go\<close>, \<open>pool/scaler.go\<close>, \<open>pool/mux_conn.go\<close> with
    \<open>pool/selector.go\<close>, \<open>pool/pool.go\<close>): the pool of multiplexed connections over a heap of them. \<open>Pool_Monitor\<close>: the
    monitor goroutine beside \<open>Close\<close>, one step per lock operation.
  \<^item> \<open>Dialer\<close> (\<open>dialer.go\<close>): the dialer over a store of servers and a heap of channels; \<open>dialer_step\<close> interleaves
    all its operations. \<open>Dialer_Clients\<close>: what holds of every managed client. \<open>Dialer_Handshake\<close>: the
    handler of a connection beside the goroutine that watches it.
  \<^item> \<open>Listener\<close> (\<open>listener.go\<close>): options, \<open>Listen\<close>, \<open>Accept\<close> and \<open>Close\<close>.
  \<^item> This theory: a dial from end to end, listener against dialer.

  \<^bold>\<open>What the lemmas show.\<close>

  \<^item> Sessions: registration in both versions, connect commands, events, a whole dial and the binding of a stream, each end
    on the bytes the other end writes, succeed, write exactly those bytes and agree on identifier and
    payload, with or without credentials.
  \<^item> Authentication: no handshake of either version succeeds, and no run of a dialer manages a client, without accepted
    credentials; a client with credentials is not talked out of using them.
  \<^item> Matching: in every interleaving a dial gets the connection bound with its own identifier.
  \<^item> Invariants over all sequences of calls: the life cycle of a server, the counters and limits of the pool, the requests and
    channels of the dialer, the typing of its clients; \<open>Stop\<close> and \<open>Close\<close> leave nothing open.
  \<^item> Outcomes: each handshake ends in one of a few ways, and a failed one leaves nothing usable behind. The version 2 server and client
    are equivalent to version 1 where they claim compatibility.
  \<^item> Refinement: the connection manager implements a finite map, \<open>scaleDown\<close> the choice of the selector.
  \<^item> Termination: every loop is a terminating function. Reading loops and the command loop have the input that is left as
    their measure, \<open>rx_size\<close>; \<open>Client_serve_bounded\<close> gives the number of rounds, so no fuel is needed.
  \<^item> What goes wrong: the stuck states of \<open>Pool.Close\<close>, the cursor of the manager after a removal, identifiers that arrive in
    two segments, the late watcher of a handshake, connections that are dropped without being closed.

  \<^bold>\<open>Interfaces\<close> are locales with an interpretation on the model: \<open>server_conn\<close> (what the connection manager needs of
    \<open>ServerConn\<close>) on both server types, \<open>selector\<close> (\<open>LeastStreamsSelector\<close>), \<open>client_guard\<close> (what the handshake
    establishes and the dialer keeps) on typing and on authentication.

  \<^bold>\<open>Parameters.\<close> \<open>uuid.FromBytes\<close> (relied on to accept 16 bytes unchanged), \<open>encoding/json\<close> (an event is
    unmarshalled to what was marshalled), yamux sessions (a record of operations; \<open>yamux_streams\<close> says which connections its
    streams are), the outcomes of listening, resolving and dialing, fresh identifiers, clocks. Where a property relies on
    one of them, it says so in a named hypothesis, and its witness instantiates it.

  \<^bold>\<open>Bounds.\<close> Lengths on the wire are bytes and 16-bit words, counters of the pool 32 and 64 bits wide; the properties that need
    the numbers to stay below \<open>2 ^ 31\<close> say so.

  \<^bold>\<open>Not modelled.\<close> \<open>connmng/ServerConn_mock.go\<close> (generated for tests), tests and examples; sockets and TLS, of which only
    the outcomes are seen; logging; \<open>Addr\<close>. A connection or stream that an error path closes and drops is gone from the
    model. The session that a listener's client and its pool share is stored twice. Mutual exclusion is modelled where
    it matters for progress (\<open>Pool_Monitor\<close>); elsewhere the code holds its mutex over a whole
    operation and the operation is one step. The context of a client is cancelled by the step that cancels it, not later.
\<close>

section \<open>A dial, from end to end\<close>

lemma deliver_wait:
  assumes "dialer_inv d" "d_requests d uid = Some ch" "Dialer_deliver False uid conn d = (sent, d1)"
  shows "sent \<and> (\<exists>d2. Dialer_DialContext_wait None uid ch d1 = Some (Inr conn, d2) \<and> d_requests d2 = (d_requests d)(uid := None))"
proof -
  have "ch_buf (d_chans d ch) = []"
    using dialer_inv_request [OF assms(1,2)] by (simp add: request_ok_def)
  with assms(2,3) show ?thesis
    by (auto simp: Dialer_deliver_def Dialer_removeRequest_def Dialer_DialContext_wait_def chan_send_def)
qed

text \<open>
  The second half of a V1 dial, both ends: for a pending request, the connection that \<open>Accept\<close> makes and
  binds and the one on which the dialer runs the handshake.
\<close>

lemma v1_bind_session:
  assumes "uuid_FromBytes_ok fb" "length uid = 16" "dialer_inv d" "d_requests d uid = Some ch"
    and "agreed creds (d_serverOpts d) copts" "l_clientOpts l = copts @ [WithDisableV2Fallback]"
    and "requests = greeting creds @ [[versionV1, cmdBind] @ uid]"
    and "replies = reception creds @ [[versionV1, resSuccess]]"
  shows "\<exists>lc dc d2.
    acceptV1Connection (Inr (mk_conn replies)) ctx uid l = (Return (Inr (AcceptedConn lc)), l) \<and>
    Dialer_DialContext_wait None uid ch (Dialer_handleConnection y fb False (mk_conn (requests @ data)) d) = Some (Inr dc, d2) \<and>
    c_tx lc = concat requests \<and> c_tx dc = concat replies \<and> c_rx lc = [] \<and> c_rx dc = data \<and>
    \<not> c_closed lc \<and> \<not> c_closed dc \<and> d_requests d2 = (d_requests d)(uid := None)"
proof -
  let ?lc = "(mk_conn replies)\<lparr>c_rx := [], c_tx := concat requests\<rparr>"
  have client: "acceptV1Connection (Inr (mk_conn replies)) ctx uid l = (Return (Inr (AcceptedConn ?lc)), l)"
    using acceptV1_live [OF assms(5,6), of "mk_conn replies" "[]" ctx uid] assms(7,8) by simp
  let ?conn = "mk_conn (requests @ data)"
  let ?s = "NewServer ?conn (d_serverOpts d)"
  let ?dc = "?conn\<lparr>c_rx := data, c_tx := concat replies\<rparr>"
  have "Server_Process fb ?s = (Inr (), ?s\<lparr>s_state := StateBound, s_id := uid, s_conn := ?dc\<rparr>)"
    using Process_session [OF assms(5,1,2), of ?conn cmdBind data StateBound] assms(7,8) by simp
  then have "ServerV2_Process y fb (NewServerV2 ?conn (d_serverOpts d) []) = (Inr (),
      (NewServerV2 ?conn (d_serverOpts d) [])\<lparr>s2_Server := ?s\<lparr>s_state := StateBound, s_id := uid, s_conn := ?dc\<rparr>\<rparr>)"
    by (subst ServerV2_V1 [symmetric]) (simp_all add: NewServerV2_def)
  then have "Dialer_handleConnection y fb False ?conn d = snd (Dialer_deliver False uid ?dc d)"
    by (simp add: Dialer_handleConnection_def Server_State_def Server_ID_def)
  moreover obtain d2 where "Dialer_DialContext_wait None uid ch (snd (Dialer_deliver False uid ?dc d)) = Some (Inr ?dc, d2)"
      "d_requests d2 = (d_requests d)(uid := None)"
    using deliver_wait [OF assms(3,4) prod.collapse [symmetric]] by blast
  ultimately show ?thesis
    using client by (intro exI [of _ ?lc] exI [of _ ?dc] exI [of _ d2]) simp
qed

text \<open>The first half on the dialer's side: the request is pending and the command is on the wire.\<close>

lemma DialContext_asks:
  assumes "ConnManager_GetConn (d_cm d) = (Return (Some r), cm)"
    and "s_state (s2_Server (d_store d r)) = StateRegistered" "conn_live (s_conn (s2_Server (d_store d r)))"
    and "c_rx (s_conn (s2_Server (d_store d r))) = [versionV1, resSuccess] # segs"
  shows "\<exists>d1. Dialer_DialContext y uid d = (Return (Inr (d_nchans d)), d1) \<and>
    d_requests d1 = (d_requests d)(uid \<mapsto> d_nchans d) \<and> d_serverOpts d1 = d_serverOpts d \<and>
    s_conn (s2_Server (d_store d1 r)) = (s_conn (s2_Server (d_store d r)))\<lparr>c_rx := segs,
      c_tx := c_tx (s_conn (s2_Server (d_store d r))) @ [versionV1, cmdConnect] @ uid\<rparr>"
proof -
  let ?s = "d_store d r"
  let ?s' = "?s\<lparr>s2_Server := (s2_Server ?s)\<lparr>s_conn := (s_conn (s2_Server ?s))\<lparr>c_rx := segs,
      c_tx := c_tx (s_conn (s2_Server ?s)) @ [versionV1, cmdConnect] @ uid\<rparr>\<rparr>\<rparr>"
  have "ServerV2_SendConnectCommand uid ?s = (Inr (), ?s')"
    using assms(2-4)
    by (simp add: ServerV2_SendConnectCommand_def SendConnectCommandV2_def Server_SendConnectCommand_def
        on_server_def on_conn_def conn_simps avail_def)
  then have "Dialer_DialContext y uid d = (Return (Inr (d_nchans d)),
      (snd (Dialer_addRequest uid (d\<lparr>d_cm := cm\<rparr>)))\<lparr>d_store := (d_store d)(r := ?s')\<rparr>)"
    using assms(1,2) by (simp add: Dialer_DialContext_def Server_State_def Dialer_addRequest_def Let_def)
  then show ?thesis
    by (simp add: Dialer_addRequest_def Let_def)
qed

text \<open>C1 \<open>reverse_dial\<close>. A whole V1 dial, from \<open>DialContext\<close> to the connection it returns, through both programs. The dialer
  sends the connect command with a fresh identifier on the control connection and waits; the client's command loop, given
  these bytes, hands its user the command and writes the answer the dialer has received; \<open>Accept\<close> takes the
  command, connects, authenticates if the two are set up for it, and binds; the dialer's handshake on
  what \<open>Accept\<close> wrote answers what \<open>Accept\<close> has read, and \<open>DialContext\<close> returns its end of exactly this connection,
  open and with what the listener sends next still to be read. No request is left behind.\<close>

theorem reverse_dial:
  assumes "uuid_FromBytes_ok fb" "length uid = 16" "dialer_inv d"
    and "ConnManager_GetConn (d_cm d) = (Return (Some r), cm)" "s = s2_Server (d_store d r)"
    and "s_state s = StateRegistered" "conn_live (s_conn s)" "c_rx (s_conn s) = [[versionV1, resSuccess]]"
    and "conn_live (cl_conn c)" "c_rx (cl_conn c) = [[versionV1, cmdConnect] @ uid]" "cl_sched c = []"
    and "\<not> c2_isV2 client" "l_clientOpts l = copts @ [WithDisableV2Fallback]" "agreed creds (d_serverOpts d) copts"
    and "requests = greeting creds @ [[versionV1, cmdBind] @ uid]"
    and "replies = reception creds @ [[versionV1, resSuccess]]"
  shows "\<exists>ch d1 c1 lc dc d2.
    Dialer_DialContext y uid d = (Return (Inr ch), d1) \<and>
    c_tx (s_conn (s2_Server (d_store d1 r))) = c_tx (s_conn s) @ concat (c_rx (cl_conn c)) \<and>
    Client_handleCommand fb ju c = (Inr (), c1) \<and> cl_cmds c1 = cl_cmds c @ [ConnectCommand \<lparr>cc_ID = uid\<rparr>] \<and>
    c_tx (cl_conn c1) = c_tx (cl_conn c) @ concat (c_rx (s_conn s)) \<and>
    Listener_Accept y jid (Inr (mk_conn replies)) ctx [Command (ConnectCommand \<lparr>cc_ID = uid\<rparr>)] client l =
      ([], Some (Return (Inr (AcceptedConn lc)), l, [])) \<and>
    Dialer_DialContext_wait None uid ch (Dialer_handleConnection y fb False (mk_conn (requests @ data)) d1) = Some (Inr dc, d2) \<and>
    c_tx lc = concat requests \<and> c_tx dc = concat replies \<and> c_rx lc = [] \<and> c_rx dc = data \<and>
    \<not> c_closed lc \<and> \<not> c_closed dc \<and> d_requests d2 uid = None"
proof -
  obtain d1 where ask: "Dialer_DialContext y uid d = (Return (Inr (d_nchans d)), d1)"
      "d_requests d1 = (d_requests d)(uid \<mapsto> d_nchans d)" "d_serverOpts d1 = d_serverOpts d"
      "c_tx (s_conn (s2_Server (d_store d1 r))) = c_tx (s_conn s) @ [versionV1, cmdConnect] @ uid"
    using DialContext_asks [OF assms(4), of "[]" y uid] assms(5-8) by auto
  have inv: "dialer_inv d1"
    using DialContext_inv [OF assms(3) ask(1)] by blast
  have command: "Client_handleCommand fb ju c = (Inr (), c\<lparr>cl_cmds := cl_cmds c @ frame_cmds ju (FConnect uid),
      cl_conn := (cl_conn c)\<lparr>c_rx := [], c_tx := c_tx (cl_conn c) @ [versionV1, resSuccess]\<rparr>\<rparr>)"
    using assms(1,2,9-11) by (intro handleCommand_frame) simp_all
  have "d_requests d1 uid = Some (d_nchans d)" "agreed creds (d_serverOpts d1) copts"
    using ask(2,3) assms(14) by simp_all
  from v1_bind_session [OF assms(1,2) inv this assms(13,15,16), of ctx y data]
  obtain lc dc d2 where bind: "acceptV1Connection (Inr (mk_conn replies)) ctx uid l = (Return (Inr (AcceptedConn lc)), l)"
      "Dialer_DialContext_wait None uid (d_nchans d) (Dialer_handleConnection y fb False (mk_conn (requests @ data)) d1) = Some (Inr dc, d2)"
      "c_tx lc = concat requests" "c_tx dc = concat replies" "c_rx lc = []" "c_rx dc = data"
      "\<not> c_closed lc" "\<not> c_closed dc" "d_requests d2 = (d_requests d1)(uid := None)"
    by blast
  then have "Listener_Accept y jid (Inr (mk_conn replies)) ctx [Command (ConnectCommand \<lparr>cc_ID = uid\<rparr>)] client l =
      ([], Some (Return (Inr (AcceptedConn lc)), l, []))"
    using assms(12) by (simp add: ConnectCommand_ParsePayload_def ClientV2_IsV2_def)
  with ask command bind assms(8,10) show ?thesis
    by (intro exI [of _ "d_nchans d"] exI [of _ d1] exI [of _ "snd (Client_handleCommand fb ju c)"] exI [of _ lc]
        exI [of _ dc] exI [of _ d2]) simp
qed

theorem reverse_dial_witness:
  "let d = example_registered\<lparr>d_serverOpts := [WithUserPassAuth (Some example_auth)]\<rparr>
   in \<exists>ch d1 dc d2. Dialer_DialContext example_yamux (replicate 16 4) d = (Return (Inr ch), d1) \<and>
     Dialer_DialContext_wait None (replicate 16 4) ch (Dialer_handleConnection example_yamux from_bytes16 False
       (mk_conn ([[versionV1, 1, userPassAuth], versionV1 # user_pass_token ''u'' ''p'',
          [versionV1, cmdBind] @ replicate 16 4] @ [[42]])) d1) = Some (Inr dc, d2) \<and> c_rx dc = [[42]]"
proof -
  let ?d = "example_registered\<lparr>d_serverOpts := [WithUserPassAuth (Some example_auth)]\<rparr>"
  let ?s = "s2_Server (d_store ?d 0)"
  have inv: "dialer_inv ?d"
    using example_registered_inv by (simp add: dialer_inv_cong [of ?d example_registered])
  have "fst (ConnManager_GetConn (d_cm ?d)) = Return (Some 0)" "s_state ?s = StateRegistered" "conn_live (s_conn ?s)"
      "c_rx (s_conn ?s) = [[versionV1, resSuccess]]"
    by code_simp+
  note server = fst_eq_pair [OF this(1)] refl this(2-4)
  obtain opt where opt: "WithUserPass ''u'' ''p'' = Inr opt"
    by (simp add: WithUserPass_def)
  then have "agreed (Some (''u'', ''p'')) (d_serverOpts ?d) [opt]"
    by (auto simp: example_auth_def)
  note R = reverse_dial [where c = "example_client [[versionV1, cmdConnect] @ replicate 16 4]"
      and client = "example_client2\<lparr>c2_isV2 := False\<rparr>" and data = "[[42]]" and y = example_yamux
      and l = "(example_listener Map.empty)\<lparr>l_clientOpts := [opt, WithDisableV2Fallback]\<rparr>",
      OF from_bytes16_ok _ inv server _ _ _ _ _ this refl refl]
  show ?thesis
    using R [of "replicate 16 4" "\<lambda>_. Inl EOF" "\<lambda>_. Inl EOF" "[]"] by (auto simp: example_client_def Let_def)
qed

lemma handleV2Stream_live:
  assumes "uuid_FromBytes_ok fb" "length uid = 16" "conn_live c" "c_rx c = ([VersionV1, CmdBind] @ uid) # data"
  shows "Dialer_handleV2Stream fb False c d =
    (case Dialer_deliver False uid (c\<lparr>c_rx := data, c_tx := c_tx c @ [VersionV1, ResSuccess]\<rparr>) d of (sent, d) \<Rightarrow>
      (if sent then c\<lparr>c_rx := data, c_tx := c_tx c @ [VersionV1, ResSuccess]\<rparr>
       else snd (conn_Close (c\<lparr>c_rx := data, c_tx := c_tx c @ [VersionV1, ResSuccess]\<rparr>)), d))"
  using assms by (simp add: Dialer_handleV2Stream_def conn_simps Let_def numeral_2_eq_2)

text \<open>C8 \<open>v2_dial_session\<close>. The same on a multiplexed session: what \<open>bindStream\<close> writes on a new stream is what \<open>handleV2Stream\<close> expects, its
  answer is the one \<open>bindStream\<close> accepts, and the waiting \<open>DialContext\<close> returns the stream, open and with
  everything the listener sends after the bind command still to be read.\<close>

theorem v2_dial_session:
  assumes "uuid_FromBytes_ok fb" "length uid = 16" "dialer_inv d" "d_requests d uid = Some ch"
    and "bind = [VersionV1, CmdBind] @ uid" "answer = [VersionV1, ResSuccess]"
  shows "\<exists>lc dc d1 d2. bindStream uid (mk_conn [answer]) = (Inr (), lc) \<and>
    Dialer_handleV2Stream fb False (mk_conn (bind # data)) d = (dc, d1) \<and>
    Dialer_DialContext_wait None uid ch d1 = Some (Inr dc, d2) \<and>
    c_tx lc = bind \<and> c_tx dc = answer \<and> c_rx lc = [] \<and> c_rx dc = data \<and>
    \<not> c_closed dc \<and> d_requests d2 = (d_requests d)(uid := None)"
proof -
  let ?lc = "(mk_conn [answer])\<lparr>c_rx := [], c_tx := bind\<rparr>"
  let ?dc = "(mk_conn (bind # data))\<lparr>c_rx := data, c_tx := answer\<rparr>"
  have lc: "bindStream uid (mk_conn [answer]) = (Inr (), ?lc)"
    using bindStream_live [of "mk_conn [answer]" "[]" uid] assms(5,6) by simp
  obtain sent d1 where del: "Dialer_deliver False uid ?dc d = (sent, d1)" by fastforce
  note D = deliver_wait [OF assms(3,4) del]
  have "Dialer_handleV2Stream fb False (mk_conn (bind # data)) d = (?dc, d1)"
    using handleV2Stream_live [OF assms(1,2), of "mk_conn (bind # data)" data d] assms(5,6) del D by simp
  moreover obtain d2 where "Dialer_DialContext_wait None uid ch d1 = Some (Inr ?dc, d2)"
      "d_requests d2 = (d_requests d)(uid := None)"
    using D by blast
  ultimately show ?thesis
    using lc by (intro exI [of _ ?lc] exI [of _ ?dc] exI [of _ d1] exI [of _ d2]) simp
qed

theorem v2_dial_session_witness:
  "\<exists>dc d1 d2. Dialer_handleV2Stream from_bytes16 False (mk_conn [[VersionV1, CmdBind] @ replicate 16 4, [42]])
       example_dialing = (dc, d1) \<and>
     Dialer_DialContext_wait None (replicate 16 4) 0 d1 = Some (Inr dc, d2) \<and> c_rx dc = [[42]]"
  using v2_dial_session [OF from_bytes16_ok _ example_dialing_inv example_dialing_request refl refl, of "[[42]]"]
  by auto

end
